theory Spec2Isabelle
  imports Complex_Main "HOL-Library.AList" "HOL-Library.Multiset"
begin

section \<open>Numbers\<close>

text \<open>
  JavaScript numbers are modelled as reals: IEEE rounding, NaN and the infinities are
  left out. A call of \<^verbatim>\<open>Math.random()\<close> is an input of the model: each function that
  draws random numbers takes the drawn values as arguments, in the order of the calls.
\<close>

section \<open>Bouncy balls, physics helper: random start positions\<close>

definition floorWidth :: real where
  "floorWidth = 12"

text \<open>
  \<^verbatim>\<open>getRandomNumber(min, max) = Math.floor(Math.random() * (max - min + 1)) + min\<close>;
  the first argument is the value \<^verbatim>\<open>Math.random()\<close> returned.
\<close>

definition getRandomNumber :: "real \<Rightarrow> real \<Rightarrow> real \<Rightarrow> real" where
  "getRandomNumber r mn mx = of_int \<lfloor>r * (mx - mn + 1)\<rfloor> + mn"

text \<open>The array literal is evaluated left to right: three draws, for x, y and z.\<close>

definition buildRandomVertexPosition :: "real \<Rightarrow> real \<Rightarrow> real \<Rightarrow> real \<times> real \<times> real" where
  "buildRandomVertexPosition r1 r2 r3 =
     (getRandomNumber r1 (- floorWidth) floorWidth,
      getRandomNumber r2 12 20,
      getRandomNumber r3 (- floorWidth) floorWidth)"

section \<open>Font demo: placing meshes at random\<close>

record 'n Vector3 =
  v_x :: 'n
  v_y :: 'n
  v_z :: 'n

text \<open>
  \<^verbatim>\<open>getRandomVertex(num) = (Math.random() - 0.5) * num\<close>; the first argument is the
  value drawn.
\<close>

definition getRandomVertex :: "real \<Rightarrow> real \<Rightarrow> real" where
  "getRandomVertex r num = (r - 0.5) * num"

text \<open>The library's \<^verbatim>\<open>Vector3.distanceTo\<close>: the square root of the squared distance.\<close>

definition distanceToSquared :: "real Vector3 \<Rightarrow> real Vector3 \<Rightarrow> real" where
  "distanceToSquared a b =
     (let dx = v_x a - v_x b; dy = v_y a - v_y b; dz = v_z a - v_z b
      in dx * dx + dy * dy + dz * dz)"

definition distanceTo :: "real Vector3 \<Rightarrow> real Vector3 \<Rightarrow> real" where
  "distanceTo a b = sqrt (distanceToSquared a b)"

text \<open>
  The module-level list \<^verbatim>\<open>positions\<close>; each entry is an object with the one field
  \<^verbatim>\<open>position\<close>, modelled by the vector itself. It starts with the origin, the place of
  the text geometry.
\<close>

definition positions_init :: "real Vector3 list" where
  "positions_init = [\<lparr>v_x = 0, v_y = 0, v_z = 0\<rparr>]"

text \<open>The loop over \<^verbatim>\<open>positions\<close> with its early return.\<close>

fun hasOverlapNeighbor :: "real Vector3 list \<Rightarrow> real Vector3 \<Rightarrow> real \<Rightarrow> bool" where
  "hasOverlapNeighbor [] pos minDistance = False"
| "hasOverlapNeighbor (p # ps) pos minDistance =
     (if distanceTo pos p < minDistance then True
      else hasOverlapNeighbor ps pos minDistance)"

text \<open>
  A mesh as renderRandomizedGeometry builds it: the geometry and the material are the
  objects passed in (shared, not copied), of any type.
\<close>

record ('g, 'm) PlacedMesh =
  pm_geometry :: 'g
  pm_material :: 'm
  pm_position :: "real Vector3"
  pm_rotation_x :: real
  pm_rotation_y :: real

text \<open>
  The do-while loop: three draws make a candidate position, and the loop repeats while
  the candidate has a close neighbour. The list of draws is finite: when it runs out,
  the loop has not returned and the result is None.
\<close>

fun drawPosition :: "real list \<Rightarrow> real Vector3 list \<Rightarrow> (real Vector3 \<times> real list) option" where
  "drawPosition (a # b # c # rs) positions =
     (let position = \<lparr>v_x = getRandomVertex a 50, v_y = getRandomVertex b 50,
                       v_z = getRandomVertex c 50\<rparr>
      in if hasOverlapNeighbor positions position 5 then drawPosition rs positions
         else Some (position, rs))"
| "drawPosition rs positions = None"

text \<open>
  The for loop \<^verbatim>\<open>for (let i = 0; i <= amount; i++)\<close>, with the group built so far.
  After the position is accepted, two more draws give the rotation; the position is
  pushed onto \<^verbatim>\<open>positions\<close> and the mesh is added to the group. The result is the
  group, the new \<^verbatim>\<open>positions\<close> and the draws left.
\<close>

function renderLoop ::
  "nat \<Rightarrow> real \<Rightarrow> 'g \<Rightarrow> 'm \<Rightarrow> real list \<Rightarrow> real Vector3 list \<Rightarrow> ('g, 'm) PlacedMesh list
   \<Rightarrow> (('g, 'm) PlacedMesh list \<times> real Vector3 list \<times> real list) option" where
  "renderLoop i amount geometry material rs positions geometryGroup =
     (if real i \<le> amount then
        (case drawPosition rs positions of
           None \<Rightarrow> None
         | Some (position, rs1) \<Rightarrow>
             (case rs1 of
                rx # ry # rs2 \<Rightarrow>
                  renderLoop (Suc i) amount geometry material rs2 (positions @ [position])
                    (geometryGroup @
                      [\<lparr>pm_geometry = geometry, pm_material = material,
                        pm_position = position,
                        pm_rotation_x = pi * rx, pm_rotation_y = pi * ry\<rparr>])
              | _ \<Rightarrow> None))
      else Some (geometryGroup, positions, rs))"
  by pat_completeness auto
termination
  by (relation "measure (\<lambda>(i, amount, geometry, material, rs, positions, geometryGroup).
        Suc (nat \<lfloor>amount\<rfloor>) - i)")
     (auto simp: le_nat_floor Suc_diff_le)

declare renderLoop.simps [simp del]

definition renderRandomizedGeometry ::
  "real \<Rightarrow> 'g \<Rightarrow> 'm \<Rightarrow> real list \<Rightarrow> real Vector3 list
   \<Rightarrow> (('g, 'm) PlacedMesh list \<times> real Vector3 list \<times> real list) option" where
  "renderRandomizedGeometry amount geometry material rs positions =
     renderLoop 0 amount geometry material rs positions []"

text \<open>The entries of a list are pairwise at distance at least 5.\<close>

fun farApart :: "real Vector3 list \<Rightarrow> bool" where
  "farApart [] = True"
| "farApart (p # ps) = ((\<forall>q \<in> set ps. 5 \<le> distanceTo p q) \<and> farApart ps)"

text \<open>The entry at index k is at distance at least 5 from every entry before it.\<close>

definition acceptedFar :: "real Vector3 list \<Rightarrow> nat \<Rightarrow> bool" where
  "acceptedFar ps k = (\<forall>j < k. 5 \<le> distanceTo (ps ! k) (ps ! j))"

section \<open>Font demo: the draws that a call uses up\<close>

text \<open>The candidate position that three draws make.\<close>

fun candidate :: "real \<times> real \<times> real \<Rightarrow> real Vector3" where
  "candidate (a, b, c) =
     \<lparr>v_x = getRandomVertex a 50, v_y = getRandomVertex b 50, v_z = getRandomVertex c 50\<rparr>"

fun tripleDraws :: "real \<times> real \<times> real \<Rightarrow> real list" where
  "tripleDraws (a, b, c) = [a, b, c]"

text \<open>
  The draws that one pass of the for loop uses up: the candidates that the do-while loop
  throws away, the candidate it keeps, and the two draws of the rotation.
\<close>

record attempt =
  at_rejected :: "(real \<times> real \<times> real) list"
  at_accepted :: "real \<times> real \<times> real"
  at_rx :: real
  at_ry :: real

definition attemptDraws :: "attempt \<Rightarrow> real list" where
  "attemptDraws t =
     concat (map tripleDraws (at_rejected t)) @ tripleDraws (at_accepted t) @ [at_rx t, at_ry t]"

text \<open>
  The passes fit the positions: in each pass in turn, every candidate thrown away has a
  neighbour closer than 5 among the positions so far, and the candidate kept has none.
\<close>

fun placeable :: "real Vector3 list \<Rightarrow> attempt list \<Rightarrow> bool" where
  "placeable ps [] = True"
| "placeable ps (t # ts) =
     (list_all (\<lambda>c. hasOverlapNeighbor ps (candidate c) 5) (at_rejected t) \<and>
      \<not> hasOverlapNeighbor ps (candidate (at_accepted t)) 5 \<and>
      placeable (ps @ [candidate (at_accepted t)]) ts)"

text \<open>The mesh that a pass adds to the group.\<close>

definition placedMesh :: "'g \<Rightarrow> 'm \<Rightarrow> attempt \<Rightarrow> ('g, 'm) PlacedMesh" where
  "placedMesh g m t =
     \<lparr>pm_geometry = g, pm_material = m, pm_position = candidate (at_accepted t),
      pm_rotation_x = pi * at_rx t, pm_rotation_y = pi * at_ry t\<rparr>"

text \<open>
  The cube that getRandomVertex(50) draws from, and its division into 20 * 20 * 20 cells
  of side 5/2: two positions of one cell are closer than 5.
\<close>

definition inBox :: "real Vector3 \<Rightarrow> bool" where
  "inBox p \<longleftrightarrow> - 25 \<le> v_x p \<and> v_x p < 25 \<and> - 25 \<le> v_y p \<and> v_y p < 25 \<and>
               - 25 \<le> v_z p \<and> v_z p < 25"

definition cell :: "real Vector3 \<Rightarrow> int \<times> int \<times> int" where
  "cell p = (\<lfloor>(v_x p + 25) * 2 / 5\<rfloor>, \<lfloor>(v_y p + 25) * 2 / 5\<rfloor>, \<lfloor>(v_z p + 25) * 2 / 5\<rfloor>)"

section \<open>Bouncy balls, main thread: data\<close>

text \<open>
  A number that may be \<^verbatim>\<open>undefined\<close>: what reading a typed array gives (out of range
  the read is \<^verbatim>\<open>undefined\<close>, it does not raise), and so what a vector component set from
  such a read holds.
\<close>

datatype jsnum = Undefined | Num real

text \<open>\<^verbatim>\<open>a <= c\<close> for a number c: false when a is \<^verbatim>\<open>undefined\<close>.\<close>

fun jsnum_le :: "jsnum \<Rightarrow> real \<Rightarrow> bool" where
  "jsnum_le (Num a) c = (a \<le> c)"
| "jsnum_le Undefined c = False"

record 'n Quaternion =
  q_x :: 'n
  q_y :: 'n
  q_z :: 'n
  q_w :: 'n

text \<open>
  The part of a scene object that main.ts reads and writes. \<^verbatim>\<open>Quaternion.set\<close> also
  refreshes the object's derived Euler rotation, which main.ts never reads and the model
  leaves out.
\<close>

record Mesh =
  m_position :: "jsnum Vector3"
  m_quaternion :: "jsnum Quaternion"
  m_scale :: "jsnum Vector3"
  m_visible :: bool

text \<open>
  Scene objects are shared between the scene, \<^verbatim>\<open>worldObjects\<close> and the mesh pool, so
  they live in a store and are named by reference.
\<close>

type_synonym ref = nat

record WorldObjects =
  wo_id :: string
  wo_geometry :: string
  wo_mesh :: ref

record MeshPool =
  mp_id :: string
  mp_geometry :: string
  mp_mesh :: ref

text \<open>
  Modelled from the spec: \<^verbatim>\<open>WorkerEnum\<close> of lib/constants is not among the sources. Its
  members are the seven message types that main.ts names, taken as pairwise different
  values.
\<close>

datatype WorkerEnum =
  RAPIER_READY | UPDATE_MESHES | ROTATE_FLOOR | REMOVE_INACTIVES
| ADD_OBJECTS | REMOVE_BODY | WORLD_STEP

text \<open>Messages the main thread posts to the worker.\<close>

record ObjectData =
  od_id :: string
  od_geometry :: string
  od_position :: "jsnum list"
  od_randomScale :: jsnum

record WorldStepPayload =
  ws_isFloorAnimating :: bool
  ws_floorRotationX :: real
  ws_endFloorRotationAngle :: real
  ws_timeDelta :: real
  ws_isRaining :: bool
  ws_rainSpeedTimer :: real

datatype PostedPayload =
  AddObjects "ObjectData list"
| RemoveBody string bool
| WorldStep WorldStepPayload

record WorkerMessage =
  wm_type :: WorkerEnum
  wm_payload :: PostedPayload

text \<open>
  Messages the main thread receives. The type field is a member of the enum or any other
  value. The payload is an object with the fields the handlers destructure; a handler
  takes the fields it names and ignores the others. A shared buffer is its identity and
  the 32-bit floats it holds when the handler reads it.
\<close>

datatype msg_type = Enum WorkerEnum | Other string

record SharedArrayBuffer =
  sab_id :: nat
  sab_floats :: "real list"

record Payload =
  p_buffer :: SharedArrayBuffer
  p_ids :: "string list"
  p_count :: real
  p_newFloorRotationX :: real
  p_translation :: "real Vector3"
  p_rotation :: "real Quaternion"

text \<open>
  Modelled from the spec: \<^verbatim>\<open>GUIManager\<close> of lib/gui-manager is not among the sources.
  These are the fields of it that main.ts reads or writes.
\<close>

record GUIManager =
  isFloorAnimating :: bool
  floorRotationX :: real
  endFloorRotationAngle :: real
  isRaining :: bool
  rainSpeedTimer :: real

text \<open>
  What a script does to the browser and the libraries, as far as the order of setup and
  rendering goes: starting a load, building the scene graph, making the camera, the
  controls and the other helpers, and the calls of a pass of the render loop.
  \<^verbatim>\<open>NewThreeCanvas\<close> is the constructor of \<^verbatim>\<open>ThreeCanvas\<close> (lib/canvas), which makes the
  scene, the camera, the controls and the renderer of the bouncy-balls demo.
\<close>

datatype effect =
  LoadTexture string
| NewScene | SceneAdd string | GroupAdd string
| NewCamera | NewControls | NewRenderer | NewThreeCanvas
| NewWorker | SetOnMessage | NewGUI | NewGUIManager | NewStats | NewTimer | NewClock
| AddEventListener string
| RequestAnimationFrame | StatsBegin | StatsEnd | TimerUpdate | ControlsUpdate | Render

datatype js_error = TypeError

text \<open>
  The state of the main thread. \<^verbatim>\<open>worldObjects\<close> is a \<^verbatim>\<open>Map\<close>: an association list
  in insertion order. \<^verbatim>\<open>sharedFloatArray\<close> is null or a view, named by the buffer it is a
  view of. \<^verbatim>\<open>meshes\<close> is the store of scene objects and \<^verbatim>\<open>allocated\<close> the number of
  them created so far, which is the next fresh reference. \<^verbatim>\<open>scene\<close> is the list of
  children of \<^verbatim>\<open>threeCanvas.scene\<close>. \<^verbatim>\<open>posted\<close> records the calls of
  \<^verbatim>\<open>worker.postMessage\<close>, \<^verbatim>\<open>disposed\<close> the calls of \<^verbatim>\<open>disposeMesh\<close> and
  \<^verbatim>\<open>effects\<close> what the script and tick have done so far.
\<close>

record main_state =
  worldObjects :: "(string \<times> WorldObjects) list"
  meshPool :: "MeshPool list"
  sharedFloatArray :: "nat option"
  guiManager :: GUIManager
  meshes :: "ref \<Rightarrow> Mesh"
  allocated :: nat
  floor_ref :: ref
  scene :: "ref list"
  disposed :: "ref list"
  posted :: "WorkerMessage list"
  deltaTime :: real
  fpsDelta :: real
  effects :: "effect list"

section \<open>Bouncy balls, main thread: library calls\<close>

text \<open>Reading a \<^verbatim>\<open>Float32Array\<close> at an index.\<close>

definition fa_get :: "real list \<Rightarrow> nat \<Rightarrow> jsnum" where
  "fa_get arr i = (if i < length arr then Num (arr ! i) else Undefined)"

text \<open>
  \<^verbatim>\<open>Vector3.set(x, y, z)\<close> of the library stores x and y as they are given and, when
  the third argument is \<^verbatim>\<open>undefined\<close>, leaves z as it is. \<^verbatim>\<open>Quaternion.set\<close> stores
  its four arguments as they are given.
\<close>

definition Vector3_set :: "jsnum Vector3 \<Rightarrow> jsnum \<Rightarrow> jsnum \<Rightarrow> jsnum \<Rightarrow> jsnum Vector3" where
  "Vector3_set v x y z =
     v\<lparr>v_x := x, v_y := y, v_z := (case z of Undefined \<Rightarrow> v_z v | Num n \<Rightarrow> Num n)\<rparr>"

definition Quaternion_set ::
  "jsnum Quaternion \<Rightarrow> jsnum \<Rightarrow> jsnum \<Rightarrow> jsnum \<Rightarrow> jsnum \<Rightarrow> jsnum Quaternion" where
  "Quaternion_set q x y z w = q\<lparr>q_x := x, q_y := y, q_z := z, q_w := w\<rparr>"

text \<open>
  \<^verbatim>\<open>Object3D.add\<close> takes the object out of its parent, here the scene, and appends it
  to the children; \<^verbatim>\<open>Object3D.remove\<close> takes out the child at \<^verbatim>\<open>indexOf\<close>, if any.
\<close>

definition scene_add :: "ref \<Rightarrow> ref list \<Rightarrow> ref list" where
  "scene_add r children = remove1 r children @ [r]"

definition scene_remove :: "ref \<Rightarrow> ref list \<Rightarrow> ref list" where
  "scene_remove r children = remove1 r children"

text \<open>
  Modelled from the spec: \<^verbatim>\<open>createMesh\<close> of lib/three-helper is not among the sources.
  A call makes a new scene object and returns it with an id and a geometry name. What it
  chooses is the parameter \<open>cm\<close>: \<open>cm kind n\<close> is the id, the geometry name and the new
  object of the call that makes object number n.
\<close>

definition createMesh ::
  "(string \<Rightarrow> nat \<Rightarrow> string \<times> string \<times> Mesh) \<Rightarrow> string \<Rightarrow> main_state
   \<Rightarrow> WorldObjects \<times> main_state" where
  "createMesh cm kind st =
     (let r = allocated st; c = cm kind r
      in (\<lparr>wo_id = fst c, wo_geometry = fst (snd c), wo_mesh = r\<rparr>,
          st\<lparr>meshes := (meshes st)(r := snd (snd c)), allocated := Suc r\<rparr>))"

text \<open>
  Modelled from the spec: \<^verbatim>\<open>disposeMesh\<close> of lib/three-helper is not among the sources.
  A call is recorded; the fields of the object that main.ts reads stay as they are.
\<close>

definition disposeMesh :: "ref \<Rightarrow> main_state \<Rightarrow> main_state" where
  "disposeMesh r st = st\<lparr>disposed := disposed st @ [r]\<rparr>"

section \<open>Bouncy balls, main thread: worker actions\<close>

text \<open>
  One pass of the loop of initStartingObjects: a sphere is created, stored in
  \<^verbatim>\<open>worldObjects\<close> under its id (\<^verbatim>\<open>Map.set\<close> keeps the place of a key that is already
  there) and added to the scene.
\<close>

definition addStartingObject ::
  "(string \<Rightarrow> nat \<Rightarrow> string \<times> string \<times> Mesh) \<Rightarrow> main_state \<Rightarrow> main_state" where
  "addStartingObject cm st =
     (let (threeMesh, st1) = createMesh cm ''sphere'' st
      in st1\<lparr>worldObjects := AList.update (wo_id threeMesh) threeMesh (worldObjects st1),
             scene := scene_add (wo_mesh threeMesh) (scene st1)\<rparr>)"

text \<open>The entry of the ADD_OBJECTS message for one object of \<^verbatim>\<open>worldObjects\<close>.\<close>

definition objectData :: "main_state \<Rightarrow> WorldObjects \<Rightarrow> ObjectData" where
  "objectData st wo =
     (let mesh = meshes st (wo_mesh wo)
      in \<lparr>od_id = wo_id wo, od_geometry = wo_geometry wo,
          od_position = [v_x (m_position mesh), v_y (m_position mesh), v_z (m_position mesh)],
          od_randomScale = v_x (m_scale mesh)\<rparr>)"

definition initStartingObjects ::
  "(string \<Rightarrow> nat \<Rightarrow> string \<times> string \<times> Mesh) \<Rightarrow> main_state \<Rightarrow> main_state" where
  "initStartingObjects cm st =
     (let st1 = fold (\<lambda>_. addStartingObject cm) [0..<20] st
      in st1\<lparr>posted := posted st1 @
           [\<lparr>wm_type = ADD_OBJECTS,
             wm_payload = AddObjects (map (objectData st1) (map snd (worldObjects st1)))\<rparr>]\<rparr>)"

text \<open>
  The loop of udpateAndSyncMeshBodies, with its two counters: the object index and the
  cursor \<open>i\<close> into the float array, which the seven reads \<^verbatim>\<open>sharedFloatArray[i++]\<close> move
  on by seven. \<^verbatim>\<open>ids[objIdx]\<close> out of range is \<^verbatim>\<open>undefined\<close> and \<^verbatim>\<open>id.toString()\<close> then
  raises a TypeError, which ends the handler with the state as it is. A read past the
  end of the array gives \<^verbatim>\<open>undefined\<close>, which \<^verbatim>\<open>position.set\<close> and
  \<^verbatim>\<open>quaternion.set\<close> then receive.
\<close>

function syncLoop ::
  "nat \<Rightarrow> nat \<Rightarrow> real \<Rightarrow> string list \<Rightarrow> real list \<Rightarrow> main_state
   \<Rightarrow> js_error option \<times> main_state" where
  "syncLoop objIdx i objectCount ids arr st =
     (if real objIdx < objectCount then
        (if objIdx < length ids then
           (let oid = ids ! objIdx;
                px = fa_get arr i;
                py = fa_get arr (i + 1);
                pz = fa_get arr (i + 2);
                rx = fa_get arr (i + 3);
                ry = fa_get arr (i + 4);
                rz = fa_get arr (i + 5);
                rw = fa_get arr (i + 6);
                st' = (case map_of (worldObjects st) oid of
                         None \<Rightarrow> st
                       | Some wo \<Rightarrow>
                           (let mesh = meshes st (wo_mesh wo)
                            in st\<lparr>meshes := (meshes st)(wo_mesh wo :=
                                 mesh\<lparr>m_position := Vector3_set (m_position mesh) px py pz,
                                      m_quaternion :=
                                        Quaternion_set (m_quaternion mesh) rx ry rz rw\<rparr>)\<rparr>))
            in syncLoop (Suc objIdx) (i + 7) objectCount ids arr st')
         else (Some TypeError, st))
      else (None, st))"
  by pat_completeness auto
termination
proof (relation "measure (\<lambda>(objIdx, i, objectCount, ids, arr, st).
        nat \<lceil>objectCount\<rceil> - objIdx)")
  show "wf (measure (\<lambda>(objIdx, i, objectCount, ids, arr, st).
        nat \<lceil>objectCount\<rceil> - objIdx))"
    by simp
next
  fix objIdx i :: nat and objectCount :: real and ids :: "string list"
    and arr :: "real list" and st st' :: main_state
  assume "real objIdx < objectCount"
  then have "real objIdx < of_int \<lceil>objectCount\<rceil>"
    using le_of_int_ceiling [of objectCount] by linarith
  then have "int objIdx < \<lceil>objectCount\<rceil>" by linarith
  then have "objIdx < nat \<lceil>objectCount\<rceil>" by linarith
  then show "((Suc objIdx, i + 7, objectCount, ids, arr, st'), objIdx, i, objectCount, ids, arr, st)
        \<in> measure (\<lambda>(objIdx, i, objectCount, ids, arr, st). nat \<lceil>objectCount\<rceil> - objIdx)"
    by simp
qed

declare syncLoop.simps [simp del]

text \<open>
  The view \<^verbatim>\<open>sharedFloatArray\<close> is made anew when there is none or when it is a view of
  another buffer; either way the loop reads the buffer of the message.
\<close>

definition udpateAndSyncMeshBodies :: "Payload \<Rightarrow> main_state \<Rightarrow> js_error option \<times> main_state" where
  "udpateAndSyncMeshBodies payload st =
     (let buffer = p_buffer payload;
          ids = p_ids payload;
          objectCount = p_count payload;
          st1 = (if sharedFloatArray st = None \<or> sharedFloatArray st \<noteq> Some (sab_id buffer)
                 then st\<lparr>sharedFloatArray := Some (sab_id buffer)\<rparr> else st)
      in syncLoop 0 0 objectCount ids (sab_floats buffer) st1)"

definition updateAndRotateFloor :: "Payload \<Rightarrow> main_state \<Rightarrow> main_state" where
  "updateAndRotateFloor payload st =
     (let translation = p_translation payload;
          rotation = p_rotation payload;
          st1 = st\<lparr>guiManager := (guiManager st)\<lparr>floorRotationX := p_newFloorRotationX payload\<rparr>\<rparr>;
          floor_mesh = meshes st1 (floor_ref st1)
      in st1\<lparr>meshes := (meshes st1)(floor_ref st1 :=
             floor_mesh
               \<lparr>m_position := \<lparr>v_x = Num (v_x translation), v_y = Num (v_y translation),
                                v_z = Num (v_z translation)\<rparr>,
                m_quaternion := \<lparr>q_x = Num (q_x rotation), q_y = Num (q_y rotation),
                                  q_z = Num (q_z rotation), q_w = Num (q_w rotation)\<rparr>\<rparr>)\<rparr>)"

text \<open>\<^verbatim>\<open>ids.forEach\<close> of removeInactiveMeshBodies.\<close>

fun removeInactive_forEach :: "string list \<Rightarrow> main_state \<Rightarrow> main_state" where
  "removeInactive_forEach [] st = st"
| "removeInactive_forEach (oid # ids) st =
     removeInactive_forEach ids
       (case map_of (worldObjects st) oid of
          None \<Rightarrow> st
        | Some meshObject \<Rightarrow>
            disposeMesh (wo_mesh meshObject)
              (st\<lparr>worldObjects := AList.delete oid (worldObjects st),
                  scene := scene_remove (wo_mesh meshObject) (scene st)\<rparr>))"

definition removeInactiveMeshBodies :: "Payload \<Rightarrow> main_state \<Rightarrow> main_state" where
  "removeInactiveMeshBodies payload st = removeInactive_forEach (p_ids payload) st"

text \<open>
  The callback of \<^verbatim>\<open>worldObjects.forEach\<close> in checkAndRemoveFallingObjects. The message
  is built with \<^verbatim>\<open>reusable: false\<close> and the field is set to true before it is posted.
\<close>

definition fallingCallback :: "WorldObjects \<Rightarrow> main_state \<Rightarrow> main_state" where
  "fallingCallback wo st =
     (let oid = wo_id wo; geometry = wo_geometry wo; mesh = wo_mesh wo
      in if jsnum_le (v_y (m_position (meshes st mesh))) (- 20) then
           (let st1 = st\<lparr>worldObjects := AList.delete oid (worldObjects st)\<rparr>;
                workerMessage = (REMOVE_BODY, oid, False);
                st2 = st1\<lparr>meshPool := meshPool st1 @
                         [\<lparr>mp_id = oid, mp_geometry = geometry, mp_mesh = mesh\<rparr>]\<rparr>;
                st3 = st2\<lparr>meshes := (meshes st2)(mesh := (meshes st2 mesh)\<lparr>m_visible := False\<rparr>)\<rparr>;
                workerMessage' = (fst workerMessage, fst (snd workerMessage), True)
            in st3\<lparr>posted := posted st3 @
                 [\<lparr>wm_type = fst workerMessage',
                   wm_payload = RemoveBody (fst (snd workerMessage')) (snd (snd workerMessage'))\<rparr>]\<rparr>)
         else st)"

text \<open>
  \<^verbatim>\<open>Map.forEach\<close> visits the entries in insertion order and skips an entry that has been
  deleted before its turn. The first argument is the list of entries at the start of the
  loop; an entry is visited when its key is still in the map, with the value the map
  holds for it.
\<close>

fun falling_forEach :: "(string \<times> WorldObjects) list \<Rightarrow> main_state \<Rightarrow> main_state" where
  "falling_forEach [] st = st"
| "falling_forEach ((k, v) # entries) st =
     falling_forEach entries
       (case map_of (worldObjects st) k of
          None \<Rightarrow> st
        | Some wo \<Rightarrow> fallingCallback wo st)"

definition checkAndRemoveFallingObjects :: "main_state \<Rightarrow> main_state" where
  "checkAndRemoveFallingObjects st = falling_forEach (worldObjects st) st"

definition worldStepTick :: "real \<Rightarrow> main_state \<Rightarrow> main_state" where
  "worldStepTick timeDelta st =
     st\<lparr>posted := posted st @
       [\<lparr>wm_type = WORLD_STEP,
         wm_payload = WorldStep
           \<lparr>ws_isFloorAnimating = isFloorAnimating (guiManager st),
            ws_floorRotationX = floorRotationX (guiManager st),
            ws_endFloorRotationAngle = endFloorRotationAngle (guiManager st),
            ws_timeDelta = timeDelta,
            ws_isRaining = isRaining (guiManager st),
            ws_rainSpeedTimer = rainSpeedTimer (guiManager st)\<rparr>\<rparr>]\<rparr>"

section \<open>Bouncy balls, main thread: message dispatch\<close>

text \<open>
  \<^verbatim>\<open>worker.onmessage\<close>: four tests of the type field in a row, each on the state the
  one before left. An exception raised by a handler ends the dispatch.
\<close>

definition onmessage ::
  "(string \<Rightarrow> nat \<Rightarrow> string \<times> string \<times> Mesh) \<Rightarrow> msg_type \<Rightarrow> Payload \<Rightarrow> main_state
   \<Rightarrow> js_error option \<times> main_state" where
  "onmessage cm ty payload st =
     (let st1 = (if ty = Enum RAPIER_READY then initStartingObjects cm st else st);
          r2 = (if ty = Enum UPDATE_MESHES then udpateAndSyncMeshBodies payload st1
                else (None, st1))
      in case fst r2 of
           Some e \<Rightarrow> (Some e, snd r2)
         | None \<Rightarrow>
             (let st2 = snd r2;
                  st3 = (if ty = Enum ROTATE_FLOOR then updateAndRotateFloor payload st2 else st2);
                  st4 = (if ty = Enum REMOVE_INACTIVES then removeInactiveMeshBodies payload st3
                         else st3)
              in (None, st4)))"

section \<open>Bouncy balls, main thread: the render loop\<close>

definition fpsCap :: real where
  "fpsCap = 240"

definition fpsInterval :: real where
  "fpsInterval = 1 / fpsCap"

text \<open>The remainder operator \<^verbatim>\<open>%\<close>: the quotient is rounded towards zero.\<close>

definition js_rem :: "real \<Rightarrow> real \<Rightarrow> real" where
  "js_rem a b = a - b * of_int (if 0 \<le> a / b then \<lfloor>a / b\<rfloor> else \<lceil>a / b\<rceil>)"

text \<open>
  tick. The values that \<^verbatim>\<open>clock.getDelta()\<close> and \<^verbatim>\<open>clock.getElapsedTime()\<close> return
  in this call are the arguments \<open>delta\<close> and \<open>elapsed\<close>; the second is read only when
  the frame is not skipped.
\<close>

definition tick :: "real \<Rightarrow> real \<Rightarrow> main_state \<Rightarrow> main_state" where
  "tick delta elapsed st =
     (let st1 = st\<lparr>effects := effects st @ [RequestAnimationFrame]\<rparr>;
          st2 = st1\<lparr>effects := effects st1 @ [StatsBegin]\<rparr>;
          st3 = st2\<lparr>fpsDelta := fpsDelta st2 + delta\<rparr>
      in if fpsDelta st3 < fpsInterval then st3
         else
           (let elapsedTime = elapsed;
                timeDelta = elapsedTime - deltaTime st3;
                st4 = st3\<lparr>deltaTime := elapsedTime\<rparr>;
                st5 = st4\<lparr>fpsDelta := js_rem (fpsDelta st4) fpsInterval\<rparr>;
                st6 = st5\<lparr>effects := effects st5 @ [ControlsUpdate]\<rparr>;
                st7 = worldStepTick timeDelta st6;
                st8 = checkAndRemoveFallingObjects st7;
                st9 = st8\<lparr>effects := effects st8 @ [Render]\<rparr>
            in st9\<lparr>effects := effects st9 @ [StatsEnd]\<rparr>))"

section \<open>Bouncy balls, main thread: the script and the events after it\<close>

text \<open>
  A new scene object: at the origin, not rotated, of scale one, visible.
\<close>

definition new_Mesh :: Mesh where
  "new_Mesh =
     \<lparr>m_position = \<lparr>v_x = Num 0, v_y = Num 0, v_z = Num 0\<rparr>,
      m_quaternion = \<lparr>q_x = Num 0, q_y = Num 0, q_z = Num 0, q_w = Num 1\<rparr>,
      m_scale = \<lparr>v_x = Num 1, v_y = Num 1, v_z = Num 1\<rparr>,
      m_visible = True\<rparr>"

text \<open>
  What the top-level script of main.ts does before its last statement, in the order of
  its statements: the worker, the stats panel, the canvas, the GUIManager and the GUI
  panel, the message handler, the floor, the resize listener and the clock.
\<close>

definition bouncy_setup :: "effect list" where
  "bouncy_setup =
     [NewWorker, NewStats, NewThreeCanvas, NewGUIManager, NewGUI, SetOnMessage,
      SceneAdd ''floor'', AddEventListener ''resize'', NewClock]"

text \<open>
  The state when the script reaches its last statement, the first call of tick.
  \<^verbatim>\<open>ThreeCanvas\<close> of lib/canvas is not among the sources: the scene objects its
  constructor makes are the parameters \<open>n\<close> (how many, with the references below n) and
  \<open>objs\<close> (the objects). The floor is made next and added to the scene. \<open>gui\<close> is the
  GUIManager as constructed.
\<close>

definition main_init :: "GUIManager \<Rightarrow> nat \<Rightarrow> (ref \<Rightarrow> Mesh) \<Rightarrow> main_state" where
  "main_init gui n objs =
     \<lparr>worldObjects = [], meshPool = [], sharedFloatArray = None, guiManager = gui,
      meshes = objs(n := new_Mesh), allocated = Suc n, floor_ref = n,
      scene = scene_add n [0..<n], disposed = [], posted = [],
      deltaTime = 0, fpsDelta = 0, effects = bouncy_setup\<rparr>"


text \<open>
  What runs after the script: a message from the worker is handled, or an animation
  frame calls tick. (The actions of the GUI panel are methods of GUIManager and are not
  part of the model.) An exception ends the handler that raised it and the state stays
  as the handler left it.
\<close>

datatype event = WorkerMessage msg_type Payload | AnimationFrame real real

fun main_event ::
  "(string \<Rightarrow> nat \<Rightarrow> string \<times> string \<times> Mesh) \<Rightarrow> event \<Rightarrow> main_state \<Rightarrow> main_state" where
  "main_event cm (WorkerMessage ty payload) st = snd (onmessage cm ty payload st)"
| "main_event cm (AnimationFrame delta elapsed) st = tick delta elapsed st"

definition main_run ::
  "(string \<Rightarrow> nat \<Rightarrow> string \<times> string \<times> Mesh) \<Rightarrow> event list \<Rightarrow> main_state \<Rightarrow> main_state" where
  "main_run cm events st = fold (main_event cm) events st"

section \<open>Bouncy balls, main thread: the transform copy as the specification words it\<close>

text \<open>
  The specification's reading of the copy: object number \<open>objIdx\<close> owns the seven floats
  at offset \<open>7 * objIdx\<close>, the position x, y, z and then the quaternion x, y, z, w,
  which are handed to \<^verbatim>\<open>position.set\<close> and \<^verbatim>\<open>quaternion.set\<close>.
\<close>

definition transformAt :: "real list \<Rightarrow> nat \<Rightarrow> Mesh \<Rightarrow> Mesh" where
  "transformAt arr objIdx m =
     m\<lparr>m_position :=
         Vector3_set (m_position m) (fa_get arr (7 * objIdx)) (fa_get arr (7 * objIdx + 1))
           (fa_get arr (7 * objIdx + 2)),
       m_quaternion :=
         Quaternion_set (m_quaternion m) (fa_get arr (7 * objIdx + 3))
           (fa_get arr (7 * objIdx + 4)) (fa_get arr (7 * objIdx + 5))
           (fa_get arr (7 * objIdx + 6))\<rparr>"

text \<open>
  The same when all seven floats are there: the position and the quaternion are the
  floats themselves.
\<close>

definition floatsAt :: "real list \<Rightarrow> nat \<Rightarrow> Mesh \<Rightarrow> Mesh" where
  "floatsAt arr objIdx m =
     m\<lparr>m_position := \<lparr>v_x = Num (arr ! (7 * objIdx)), v_y = Num (arr ! (7 * objIdx + 1)),
                       v_z = Num (arr ! (7 * objIdx + 2))\<rparr>,
       m_quaternion := \<lparr>q_x = Num (arr ! (7 * objIdx + 3)), q_y = Num (arr ! (7 * objIdx + 4)),
                         q_z = Num (arr ! (7 * objIdx + 5)), q_w = Num (arr ! (7 * objIdx + 6))\<rparr>\<rparr>"

text \<open>
  Object index \<open>objIdx\<close> names the scene object \<open>r\<close>: its id is registered in
  \<^verbatim>\<open>worldObjects\<close> with that object.
\<close>

definition sync_hit :: "(string \<times> WorldObjects) list \<Rightarrow> string list \<Rightarrow> ref \<Rightarrow> nat \<Rightarrow> bool" where
  "sync_hit wos ids r objIdx =
     (case map_of wos (ids ! objIdx) of None \<Rightarrow> False | Some wo \<Rightarrow> wo_mesh wo = r)"

text \<open>
  The object indices below \<open>count\<close> that have an id and name \<open>r\<close>, in rising order.
  (An index past the end of \<^verbatim>\<open>ids\<close> has no id, so no mesh is registered for it.)
\<close>

definition syncHits :: "(string \<times> WorldObjects) list \<Rightarrow> string list \<Rightarrow> real \<Rightarrow> ref \<Rightarrow> nat list" where
  "syncHits wos ids objectCount r =
     filter (sync_hit wos ids r) [0..<min (nat \<lceil>objectCount\<rceil>) (length ids)]"

text \<open>One object index handled as the specification words it.\<close>

definition syncStep :: "real list \<Rightarrow> string list \<Rightarrow> nat \<Rightarrow> main_state \<Rightarrow> main_state" where
  "syncStep arr ids objIdx st =
     (case map_of (worldObjects st) (ids ! objIdx) of
        None \<Rightarrow> st
      | Some wo \<Rightarrow>
          st\<lparr>meshes := (meshes st)(wo_mesh wo := transformAt arr objIdx (meshes st (wo_mesh wo)))\<rparr>)"

section \<open>Bouncy balls, main thread: the falling test as the specification words it\<close>

text \<open>The mesh y-position of a tracked object is at most -20.\<close>

definition belowFloor :: "main_state \<Rightarrow> WorldObjects \<Rightarrow> bool" where
  "belowFloor st wo = jsnum_le (v_y (m_position (meshes st (wo_mesh wo)))) (- 20)"

text \<open>The pool entry and the message for a removed object.\<close>

definition poolEntry :: "WorldObjects \<Rightarrow> MeshPool" where
  "poolEntry wo = \<lparr>mp_id = wo_id wo, mp_geometry = wo_geometry wo, mp_mesh = wo_mesh wo\<rparr>"

definition removeBodyMessage :: "WorldObjects \<Rightarrow> WorkerMessage" where
  "removeBodyMessage wo = \<lparr>wm_type = REMOVE_BODY, wm_payload = RemoveBody (wo_id wo) True\<rparr>"

section \<open>Bouncy balls, main thread: the starting objects as the specification words them\<close>

text \<open>The event is a RAPIER_READY message from the worker.\<close>

fun isReady :: "event \<Rightarrow> bool" where
  "isReady (WorkerMessage ty payload) = (ty = Enum RAPIER_READY)"
| "isReady (AnimationFrame delta elapsed) = False"

text \<open>
  Nothing of the starting objects is there yet: no object has been created after the
  \<open>a\<close> that the script made, \<^verbatim>\<open>worldObjects\<close> is empty, the scene has the children
  \<open>sc\<close> and no ADD_OBJECTS message has been posted.
\<close>

definition noStartingObjects :: "nat \<Rightarrow> ref list \<Rightarrow> main_state \<Rightarrow> bool" where
  "noStartingObjects a sc st \<longleftrightarrow>
     worldObjects st = [] \<and> allocated st = a \<and> scene st = sc \<and>
     (\<forall>m \<in> set (posted st). wm_type m \<noteq> ADD_OBJECTS)"

text \<open>
  The entry of \<^verbatim>\<open>worldObjects\<close> and the entry of the ADD_OBJECTS message for the sphere
  that createMesh makes as object number \<open>r\<close>.
\<close>

definition startingEntry ::
  "(string \<Rightarrow> nat \<Rightarrow> string \<times> string \<times> Mesh) \<Rightarrow> nat \<Rightarrow> string \<times> WorldObjects" where
  "startingEntry cm r =
     (let c = cm ''sphere'' r
      in (fst c, \<lparr>wo_id = fst c, wo_geometry = fst (snd c), wo_mesh = r\<rparr>))"

definition startingData ::
  "(string \<Rightarrow> nat \<Rightarrow> string \<times> string \<times> Mesh) \<Rightarrow> nat \<Rightarrow> ObjectData" where
  "startingData cm r =
     (let c = cm ''sphere'' r; mesh = snd (snd c)
      in \<lparr>od_id = fst c, od_geometry = fst (snd c),
          od_position = [v_x (m_position mesh), v_y (m_position mesh), v_z (m_position mesh)],
          od_randomScale = v_x (m_scale mesh)\<rparr>)"

section \<open>The haunted-house script and the order of setup and rendering\<close>









section \<open>Bouncy balls, main thread: what holds of every state\<close>

text \<open>
  \<^verbatim>\<open>worldObjects\<close> is a \<^verbatim>\<open>Map\<close>, so its keys are pairwise different; every entry is
  stored under its own id; and a scene holds a child once.
\<close>

definition wellFormed :: "main_state \<Rightarrow> bool" where
  "wellFormed st \<longleftrightarrow>
     distinct (map fst (worldObjects st)) \<and>
     (\<forall>(k, wo) \<in> set (worldObjects st). wo_id wo = k) \<and>
     distinct (scene st)"

section \<open>Properties of the physics helper\<close>


lemma getRandomNumber_Ints:
  assumes "mn \<in> \<int>"
  shows "getRandomNumber r mn mx \<in> \<int>"
  using assms by (simp add: getRandomNumber_def)

lemma getRandomNumber_range:
  assumes r: "0 \<le> r" "r < 1" and n: "mx - mn + 1 = of_int n" and pos: "0 < n"
  shows "mn \<le> getRandomNumber r mn mx \<and> getRandomNumber r mn mx \<le> mx"
proof -
  have lo: "0 \<le> r * of_int n" using r pos by simp
  have hi: "r * of_int n < of_int n" using r pos by simp
  have f0: "0 \<le> \<lfloor>r * of_int n\<rfloor>" using lo by simp
  have f1: "\<lfloor>r * of_int n\<rfloor> < n" using hi by (simp add: floor_less_iff)
  then have f2: "\<lfloor>r * of_int n\<rfloor> \<le> n - 1" by simp
  have "(of_int \<lfloor>r * of_int n\<rfloor> :: real) \<le> of_int (n - 1)"
    using f2 of_int_le_iff by blast
  then have up: "(of_int \<lfloor>r * of_int n\<rfloor> :: real) \<le> mx - mn"
    using n by simp
  have dn: "(0::real) \<le> of_int \<lfloor>r * of_int n\<rfloor>" using f0 by simp
  show ?thesis
    unfolding getRandomNumber_def n using up dn by simp
qed

text \<open>
  C10. Whatever the three draws of \<^verbatim>\<open>Math.random()\<close> (each in the half-open interval
  from 0 to 1), buildRandomVertexPosition returns a triple of whole numbers with x and z
  between -floorWidth = -12 and floorWidth = 12 and y between 12 and 20, bounds included.
\<close>

theorem buildRandomVertexPosition_range:
  assumes "0 \<le> r1" "r1 < 1" "0 \<le> r2" "r2 < 1" "0 \<le> r3" "r3 < 1"
    and "buildRandomVertexPosition r1 r2 r3 = (x, y, z)"
  shows "x \<in> \<int> \<and> y \<in> \<int> \<and> z \<in> \<int> \<and>
         - floorWidth \<le> x \<and> x \<le> floorWidth \<and> floorWidth = 12 \<and>
         12 \<le> y \<and> y \<le> 20 \<and>
         - floorWidth \<le> z \<and> z \<le> floorWidth"
proof -
  have x: "x = getRandomNumber r1 (- floorWidth) floorWidth"
    and y: "y = getRandomNumber r2 12 20"
    and z: "z = getRandomNumber r3 (- floorWidth) floorWidth"
    using assms(7) by (simp_all add: buildRandomVertexPosition_def)
  have w: "floorWidth - (- floorWidth) + 1 = of_int 25"
    by (simp add: floorWidth_def)
  have h: "(20::real) - 12 + 1 = of_int 9" by simp
  have fi: "- floorWidth \<in> \<int>" by (simp add: floorWidth_def)
  have xi: "x \<in> \<int>" unfolding x by (rule getRandomNumber_Ints [OF fi])
  have zi: "z \<in> \<int>" unfolding z by (rule getRandomNumber_Ints [OF fi])
  have yi: "y \<in> \<int>" unfolding y by (rule getRandomNumber_Ints) simp
  have xr: "- floorWidth \<le> x \<and> x \<le> floorWidth"
    unfolding x by (rule getRandomNumber_range [OF assms(1) assms(2) w]) simp
  have zr: "- floorWidth \<le> z \<and> z \<le> floorWidth"
    unfolding z by (rule getRandomNumber_range [OF assms(5) assms(6) w]) simp
  have yr: "12 \<le> y \<and> y \<le> 20"
    unfolding y by (rule getRandomNumber_range [OF assms(3) assms(4) h]) simp
  show ?thesis using xi yi zi xr yr zr by (simp add: floorWidth_def)
qed

theorem buildRandomVertexPosition_range_witness:
  "buildRandomVertexPosition 0 (1/2) (24/25) = (-12, 16, 12) \<and>
   (-12::real) \<in> \<int> \<and> (16::real) \<in> \<int> \<and> (12::real) \<in> \<int> \<and>
   - floorWidth \<le> -12 \<and> (12::real) \<le> floorWidth \<and> (12::real) \<le> 16 \<and> (16::real) \<le> 20"
proof -
  have e: "buildRandomVertexPosition 0 (1/2) (24/25) = (-12, 16, 12)"
    by (simp add: buildRandomVertexPosition_def getRandomNumber_def floorWidth_def)
  show ?thesis
    using buildRandomVertexPosition_range [of 0 "1/2" "24/25" "-12" 16 12] e
    by (simp add: floorWidth_def)
qed

section \<open>Properties of the font demo\<close>

lemma hasOverlapNeighbor_iff:
  "hasOverlapNeighbor ps pos d \<longleftrightarrow> (\<exists>p \<in> set ps. distanceTo pos p < d)"
  by (induction ps) auto

lemma drawPosition_accepted:
  "drawPosition rs ps = Some (p, rs') \<Longrightarrow> \<not> hasOverlapNeighbor ps p 5"
  by (induction rs ps rule: drawPosition.induct) (auto simp: Let_def split: if_splits)

lemma distanceTo_commute: "distanceTo a b = distanceTo b a"
  by (simp add: distanceTo_def distanceToSquared_def Let_def power2_commute algebra_simps)

lemma farApart_snoc:
  "farApart (ps @ [p]) \<longleftrightarrow> farApart ps \<and> (\<forall>q \<in> set ps. 5 \<le> distanceTo p q)"
  by (induction ps) (auto simp: distanceTo_commute)

lemma renderLoop_stop:
  "\<not> real i \<le> amount \<Longrightarrow> renderLoop i amount g m rs ps grp = Some (grp, ps, rs)"
  by (subst renderLoop.simps) simp

lemma renderLoop_step:
  assumes "real i \<le> amount" and "renderLoop i amount g m rs ps grp = Some res"
  obtains p rs1 rx rt ry rs2 where
    "drawPosition rs ps = Some (p, rs1)" "rs1 = rx # rt" "rt = ry # rs2"
    "renderLoop (Suc i) amount g m rs2 (ps @ [p])
       (grp @ [\<lparr>pm_geometry = g, pm_material = m, pm_position = p,
                pm_rotation_x = pi * rx, pm_rotation_y = pi * ry\<rparr>]) = Some res"
  using assms by (subst (asm) renderLoop.simps) (auto split: option.splits list.splits)

lemma renderLoop_positions:
  "renderLoop i amount g m rs ps grp = Some (grp', ps', rs') \<Longrightarrow>
   take (length ps) ps' = ps \<and> length ps \<le> length ps' \<and>
   (\<forall>k. length ps \<le> k \<and> k < length ps' \<longrightarrow> acceptedFar ps' k)"
proof (induction i amount g m rs ps grp rule: renderLoop.induct)
  case (1 i amount g m rs ps grp)
  show ?case
  proof (cases "real i \<le> amount")
    case False
    then have "ps' = ps" using "1.prems" by (simp add: renderLoop_stop)
    then show ?thesis by auto
  next
    case True
    from renderLoop_step [OF True "1.prems"(1)] obtain p rs1 rx rt ry rs2 where
      d: "drawPosition rs ps = Some (p, rs1)" and r1: "rs1 = rx # rt" and r2: "rt = ry # rs2"
      and rec: "renderLoop (Suc i) amount g m rs2 (ps @ [p])
                 (grp @ [\<lparr>pm_geometry = g, pm_material = m, pm_position = p,
                          pm_rotation_x = pi * rx, pm_rotation_y = pi * ry\<rparr>])
                = Some (grp', ps', rs')"
      by blast
    from "1.IH" [OF True d refl r1 r2 rec] have
      t: "take (length (ps @ [p])) ps' = ps @ [p]"
      and l: "length (ps @ [p]) \<le> length ps'"
      and f: "\<forall>k. length (ps @ [p]) \<le> k \<and> k < length ps' \<longrightarrow> acceptedFar ps' k"
      by blast+
    have t1: "take (length ps) ps' = ps"
    proof -
      have "take (length ps) (take (length (ps @ [p])) ps') = take (length ps) (ps @ [p])"
        by (simp only: t)
      then show ?thesis by (simp add: min_def)
    qed
    have nth_old: "ps' ! j = (ps @ [p]) ! j" if "j \<le> length ps" for j
    proof -
      have "take (length (ps @ [p])) ps' ! j = ps' ! j" using that by simp
      then show ?thesis by (simp only: t)
    qed
    have far_p: "\<forall>q \<in> set ps. 5 \<le> distanceTo p q"
      using drawPosition_accepted [OF d] by (auto simp: hasOverlapNeighbor_iff not_less)
    have here: "acceptedFar ps' (length ps)"
      unfolding acceptedFar_def
    proof (intro allI impI)
      fix j assume j: "j < length ps"
      have "ps' ! length ps = p" using nth_old [of "length ps"] by simp
      moreover have "ps' ! j = ps ! j" using nth_old [of j] j by (simp add: nth_append)
      ultimately show "5 \<le> distanceTo (ps' ! length ps) (ps' ! j)"
        using far_p j nth_mem [of j ps] by simp
    qed
    have "acceptedFar ps' k" if "length ps \<le> k" "k < length ps'" for k
    proof (cases "k = length ps")
      case True then show ?thesis using here by simp
    next
      case False
      then have "length (ps @ [p]) \<le> k" using that by simp
      then show ?thesis using f that by blast
    qed
    then show ?thesis using t1 l by simp
  qed
qed

lemma farApart_acceptedFar:
  "farApart ps \<longleftrightarrow> (\<forall>k < length ps. acceptedFar ps k)"
proof (induction ps rule: rev_induct)
  case Nil
  then show ?case by simp
next
  case (snoc p ps)
  have a: "(\<forall>k < length ps. acceptedFar (ps @ [p]) k) \<longleftrightarrow> (\<forall>k < length ps. acceptedFar ps k)"
    by (auto simp: acceptedFar_def nth_append)
  have b: "acceptedFar (ps @ [p]) (length ps) \<longleftrightarrow> (\<forall>q \<in> set ps. 5 \<le> distanceTo p q)"
    by (simp add: acceptedFar_def nth_append all_set_conv_all_nth)
  have "(\<forall>k < length (ps @ [p]). acceptedFar (ps @ [p]) k) \<longleftrightarrow>
        (\<forall>k < length ps. acceptedFar (ps @ [p]) k) \<and> acceptedFar (ps @ [p]) (length ps)"
    by (auto simp: less_Suc_eq)
  then show ?case using snoc a b by (simp add: farApart_snoc)
qed


lemma distanceTo_less_5: "distanceTo a b < 5 \<longleftrightarrow> distanceToSquared a b < 25"
proof -
  have "sqrt 25 = sqrt (5\<^sup>2)" by simp
  then have "sqrt 25 = 5" by (simp only: real_sqrt_abs)
  then show ?thesis
    using real_sqrt_less_iff [of "distanceToSquared a b" 25] by (simp add: distanceTo_def)
qed

lemma distanceTo_ge_5: "5 \<le> distanceTo a b \<longleftrightarrow> 25 \<le> distanceToSquared a b"
  using distanceTo_less_5 [of a b] by linarith

lemma drawPosition_attempt:
  "list_all (\<lambda>c. hasOverlapNeighbor ps (candidate c) 5) rej \<Longrightarrow>
   \<not> hasOverlapNeighbor ps (candidate acc) 5 \<Longrightarrow>
   drawPosition (concat (map tripleDraws rej) @ tripleDraws acc @ rest) ps =
     Some (candidate acc, rest)"
proof (induction rej)
  case Nil
  obtain a b c where acc: "acc = (a, b, c)" by (cases acc)
  show ?case using Nil unfolding acc by (simp add: Let_def)
next
  case (Cons r rej)
  obtain a b c where r: "r = (a, b, c)" by (cases r)
  show ?case using Cons unfolding r by (simp add: Let_def)
qed

lemma drawPosition_attempt_conv:
  "drawPosition rs ps = Some (p, rest) \<Longrightarrow>
   \<exists>rej acc. rs = concat (map tripleDraws rej) @ tripleDraws acc @ rest \<and> p = candidate acc \<and>
     list_all (\<lambda>c. hasOverlapNeighbor ps (candidate c) 5) rej \<and>
     \<not> hasOverlapNeighbor ps (candidate acc) 5"
proof (induction rs ps rule: drawPosition.induct)
  case (1 a b c rs ps)
  show ?case
  proof (cases "hasOverlapNeighbor ps (candidate (a, b, c)) 5")
    case True
    then have "drawPosition rs ps = Some (p, rest)" using "1.prems" by (simp add: Let_def)
    from "1.IH" [OF refl _ this] True obtain rej acc where
      "rs = concat (map tripleDraws rej) @ tripleDraws acc @ rest" "p = candidate acc"
      "list_all (\<lambda>c. hasOverlapNeighbor ps (candidate c) 5) rej"
      "\<not> hasOverlapNeighbor ps (candidate acc) 5"
      by auto
    then have "a # b # c # rs = concat (map tripleDraws ((a, b, c) # rej)) @ tripleDraws acc @ rest \<and>
      p = candidate acc \<and>
      list_all (\<lambda>c. hasOverlapNeighbor ps (candidate c) 5) ((a, b, c) # rej) \<and>
      \<not> hasOverlapNeighbor ps (candidate acc) 5"
      using True by simp
    then show ?thesis by blast
  next
    case False
    then have "p = candidate (a, b, c)" "rest = rs" using "1.prems" by (simp_all add: Let_def)
    then have "a # b # c # rs = concat (map tripleDraws []) @ tripleDraws (a, b, c) @ rest \<and>
      p = candidate (a, b, c) \<and>
      list_all (\<lambda>c. hasOverlapNeighbor ps (candidate c) 5) [] \<and>
      \<not> hasOverlapNeighbor ps (candidate (a, b, c)) 5"
      using False by simp
    then show ?thesis by blast
  qed
qed simp_all

lemma renderLoop_placeable:
  "placeable ps ts \<Longrightarrow> i + length ts = Suc (nat \<lfloor>amount\<rfloor>) \<Longrightarrow> 0 \<le> amount \<Longrightarrow>
   renderLoop i amount g m (concat (map attemptDraws ts) @ rest) ps grp =
     Some (grp @ map (placedMesh g m) ts, ps @ map (\<lambda>t. candidate (at_accepted t)) ts, rest)"
proof (induction ts arbitrary: i ps grp)
  case Nil
  then have "i = Suc (nat \<lfloor>amount\<rfloor>)" by simp
  then have "\<not> real i \<le> amount" using Nil(3) by (simp add: not_le) linarith
  then show ?case by (simp add: renderLoop_stop)
next
  case (Cons t ts)
  from Cons.prems(2) have "i \<le> nat \<lfloor>amount\<rfloor>" by simp
  then have "real i \<le> real (nat \<lfloor>amount\<rfloor>)" by simp
  also have "\<dots> = of_int \<lfloor>amount\<rfloor>" using Cons.prems(3) by simp
  also have "\<dots> \<le> amount" by (rule of_int_floor_le)
  finally have le: "real i \<le> amount" .
  have d: "drawPosition (concat (map attemptDraws (t # ts)) @ rest) ps =
      Some (candidate (at_accepted t), at_rx t # at_ry t # concat (map attemptDraws ts) @ rest)"
    using drawPosition_attempt [of ps "at_rejected t" "at_accepted t"
        "at_rx t # at_ry t # concat (map attemptDraws ts) @ rest"] Cons.prems(1)
    by (simp add: attemptDraws_def)
  have p: "placeable (ps @ [candidate (at_accepted t)]) ts" using Cons.prems(1) by simp
  have l: "Suc i + length ts = Suc (nat \<lfloor>amount\<rfloor>)" using Cons.prems(2) by simp
  show ?case
    apply (subst renderLoop.simps)
    apply (simp only: le d if_True option.case prod.case list.case)
    apply (subst Cons.IH [OF p l Cons.prems(3)])
    apply (simp add: placedMesh_def)
    done
qed

lemma renderLoop_placeable_conv:
  "renderLoop i amount g m rs ps grp = Some (grp', ps', rest) \<Longrightarrow> 0 \<le> amount \<Longrightarrow>
   i \<le> Suc (nat \<lfloor>amount\<rfloor>) \<Longrightarrow>
   \<exists>ts. i + length ts = Suc (nat \<lfloor>amount\<rfloor>) \<and> placeable ps ts \<and>
        rs = concat (map attemptDraws ts) @ rest \<and>
        grp' = grp @ map (placedMesh g m) ts \<and>
        ps' = ps @ map (\<lambda>t. candidate (at_accepted t)) ts"
proof (induction i amount g m rs ps grp rule: renderLoop.induct)
  case (1 i amount g m rs ps grp)
  show ?case
  proof (cases "real i \<le> amount")
    case False
    then have "i = Suc (nat \<lfloor>amount\<rfloor>)" using "1.prems"(2,3)
      by (simp add: not_le) linarith
    moreover have "grp' = grp \<and> ps' = ps \<and> rest = rs"
      using "1.prems"(1) False by (simp add: renderLoop_stop)
    ultimately have "i + length ([] :: attempt list) = Suc (nat \<lfloor>amount\<rfloor>) \<and> placeable ps [] \<and>
        rs = concat (map attemptDraws []) @ rest \<and>
        grp' = grp @ map (placedMesh g m) [] \<and>
        ps' = ps @ map (\<lambda>t. candidate (at_accepted t)) []"
      by simp
    then show ?thesis by blast
  next
    case True
    from renderLoop_step [OF True "1.prems"(1)] obtain p rs1 rx rt ry rs2 where
      d: "drawPosition rs ps = Some (p, rs1)" and r1: "rs1 = rx # rt" and r2: "rt = ry # rs2"
      and rec: "renderLoop (Suc i) amount g m rs2 (ps @ [p])
                 (grp @ [\<lparr>pm_geometry = g, pm_material = m, pm_position = p,
                          pm_rotation_x = pi * rx, pm_rotation_y = pi * ry\<rparr>])
                = Some (grp', ps', rest)"
      by blast
    have le: "Suc i \<le> Suc (nat \<lfloor>amount\<rfloor>)" using True by (simp add: le_nat_floor)
    from "1.IH" [OF True d refl r1 r2 rec "1.prems"(2) le] obtain ts where
      ts: "Suc i + length ts = Suc (nat \<lfloor>amount\<rfloor>)" "placeable (ps @ [p]) ts"
        "rs2 = concat (map attemptDraws ts) @ rest"
        "grp' = (grp @ [\<lparr>pm_geometry = g, pm_material = m, pm_position = p,
                          pm_rotation_x = pi * rx, pm_rotation_y = pi * ry\<rparr>]) @
                 map (placedMesh g m) ts"
        "ps' = (ps @ [p]) @ map (\<lambda>t. candidate (at_accepted t)) ts"
      by blast
    from drawPosition_attempt_conv [OF d] obtain rej acc where
      ra: "rs = concat (map tripleDraws rej) @ tripleDraws acc @ rs1" "p = candidate acc"
        "list_all (\<lambda>c. hasOverlapNeighbor ps (candidate c) 5) rej"
        "\<not> hasOverlapNeighbor ps (candidate acc) 5"
      by blast
    let ?t = "\<lparr>at_rejected = rej, at_accepted = acc, at_rx = rx, at_ry = ry\<rparr>"
    have "i + length (?t # ts) = Suc (nat \<lfloor>amount\<rfloor>) \<and> placeable ps (?t # ts) \<and>
        rs = concat (map attemptDraws (?t # ts)) @ rest \<and>
        grp' = grp @ map (placedMesh g m) (?t # ts) \<and>
        ps' = ps @ map (\<lambda>t. candidate (at_accepted t)) (?t # ts)"
      using ts ra r1 r2 by (simp add: attemptDraws_def placedMesh_def)
    then show ?thesis by blast
  qed
qed

text \<open>
  C8, as amended. A call of renderRandomizedGeometry with an amount of at least 0
  returns exactly when the draws split into nat \<lfloor>amount\<rfloor> + 1 passes, one for each
  i = 0, 1, ... up to amount, that fit the positions: in each pass in turn some candidates
  that have a neighbour closer than 5, then a candidate that has none, then the two
  draws of the rotation. The group it then returns has one mesh for each pass, in turn,
  at the candidate kept and with the geometry and the material of the arguments: it has
  exactly \<lfloor>amount\<rfloor> + 1 meshes, which is amount + 1 when amount is a whole number (the
  bound of the loop is inclusive). The positions kept are appended to the list and the
  draws after the last pass are left.
\<close>

theorem renderRandomizedGeometry_group:
  assumes "0 \<le> amount"
  shows "(renderRandomizedGeometry amount geometry material rs positions
            = Some (geometryGroup, positions', rs') \<longleftrightarrow>
          (\<exists>ts. length ts = nat \<lfloor>amount\<rfloor> + 1 \<and> placeable positions ts \<and>
                rs = concat (map attemptDraws ts) @ rs' \<and>
                geometryGroup = map (placedMesh geometry material) ts \<and>
                positions' = positions @ map (\<lambda>t. candidate (at_accepted t)) ts)) \<and>
         (renderRandomizedGeometry amount geometry material rs positions
            = Some (geometryGroup, positions', rs') \<longrightarrow>
          length geometryGroup = nat \<lfloor>amount\<rfloor> + 1 \<and>
          (amount \<in> \<int> \<longrightarrow> real (length geometryGroup) = amount + 1) \<and>
          (\<forall>mesh \<in> set geometryGroup.
             pm_geometry mesh = geometry \<and> pm_material mesh = material))"
proof -
  have a: "\<exists>ts. length ts = nat \<lfloor>amount\<rfloor> + 1 \<and> placeable positions ts \<and>
                rs = concat (map attemptDraws ts) @ rs' \<and>
                geometryGroup = map (placedMesh geometry material) ts \<and>
                positions' = positions @ map (\<lambda>t. candidate (at_accepted t)) ts"
    if "renderRandomizedGeometry amount geometry material rs positions
            = Some (geometryGroup, positions', rs')"
    using renderLoop_placeable_conv [OF that [unfolded renderRandomizedGeometry_def] assms]
    by auto
  have b: "renderRandomizedGeometry amount geometry material rs positions
            = Some (geometryGroup, positions', rs')"
    if "\<exists>ts. length ts = nat \<lfloor>amount\<rfloor> + 1 \<and> placeable positions ts \<and>
                rs = concat (map attemptDraws ts) @ rs' \<and>
                geometryGroup = map (placedMesh geometry material) ts \<and>
                positions' = positions @ map (\<lambda>t. candidate (at_accepted t)) ts"
  proof -
    from that obtain ts where ts: "length ts = nat \<lfloor>amount\<rfloor> + 1" "placeable positions ts"
      "rs = concat (map attemptDraws ts) @ rs'"
      "geometryGroup = map (placedMesh geometry material) ts"
      "positions' = positions @ map (\<lambda>t. candidate (at_accepted t)) ts"
      by blast
    have l: "0 + length ts = Suc (nat \<lfloor>amount\<rfloor>)" using ts(1) by simp
    show ?thesis
      unfolding renderRandomizedGeometry_def ts(3,4,5)
      by (subst renderLoop_placeable [OF ts(2) l assms]) simp
  qed
  have c: "length geometryGroup = nat \<lfloor>amount\<rfloor> + 1 \<and>
          (amount \<in> \<int> \<longrightarrow> real (length geometryGroup) = amount + 1) \<and>
          (\<forall>mesh \<in> set geometryGroup.
             pm_geometry mesh = geometry \<and> pm_material mesh = material)"
    if run: "renderRandomizedGeometry amount geometry material rs positions
            = Some (geometryGroup, positions', rs')"
  proof -
    from a [OF run] obtain ts where ts: "length ts = nat \<lfloor>amount\<rfloor> + 1"
      "geometryGroup = map (placedMesh geometry material) ts"
      by blast
    have l: "length geometryGroup = nat \<lfloor>amount\<rfloor> + 1" using ts by simp
    have "real (length geometryGroup) = amount + 1" if "amount \<in> \<int>"
    proof -
      from that obtain k where k: "amount = of_int k" by (auto elim: Ints_cases)
      have "real (nat \<lfloor>amount\<rfloor>) = amount" using assms unfolding k by simp
      then show ?thesis using l by simp
    qed
    moreover have "\<forall>mesh \<in> set geometryGroup.
             pm_geometry mesh = geometry \<and> pm_material mesh = material"
      unfolding ts(2) by (simp add: placedMesh_def)
    ultimately show ?thesis using l by blast
  qed
  show ?thesis using a b c by blast
qed

theorem renderRandomizedGeometry_group_witness:
  "renderRandomizedGeometry 1 ''torus'' ''matcap''
     [1/2, 1/2, 1/2, 0, 0, 0, 1/4, 1/2, 1/50, 0, 0, 9/10, 9/10, 9/10, 0, 3/4, 1/3]
     positions_init
   = Some ([\<lparr>pm_geometry = ''torus'', pm_material = ''matcap'',
             pm_position = \<lparr>v_x = -25, v_y = -25, v_z = -25\<rparr>,
             pm_rotation_x = pi * (1/4), pm_rotation_y = pi * (1/2)\<rparr>,
            \<lparr>pm_geometry = ''torus'', pm_material = ''matcap'',
             pm_position = \<lparr>v_x = 20, v_y = 20, v_z = 20\<rparr>,
             pm_rotation_x = pi * 0, pm_rotation_y = pi * (3/4)\<rparr>],
           [\<lparr>v_x = 0, v_y = 0, v_z = 0\<rparr>, \<lparr>v_x = -25, v_y = -25, v_z = -25\<rparr>,
            \<lparr>v_x = 20, v_y = 20, v_z = 20\<rparr>],
           [1/3])
   \<and> real (length [\<lparr>pm_geometry = ''torus'', pm_material = ''matcap'',
             pm_position = \<lparr>v_x = -25, v_y = -25, v_z = -25\<rparr>,
             pm_rotation_x = pi * (1/4), pm_rotation_y = pi * (1/2)\<rparr>,
            \<lparr>pm_geometry = ''torus'', pm_material = ''matcap'',
             pm_position = \<lparr>v_x = 20, v_y = 20, v_z = 20\<rparr>,
             pm_rotation_x = pi * 0, pm_rotation_y = pi * (3/4)\<rparr>]) = 1 + 1"
proof -
  let ?rs = "[1/2, 1/2, 1/2, 0, 0, 0, 1/4, 1/2, 1/50, 0, 0, 9/10, 9/10, 9/10, 0, 3/4, 1/3] :: real list"
  let ?grp = "[\<lparr>pm_geometry = ''torus'', pm_material = ''matcap'',
             pm_position = \<lparr>v_x = -25, v_y = -25, v_z = -25\<rparr>,
             pm_rotation_x = pi * (1/4), pm_rotation_y = pi * (1/2)\<rparr>,
            \<lparr>pm_geometry = ''torus'', pm_material = ''matcap'',
             pm_position = \<lparr>v_x = 20, v_y = 20, v_z = 20\<rparr>,
             pm_rotation_x = pi * 0, pm_rotation_y = pi * (3/4)\<rparr>]"
  let ?ps = "[\<lparr>v_x = 0, v_y = 0, v_z = 0\<rparr>, \<lparr>v_x = -25, v_y = -25, v_z = -25\<rparr>,
            \<lparr>v_x = 20, v_y = 20, v_z = 20\<rparr>] :: real Vector3 list"
  let ?ts = "[\<lparr>at_rejected = [(1/2, 1/2, 1/2)], at_accepted = (0, 0, 0),
               at_rx = 1/4, at_ry = 1/2\<rparr>,
              \<lparr>at_rejected = [(1/50, 0, 0)], at_accepted = (9/10, 9/10, 9/10),
               at_rx = 0, at_ry = 3/4\<rparr>]"
  have a: "(0::real) \<le> 1" by simp
  note t = renderRandomizedGeometry_group [OF a, of "''torus''" "''matcap''" ?rs positions_init
      ?grp ?ps "[1/3]"]
  have "length ?ts = nat \<lfloor>1::real\<rfloor> + 1 \<and> placeable positions_init ?ts \<and>
        ?rs = concat (map attemptDraws ?ts) @ [1/3] \<and>
        ?grp = map (placedMesh ''torus'' ''matcap'') ?ts \<and>
        ?ps = positions_init @ map (\<lambda>t. candidate (at_accepted t)) ?ts"
    by (simp add: positions_init_def attemptDraws_def placedMesh_def getRandomVertex_def
        distanceTo_less_5 distanceToSquared_def)
  then have "\<exists>ts. length ts = nat \<lfloor>1::real\<rfloor> + 1 \<and> placeable positions_init ts \<and>
        ?rs = concat (map attemptDraws ts) @ [1/3] \<and>
        ?grp = map (placedMesh ''torus'' ''matcap'') ts \<and>
        ?ps = positions_init @ map (\<lambda>t. candidate (at_accepted t)) ts"
    by (rule exI)
  with t have run: "renderRandomizedGeometry 1 ''torus'' ''matcap'' ?rs positions_init
      = Some (?grp, ?ps, [1/3])"
    by blast
  with t have "1 \<in> (\<int> :: real set) \<longrightarrow> real (length ?grp) = 1 + 1" by blast
  then have "real (length ?grp) = 1 + 1" by simp
  with run show ?thesis by blast
qed

text \<open>
  C8, as the specification words it, fails where the amount is not a whole number: with
  the amount 5/2 the loop runs for i = 0, 1, 2 and the group returned has 3 meshes, not
  5/2 + 1.
\<close>

theorem renderRandomizedGeometry_fractional_amount:
  "renderRandomizedGeometry (5/2) ''torus'' ''matcap''
     [0, 0, 0, 1/4, 1/2, 9/10, 9/10, 9/10, 0, 3/4, 1/2, 1/2, 7/10, 1/2, 1/2]
     positions_init
   = Some ([\<lparr>pm_geometry = ''torus'', pm_material = ''matcap'',
             pm_position = \<lparr>v_x = -25, v_y = -25, v_z = -25\<rparr>,
             pm_rotation_x = pi * (1/4), pm_rotation_y = pi * (1/2)\<rparr>,
            \<lparr>pm_geometry = ''torus'', pm_material = ''matcap'',
             pm_position = \<lparr>v_x = 20, v_y = 20, v_z = 20\<rparr>,
             pm_rotation_x = pi * 0, pm_rotation_y = pi * (3/4)\<rparr>,
            \<lparr>pm_geometry = ''torus'', pm_material = ''matcap'',
             pm_position = \<lparr>v_x = 0, v_y = 0, v_z = 10\<rparr>,
             pm_rotation_x = pi * (1/2), pm_rotation_y = pi * (1/2)\<rparr>],
           [\<lparr>v_x = 0, v_y = 0, v_z = 0\<rparr>, \<lparr>v_x = -25, v_y = -25, v_z = -25\<rparr>,
            \<lparr>v_x = 20, v_y = 20, v_z = 20\<rparr>, \<lparr>v_x = 0, v_y = 0, v_z = 10\<rparr>],
           [])
   \<and> real (length [\<lparr>pm_geometry = ''torus'', pm_material = ''matcap'',
             pm_position = \<lparr>v_x = -25, v_y = -25, v_z = -25\<rparr>,
             pm_rotation_x = pi * (1/4), pm_rotation_y = pi * (1/2)\<rparr>,
            \<lparr>pm_geometry = ''torus'', pm_material = ''matcap'',
             pm_position = \<lparr>v_x = 20, v_y = 20, v_z = 20\<rparr>,
             pm_rotation_x = pi * 0, pm_rotation_y = pi * (3/4)\<rparr>,
            \<lparr>pm_geometry = ''torus'', pm_material = ''matcap'',
             pm_position = \<lparr>v_x = 0, v_y = 0, v_z = 10\<rparr>,
             pm_rotation_x = pi * (1/2), pm_rotation_y = pi * (1/2)\<rparr>]) \<noteq> 5/2 + 1"
  by (simp add: renderRandomizedGeometry_def renderLoop.simps positions_init_def
      getRandomVertex_def distanceTo_less_5 distanceToSquared_def)

lemma getRandomVertex_range:
  "0 \<le> r \<Longrightarrow> r < 1 \<Longrightarrow> - 25 \<le> getRandomVertex r 50 \<and> getRandomVertex r 50 < 25"
  by (simp add: getRandomVertex_def)

lemma candidate_inBox:
  "list_all (\<lambda>r. 0 \<le> r \<and> r < 1) (tripleDraws t) \<Longrightarrow> inBox (candidate t)"
  by (cases t) (simp add: inBox_def getRandomVertex_range)

lemma cell_range:
  assumes "inBox p"
  shows "cell p \<in> {0..<20} \<times> {0..<20} \<times> {0..<20}"
proof -
  have "0 \<le> \<lfloor>(x + 25) * 2 / 5\<rfloor> \<and> \<lfloor>(x + 25) * 2 / 5\<rfloor> < 20" if "- 25 \<le> x" "x < 25" for x :: real
    using that by (simp add: floor_less_iff)
  then show ?thesis using assms by (simp add: cell_def inBox_def)
qed

lemma floor_eq_less_1:
  fixes a b :: real
  assumes "\<lfloor>a\<rfloor> = \<lfloor>b\<rfloor>"
  shows "a - b < 1 \<and> b - a < 1"
proof -
  have "of_int \<lfloor>a\<rfloor> \<le> a" "a < of_int \<lfloor>a\<rfloor> + 1" "of_int \<lfloor>b\<rfloor> \<le> b" "b < of_int \<lfloor>b\<rfloor> + 1"
    by linarith+
  then show ?thesis unfolding assms by linarith
qed

lemma floor_eq_close:
  fixes x y :: real
  assumes "\<lfloor>(x + 25) * 2 / 5\<rfloor> = \<lfloor>(y + 25) * 2 / 5\<rfloor>"
  shows "(x - y) * (x - y) < 25 / 4"
proof -
  from floor_eq_less_1 [OF assms] have "x * 10 < 25 + y * 10" "y * 10 < 25 + x * 10"
    by (simp_all add: field_simps)
  then have d: "\<bar>x - y\<bar> < 5 / 2" by linarith
  have "(x - y) * (x - y) = \<bar>x - y\<bar> * \<bar>x - y\<bar>" by simp
  also have "\<dots> < (5 / 2) * (5 / 2)"
    by (rule mult_strict_mono') (use d in simp_all)
  finally show ?thesis by simp
qed

lemma cell_eq_close:
  assumes "cell p = cell q"
  shows "distanceTo p q < 5"
proof -
  from assms have
    x: "\<lfloor>(v_x p + 25) * 2 / 5\<rfloor> = \<lfloor>(v_x q + 25) * 2 / 5\<rfloor>" and
    y: "\<lfloor>(v_y p + 25) * 2 / 5\<rfloor> = \<lfloor>(v_y q + 25) * 2 / 5\<rfloor>" and
    z: "\<lfloor>(v_z p + 25) * 2 / 5\<rfloor> = \<lfloor>(v_z q + 25) * 2 / 5\<rfloor>"
    by (simp_all only: cell_def prod.inject)
  note floor_eq_close [OF x] floor_eq_close [OF y] floor_eq_close [OF z]
  then have "distanceToSquared p q < 25" by (simp add: distanceToSquared_def Let_def)
  then show ?thesis by (simp add: distanceTo_less_5)
qed

lemma farApart_distinct_cells:
  "farApart xs \<Longrightarrow> distinct (map cell xs)"
proof (induction xs)
  case Nil
  show ?case by simp
next
  case (Cons p xs)
  have "cell p \<notin> cell ` set xs"
  proof
    assume "cell p \<in> cell ` set xs"
    then obtain q where q: "q \<in> set xs" "cell p = cell q" by blast
    from cell_eq_close [OF q(2)] have "distanceTo p q < 5" .
    moreover have "5 \<le> distanceTo p q" using Cons.prems q(1) by simp
    ultimately show False by simp
  qed
  then show ?case using Cons by simp
qed

lemma farApart_inBox_length:
  assumes "farApart xs" and "\<forall>p \<in> set xs. inBox p"
  shows "length xs \<le> 8000"
proof -
  have "set (map cell xs) \<subseteq> {0..<20} \<times> {0..<20} \<times> {0..<20}"
  proof
    fix c assume "c \<in> set (map cell xs)"
    then obtain p where "p \<in> set xs" "c = cell p" by auto
    then show "c \<in> {0..<20} \<times> {0..<20} \<times> {0..<20}"
      using assms(2) cell_range by blast
  qed
  then have "card (set (map cell xs)) \<le> card ({0..<20::int} \<times> {0..<20::int} \<times> {0..<20::int})"
    by (intro card_mono) simp_all
  also have "\<dots> = 8000" by (simp add: card_cartesian_product)
  finally have "card (set (map cell xs)) \<le> 8000" .
  moreover have "card (set (map cell xs)) = length xs"
    using farApart_distinct_cells [OF assms(1)] distinct_card [of "map cell xs"] by simp
  ultimately show ?thesis by simp
qed

lemma placeable_farApart:
  "placeable ps ts \<Longrightarrow>
   (\<forall>t \<in> set ts. \<forall>p \<in> set ps. 5 \<le> distanceTo (candidate (at_accepted t)) p) \<and>
   farApart (map (\<lambda>t. candidate (at_accepted t)) ts)"
proof (induction ts arbitrary: ps)
  case Nil
  show ?case by simp
next
  case (Cons t ts)
  let ?c = "candidate (at_accepted t)"
  have here: "\<forall>p \<in> set ps. 5 \<le> distanceTo ?c p"
    using Cons.prems by (auto simp: hasOverlapNeighbor_iff not_less)
  have "placeable (ps @ [?c]) ts" using Cons.prems by simp
  from Cons.IH [OF this] have
    far: "\<forall>t' \<in> set ts. \<forall>p \<in> set (ps @ [?c]). 5 \<le> distanceTo (candidate (at_accepted t')) p"
    and rest: "farApart (map (\<lambda>t. candidate (at_accepted t)) ts)"
    by blast+
  have "\<forall>q \<in> set (map (\<lambda>t. candidate (at_accepted t)) ts). 5 \<le> distanceTo ?c q"
    using far by (auto simp: distanceTo_commute [of ?c])
  then show ?case using here far rest by simp
qed

lemma attemptDraws_accepted_inBox:
  assumes "list_all (\<lambda>r. 0 \<le> r \<and> r < 1) (concat (map attemptDraws ts) @ rest)"
  shows "\<forall>t \<in> set ts. inBox (candidate (at_accepted t))"
proof
  fix t assume "t \<in> set ts"
  then have "set (attemptDraws t) \<subseteq> set (concat (map attemptDraws ts) @ rest)" by auto
  then have "set (tripleDraws (at_accepted t)) \<subseteq> set (concat (map attemptDraws ts) @ rest)"
    by (auto simp: attemptDraws_def)
  then have "list_all (\<lambda>r. 0 \<le> r \<and> r < 1) (tripleDraws (at_accepted t))"
    using assms unfolding list_all_iff by blast
  then show "inBox (candidate (at_accepted t))" by (rule candidate_inBox)
qed

text \<open>
  There is not room for every amount: in the cube that the candidates are drawn from,
  at most 8000 positions are pairwise at distance 5 or more. So a call with an amount
  of 8000 or more does not return, whatever the draws (each in [0, 1), as Math.random
  gives them) and however many of them there are.
\<close>

lemma renderRandomizedGeometry_no_room:
  assumes "8000 \<le> amount" and "list_all (\<lambda>r. 0 \<le> r \<and> r < 1) rs"
  shows "renderRandomizedGeometry amount geometry material rs positions = None"
proof (rule ccontr)
  assume "renderRandomizedGeometry amount geometry material rs positions \<noteq> None"
  then obtain grp ps' rest where
    run: "renderLoop 0 amount geometry material rs positions [] = Some (grp, ps', rest)"
    unfolding renderRandomizedGeometry_def by auto
  have a: "0 \<le> amount" using assms(1) by simp
  from renderLoop_placeable_conv [OF run a] obtain ts where
    ts: "0 + length ts = Suc (nat \<lfloor>amount\<rfloor>)" "placeable positions ts"
      "rs = concat (map attemptDraws ts) @ rest"
    by auto
  let ?new = "map (\<lambda>t. candidate (at_accepted t)) ts"
  have "farApart ?new" using placeable_farApart [OF ts(2)] by blast
  moreover have "\<forall>p \<in> set ?new. inBox p"
    using attemptDraws_accepted_inBox [of ts rest] assms(2) unfolding ts(3) by simp
  ultimately have "length ?new \<le> 8000" by (rule farApart_inBox_length)
  then have "Suc (nat \<lfloor>amount\<rfloor>) \<le> 8000" using ts(1) by simp
  moreover have "8000 \<le> nat \<lfloor>amount\<rfloor>" using assms(1) by (simp add: le_nat_floor)
  ultimately show False by simp
qed


text \<open>
  C9. The module-level list starts as the origin entry alone, which is pairwise far apart.
  A call of renderRandomizedGeometry only appends to the list, and every appended position
  (index k) is at distance at least 5, the default minDistance of hasOverlapNeighbor, from
  every position before it in the list (index j below k), the origin entry included.
  Hence a list whose entries are pairwise at distance at least 5 before the call is so
  after it: the property holds after any number of calls.
\<close>

theorem accepted_positions_far_apart:
  "farApart positions_init \<and>
   (renderRandomizedGeometry amount geometry material rs positions
      = Some (geometryGroup, positions', rs') \<longrightarrow>
    take (length positions) positions' = positions \<and>
    (\<forall>k. length positions \<le> k \<and> k < length positions' \<longrightarrow>
         (\<forall>j < k. 5 \<le> distanceTo (positions' ! k) (positions' ! j))) \<and>
    (farApart positions \<longrightarrow> farApart positions'))"
proof (intro conjI impI)
  show "farApart positions_init" by (simp add: positions_init_def)
next
  assume run: "renderRandomizedGeometry amount geometry material rs positions
      = Some (geometryGroup, positions', rs')"
  note r = renderLoop_positions [OF run [unfolded renderRandomizedGeometry_def]]
  show t: "take (length positions) positions' = positions" using r by blast
  show a: "\<forall>k. length positions \<le> k \<and> k < length positions' \<longrightarrow>
         (\<forall>j < k. 5 \<le> distanceTo (positions' ! k) (positions' ! j))"
    using r unfolding acceptedFar_def by blast
  assume f: "farApart positions"
  have "acceptedFar positions' k" if k: "k < length positions'" for k
  proof (cases "k < length positions")
    case False
    then show ?thesis using a k unfolding acceptedFar_def by simp
  next
    case True
    have old: "positions' ! j = positions ! j" if "j < length positions" for j
    proof -
      have "take (length positions) positions' ! j = positions' ! j" using that by simp
      then show ?thesis by (simp only: t)
    qed
    have "acceptedFar positions k" using f True by (simp add: farApart_acceptedFar)
    then show ?thesis using True old unfolding acceptedFar_def by simp
  qed
  then show "farApart positions'" by (simp add: farApart_acceptedFar)
qed

theorem accepted_positions_far_apart_witness:
  "renderRandomizedGeometry 0 ''torus'' ''matcap''
      [1/2, 1/2, 14/25, 1/2, 1/2, 7/10, 1/4, 1/2] positions_init
    = Some ([\<lparr>pm_geometry = ''torus'', pm_material = ''matcap'',
              pm_position = \<lparr>v_x = 0, v_y = 0, v_z = 10\<rparr>,
              pm_rotation_x = pi * (1/4), pm_rotation_y = pi * (1/2)\<rparr>],
            [\<lparr>v_x = 0, v_y = 0, v_z = 0\<rparr>, \<lparr>v_x = 0, v_y = 0, v_z = 10\<rparr>], [])
   \<and> farApart positions_init
   \<and> farApart [\<lparr>v_x = 0, v_y = 0, v_z = 0\<rparr>, \<lparr>v_x = 0, v_y = 0, v_z = 10\<rparr>]"
proof -
  have run: "renderRandomizedGeometry 0 ''torus'' ''matcap''
      [1/2, 1/2, 14/25, 1/2, 1/2, 7/10, 1/4, 1/2] positions_init
    = Some ([\<lparr>pm_geometry = ''torus'', pm_material = ''matcap'',
              pm_position = \<lparr>v_x = 0, v_y = 0, v_z = 10\<rparr>,
              pm_rotation_x = pi * (1/4), pm_rotation_y = pi * (1/2)\<rparr>],
            [\<lparr>v_x = 0, v_y = 0, v_z = 0\<rparr>, \<lparr>v_x = 0, v_y = 0, v_z = 10\<rparr>], [])"
    by (simp add: renderRandomizedGeometry_def renderLoop.simps positions_init_def
        getRandomVertex_def distanceTo_less_5 distanceToSquared_def)
  note t = accepted_positions_far_apart [of 0 "''torus''" "''matcap''"
      "[1/2, 1/2, 14/25, 1/2, 1/2, 7/10, 1/4, 1/2]" positions_init
      "[\<lparr>pm_geometry = ''torus'', pm_material = ''matcap'',
              pm_position = \<lparr>v_x = 0, v_y = 0, v_z = 10\<rparr>,
              pm_rotation_x = pi * (1/4), pm_rotation_y = pi * (1/2)\<rparr>]"
      "[\<lparr>v_x = 0, v_y = 0, v_z = 0\<rparr>, \<lparr>v_x = 0, v_y = 0, v_z = 10\<rparr>]" "[]"]
  have i: "farApart positions_init" using t by blast
  from t run have f: "farApart positions_init \<longrightarrow>
            farApart [\<lparr>v_x = 0, v_y = 0, v_z = 0\<rparr>, \<lparr>v_x = 0, v_y = 0, v_z = 10\<rparr>]"
    by blast
  show ?thesis using run i f by simp
qed

section \<open>Properties of the transform copy\<close>

lemma less_count_iff: "real k < c \<longleftrightarrow> k < nat \<lceil>c\<rceil>"
proof
  assume "real k < c"
  then have "real k < of_int \<lceil>c\<rceil>" using le_of_int_ceiling [of c] by linarith
  then have "int k < \<lceil>c\<rceil>" by linarith
  then show "k < nat \<lceil>c\<rceil>" by linarith
next
  assume "k < nat \<lceil>c\<rceil>"
  then have "int k < \<lceil>c\<rceil>" by linarith
  then have "int k \<le> \<lceil>c\<rceil> - 1" by linarith
  then have "real k \<le> of_int (\<lceil>c\<rceil> - 1)" using of_int_le_iff [of "int k" "\<lceil>c\<rceil> - 1", where 'a = real] by simp
  moreover have "of_int (\<lceil>c\<rceil> - 1) < c" using ceiling_correct [of c] by simp
  ultimately show "real k < c" by linarith
qed

lemma syncLoop_fold:
  "objIdx \<le> min (nat \<lceil>objectCount\<rceil>) (length ids) \<Longrightarrow>
   syncLoop objIdx (7 * objIdx) objectCount ids arr st =
     (if nat \<lceil>objectCount\<rceil> \<le> length ids then None else Some TypeError,
      fold (syncStep arr ids) [objIdx..<min (nat \<lceil>objectCount\<rceil>) (length ids)] st)"
proof (induction "min (nat \<lceil>objectCount\<rceil>) (length ids) - objIdx" arbitrary: objIdx st)
  case 0
  then have eq: "objIdx = min (nat \<lceil>objectCount\<rceil>) (length ids)" by linarith
  then have e: "[objIdx..<min (nat \<lceil>objectCount\<rceil>) (length ids)] = []" by simp
  show ?case
  proof (cases "objIdx < nat \<lceil>objectCount\<rceil>")
    case True
    then have c: "real objIdx < objectCount" by (simp only: less_count_iff)
    have l: "\<not> objIdx < length ids" using eq True by linarith
    have n: "\<not> nat \<lceil>objectCount\<rceil> \<le> length ids" using eq True by linarith
    show ?thesis
      by (subst syncLoop.simps) (simp only: c l n if_True if_False e fold_Nil id_apply)
  next
    case False
    then have nc: "\<not> real objIdx < objectCount"
      by (simp only: less_count_iff not_False_eq_True)
    have n: "nat \<lceil>objectCount\<rceil> \<le> length ids" using eq False by linarith
    show ?thesis
      by (subst syncLoop.simps) (simp only: nc n if_True if_False e fold_Nil id_apply)
  qed
next
  case (Suc d)
  then have lt: "objIdx < min (nat \<lceil>objectCount\<rceil>) (length ids)" by linarith
  then have lt1: "objIdx < nat \<lceil>objectCount\<rceil>" and l: "objIdx < length ids" by simp_all
  have c: "real objIdx < objectCount" using lt1 by (simp only: less_count_iff)
  have d: "d = min (nat \<lceil>objectCount\<rceil>) (length ids) - Suc objIdx"
    using Suc.hyps(2) by linarith
  have le: "Suc objIdx \<le> min (nat \<lceil>objectCount\<rceil>) (length ids)" using lt by linarith
  have u: "[objIdx..<min (nat \<lceil>objectCount\<rceil>) (length ids)] =
           objIdx # [Suc objIdx..<min (nat \<lceil>objectCount\<rceil>) (length ids)]"
    using lt by (rule upt_conv_Cons)
  have s: "7 * objIdx + 7 = 7 * Suc objIdx" by simp
  show ?case
    apply (subst syncLoop.simps)
    apply (simp only: c l if_True Let_def s u fold_Cons comp_apply)
    apply (subst Suc.hyps(1) [OF d le])
    apply (simp add: syncStep_def transformAt_def split: option.splits)
    done
qed

lemma syncStep_frame:
  "syncStep arr ids k st = st\<lparr>meshes := meshes (syncStep arr ids k st)\<rparr>"
  by (simp add: syncStep_def split: option.splits)

lemma fold_syncStep_frame:
  "fold (syncStep arr ids) xs st = st\<lparr>meshes := meshes (fold (syncStep arr ids) xs st)\<rparr>"
proof (induction xs arbitrary: st)
  case Nil
  show ?case by simp
next
  case (Cons k xs)
  have "fold (syncStep arr ids) (k # xs) st = fold (syncStep arr ids) xs (syncStep arr ids k st)"
    by simp
  also have "\<dots> = (syncStep arr ids k st)
      \<lparr>meshes := meshes (fold (syncStep arr ids) xs (syncStep arr ids k st))\<rparr>"
    by (rule Cons.IH)
  also have "\<dots> = st\<lparr>meshes := meshes (fold (syncStep arr ids) xs (syncStep arr ids k st))\<rparr>"
    by (subst syncStep_frame) simp
  finally show ?case by simp
qed

lemma fold_syncStep_worldObjects:
  "worldObjects (fold (syncStep arr ids) xs st) = worldObjects st"
  by (subst fold_syncStep_frame) simp

lemma syncStep_meshes:
  "meshes (syncStep arr ids k st) r =
     (if sync_hit (worldObjects st) ids r k then transformAt arr k (meshes st r)
      else meshes st r)"
  by (auto simp: syncStep_def sync_hit_def split: option.splits)

lemma syncStep_worldObjects: "worldObjects (syncStep arr ids k st) = worldObjects st"
  by (subst syncStep_frame) simp

lemma fold_syncStep_meshes:
  "meshes (fold (syncStep arr ids) xs st) r =
     fold (transformAt arr) (filter (sync_hit (worldObjects st) ids r) xs) (meshes st r)"
proof (induction xs arbitrary: st)
  case Nil
  show ?case by simp
next
  case (Cons k xs)
  have "meshes (fold (syncStep arr ids) (k # xs) st) r =
        meshes (fold (syncStep arr ids) xs (syncStep arr ids k st)) r"
    by simp
  also have "\<dots> = fold (transformAt arr) (filter (sync_hit (worldObjects st) ids r) xs)
                      (meshes (syncStep arr ids k st) r)"
    by (simp only: Cons.IH syncStep_worldObjects)
  finally show ?case by (simp add: syncStep_meshes)
qed

lemma udpateAndSyncMeshBodies_state:
  "udpateAndSyncMeshBodies payload st =
     (if p_count payload \<le> real (length (p_ids payload)) then None else Some TypeError,
      st\<lparr>sharedFloatArray := Some (sab_id (p_buffer payload)),
         meshes := (\<lambda>r. fold (transformAt (sab_floats (p_buffer payload)))
                            (syncHits (worldObjects st) (p_ids payload) (p_count payload) r)
                            (meshes st r))\<rparr>)"
proof -
  let ?st1 = "st\<lparr>sharedFloatArray := Some (sab_id (p_buffer payload))\<rparr>"
  let ?k = "min (nat \<lceil>p_count payload\<rceil>) (length (p_ids payload))"
  let ?st' = "fold (syncStep (sab_floats (p_buffer payload)) (p_ids payload)) [0..<?k] ?st1"
  have st1: "(if sharedFloatArray st = None \<or> sharedFloatArray st \<noteq> Some (sab_id (p_buffer payload))
                 then ?st1 else st) = ?st1"
    by simp
  have c: "nat \<lceil>p_count payload\<rceil> \<le> length (p_ids payload) \<longleftrightarrow>
           p_count payload \<le> real (length (p_ids payload))"
    by (simp add: ceiling_le_iff)
  have run: "udpateAndSyncMeshBodies payload st =
      (if p_count payload \<le> real (length (p_ids payload)) then None else Some TypeError, ?st')"
    unfolding udpateAndSyncMeshBodies_def Let_def st1
    using syncLoop_fold [of 0 "p_count payload" "p_ids payload"] c by simp
  have m: "meshes ?st' = (\<lambda>r. fold (transformAt (sab_floats (p_buffer payload)))
                            (syncHits (worldObjects st) (p_ids payload) (p_count payload) r)
                            (meshes st r))"
    by (rule ext) (simp add: fold_syncStep_meshes syncHits_def)
  have "?st' = ?st1\<lparr>meshes := meshes ?st'\<rparr>" by (rule fold_syncStep_frame)
  then have "?st' = st\<lparr>sharedFloatArray := Some (sab_id (p_buffer payload)),
         meshes := (\<lambda>r. fold (transformAt (sab_floats (p_buffer payload)))
                            (syncHits (worldObjects st) (p_ids payload) (p_count payload) r)
                            (meshes st r))\<rparr>"
    by (simp only: m)
  then show ?thesis by (simp only: run)
qed

lemma fold_transformAt_shape:
  "\<exists>p q. fold (transformAt arr) hs m = m\<lparr>m_position := p, m_quaternion := q\<rparr>"
proof (induction hs arbitrary: m)
  case Nil
  have "fold (transformAt arr) [] m = m\<lparr>m_position := m_position m, m_quaternion := m_quaternion m\<rparr>"
    by simp
  then show ?case by blast
next
  case (Cons h hs)
  from Cons.IH [of "transformAt arr h m"] obtain p q where
    "fold (transformAt arr) hs (transformAt arr h m) =
       (transformAt arr h m)\<lparr>m_position := p, m_quaternion := q\<rparr>"
    by blast
  then have "fold (transformAt arr) (h # hs) m = m\<lparr>m_position := p, m_quaternion := q\<rparr>"
    by (simp add: transformAt_def)
  then show ?case by blast
qed

lemma transformAt_floats:
  "7 * n + 6 < length arr \<Longrightarrow>
   transformAt arr n (m\<lparr>m_position := p, m_quaternion := q\<rparr>) = floatsAt arr n m"
  by (simp add: transformAt_def floatsAt_def Vector3_set_def Quaternion_set_def fa_get_def)

lemma fold_transformAt_last:
  assumes "hs \<noteq> []" and "7 * last hs + 6 < length arr"
  shows "fold (transformAt arr) hs m = floatsAt arr (last hs) m"
proof -
  have hs: "hs = butlast hs @ [last hs]" using assms(1) by simp
  obtain p q where pq: "fold (transformAt arr) (butlast hs) m =
      m\<lparr>m_position := p, m_quaternion := q\<rparr>"
    using fold_transformAt_shape by blast
  have "fold (transformAt arr) hs m =
        transformAt arr (last hs) (fold (transformAt arr) (butlast hs) m)"
    by (subst hs) (simp only: fold_append fold_Cons fold_Nil comp_apply id_apply)
  then show ?thesis by (simp only: pq transformAt_floats [OF assms(2)])
qed

text \<open>
  C1. For every message with (buffer, ids, count), udpateAndSyncMeshBodies does, for
  each object index below count that has an id, in turn, what the specification words:
  the seven floats at offset 7 * objIdx of the buffer of the message are handed as
  position x, y, z and as quaternion x, y, z, w to the scene object registered under
  ids[objIdx], and an index whose id is not registered changes nothing and still takes
  up its seven floats. So every scene object that no index names is as before, and one
  that is named, with all seven floats of the last index that names it in the buffer,
  has exactly these floats as its position and quaternion. Nothing else of the state
  changes but the cached view of the buffer. (Where the buffer ends before the seven
  floats, the reads give \<^verbatim>\<open>undefined\<close>, which is stored, except that an undefined z
  leaves the z of the position as it was. An index below count past the end of ids has
  no id and so no mesh; there the handler stops with a TypeError, which is raised
  exactly when count is more than the number of ids.)
\<close>

theorem udpateAndSyncMeshBodies_copies:
  "udpateAndSyncMeshBodies payload st =
     (if p_count payload \<le> real (length (p_ids payload)) then None else Some TypeError,
      st\<lparr>sharedFloatArray := Some (sab_id (p_buffer payload)),
         meshes := (\<lambda>r. fold (transformAt (sab_floats (p_buffer payload)))
                            (syncHits (worldObjects st) (p_ids payload) (p_count payload) r)
                            (meshes st r))\<rparr>) \<and>
   snd (udpateAndSyncMeshBodies payload st) =
     fold (syncStep (sab_floats (p_buffer payload)) (p_ids payload))
       [0..<min (nat \<lceil>p_count payload\<rceil>) (length (p_ids payload))]
       (st\<lparr>sharedFloatArray := Some (sab_id (p_buffer payload))\<rparr>) \<and>
   (\<forall>r. syncHits (worldObjects st) (p_ids payload) (p_count payload) r = [] \<longrightarrow>
        meshes (snd (udpateAndSyncMeshBodies payload st)) r = meshes st r) \<and>
   (\<forall>r. syncHits (worldObjects st) (p_ids payload) (p_count payload) r \<noteq> [] \<and>
        7 * last (syncHits (worldObjects st) (p_ids payload) (p_count payload) r) + 6
          < length (sab_floats (p_buffer payload)) \<longrightarrow>
        meshes (snd (udpateAndSyncMeshBodies payload st)) r =
          floatsAt (sab_floats (p_buffer payload))
            (last (syncHits (worldObjects st) (p_ids payload) (p_count payload) r))
            (meshes st r))"
proof -
  let ?st1 = "st\<lparr>sharedFloatArray := Some (sab_id (p_buffer payload))\<rparr>"
  note s = udpateAndSyncMeshBodies_state [of payload st]
  have st1: "(if sharedFloatArray st = None \<or> sharedFloatArray st \<noteq> Some (sab_id (p_buffer payload))
                 then ?st1 else st) = ?st1"
    by simp
  have f: "snd (udpateAndSyncMeshBodies payload st) =
     fold (syncStep (sab_floats (p_buffer payload)) (p_ids payload))
       [0..<min (nat \<lceil>p_count payload\<rceil>) (length (p_ids payload))] ?st1"
    unfolding udpateAndSyncMeshBodies_def Let_def st1
    using syncLoop_fold [of 0 "p_count payload" "p_ids payload"] by simp
  have m: "meshes (snd (udpateAndSyncMeshBodies payload st)) r =
      fold (transformAt (sab_floats (p_buffer payload)))
        (syncHits (worldObjects st) (p_ids payload) (p_count payload) r) (meshes st r)" for r
    by (simp only: s snd_conv) simp
  have a: "\<forall>r. syncHits (worldObjects st) (p_ids payload) (p_count payload) r = [] \<longrightarrow>
        meshes (snd (udpateAndSyncMeshBodies payload st)) r = meshes st r"
    by (simp add: m)
  have b: "\<forall>r. syncHits (worldObjects st) (p_ids payload) (p_count payload) r \<noteq> [] \<and>
        7 * last (syncHits (worldObjects st) (p_ids payload) (p_count payload) r) + 6
          < length (sab_floats (p_buffer payload)) \<longrightarrow>
        meshes (snd (udpateAndSyncMeshBodies payload st)) r =
          floatsAt (sab_floats (p_buffer payload))
            (last (syncHits (worldObjects st) (p_ids payload) (p_count payload) r))
            (meshes st r)"
    by (simp only: m) (blast intro: fold_transformAt_last)
  show ?thesis using s f a b by blast
qed

theorem udpateAndSyncMeshBodies_copies_witness:
  "fst (udpateAndSyncMeshBodies
      \<lparr>p_buffer = \<lparr>sab_id = 7, sab_floats = [1, 2, 3, 0, 0, 0, 1, 4, 5, 6, 0, 1, 0, 0, 9, 9]\<rparr>,
       p_ids = [''a'', ''zz'', ''b''], p_count = 3, p_newFloorRotationX = 0,
       p_translation = \<lparr>v_x = 0, v_y = 0, v_z = 0\<rparr>,
       p_rotation = \<lparr>q_x = 0, q_y = 0, q_z = 0, q_w = 1\<rparr>\<rparr>
      ((main_init \<lparr>isFloorAnimating = False, floorRotationX = 0, endFloorRotationAngle = 0,
                   isRaining = False, rainSpeedTimer = 5\<rparr> 0 (\<lambda>_. new_Mesh))
        \<lparr>worldObjects := [(''a'', \<lparr>wo_id = ''a'', wo_geometry = ''sphere'', wo_mesh = 1\<rparr>),
                          (''b'', \<lparr>wo_id = ''b'', wo_geometry = ''sphere'', wo_mesh = 2\<rparr>)]\<rparr>))
     = None \<and>
   sharedFloatArray (snd (udpateAndSyncMeshBodies
      \<lparr>p_buffer = \<lparr>sab_id = 7, sab_floats = [1, 2, 3, 0, 0, 0, 1, 4, 5, 6, 0, 1, 0, 0, 9, 9]\<rparr>,
       p_ids = [''a'', ''zz'', ''b''], p_count = 3, p_newFloorRotationX = 0,
       p_translation = \<lparr>v_x = 0, v_y = 0, v_z = 0\<rparr>,
       p_rotation = \<lparr>q_x = 0, q_y = 0, q_z = 0, q_w = 1\<rparr>\<rparr>
      ((main_init \<lparr>isFloorAnimating = False, floorRotationX = 0, endFloorRotationAngle = 0,
                   isRaining = False, rainSpeedTimer = 5\<rparr> 0 (\<lambda>_. new_Mesh))
        \<lparr>worldObjects := [(''a'', \<lparr>wo_id = ''a'', wo_geometry = ''sphere'', wo_mesh = 1\<rparr>),
                          (''b'', \<lparr>wo_id = ''b'', wo_geometry = ''sphere'', wo_mesh = 2\<rparr>)]\<rparr>)))
     = Some 7 \<and>
   meshes (snd (udpateAndSyncMeshBodies
      \<lparr>p_buffer = \<lparr>sab_id = 7, sab_floats = [1, 2, 3, 0, 0, 0, 1, 4, 5, 6, 0, 1, 0, 0, 9, 9]\<rparr>,
       p_ids = [''a'', ''zz'', ''b''], p_count = 3, p_newFloorRotationX = 0,
       p_translation = \<lparr>v_x = 0, v_y = 0, v_z = 0\<rparr>,
       p_rotation = \<lparr>q_x = 0, q_y = 0, q_z = 0, q_w = 1\<rparr>\<rparr>
      ((main_init \<lparr>isFloorAnimating = False, floorRotationX = 0, endFloorRotationAngle = 0,
                   isRaining = False, rainSpeedTimer = 5\<rparr> 0 (\<lambda>_. new_Mesh))
        \<lparr>worldObjects := [(''a'', \<lparr>wo_id = ''a'', wo_geometry = ''sphere'', wo_mesh = 1\<rparr>),
                          (''b'', \<lparr>wo_id = ''b'', wo_geometry = ''sphere'', wo_mesh = 2\<rparr>)]\<rparr>))) 0
     = new_Mesh \<and>
   meshes (snd (udpateAndSyncMeshBodies
      \<lparr>p_buffer = \<lparr>sab_id = 7, sab_floats = [1, 2, 3, 0, 0, 0, 1, 4, 5, 6, 0, 1, 0, 0, 9, 9]\<rparr>,
       p_ids = [''a'', ''zz'', ''b''], p_count = 3, p_newFloorRotationX = 0,
       p_translation = \<lparr>v_x = 0, v_y = 0, v_z = 0\<rparr>,
       p_rotation = \<lparr>q_x = 0, q_y = 0, q_z = 0, q_w = 1\<rparr>\<rparr>
      ((main_init \<lparr>isFloorAnimating = False, floorRotationX = 0, endFloorRotationAngle = 0,
                   isRaining = False, rainSpeedTimer = 5\<rparr> 0 (\<lambda>_. new_Mesh))
        \<lparr>worldObjects := [(''a'', \<lparr>wo_id = ''a'', wo_geometry = ''sphere'', wo_mesh = 1\<rparr>),
                          (''b'', \<lparr>wo_id = ''b'', wo_geometry = ''sphere'', wo_mesh = 2\<rparr>)]\<rparr>))) 1
     = new_Mesh
       \<lparr>m_position := \<lparr>v_x = Num 1, v_y = Num 2, v_z = Num 3\<rparr>,
        m_quaternion := \<lparr>q_x = Num 0, q_y = Num 0, q_z = Num 0, q_w = Num 1\<rparr>\<rparr> \<and>
   meshes (snd (udpateAndSyncMeshBodies
      \<lparr>p_buffer = \<lparr>sab_id = 7, sab_floats = [1, 2, 3, 0, 0, 0, 1, 4, 5, 6, 0, 1, 0, 0, 9, 9]\<rparr>,
       p_ids = [''a'', ''zz'', ''b''], p_count = 3, p_newFloorRotationX = 0,
       p_translation = \<lparr>v_x = 0, v_y = 0, v_z = 0\<rparr>,
       p_rotation = \<lparr>q_x = 0, q_y = 0, q_z = 0, q_w = 1\<rparr>\<rparr>
      ((main_init \<lparr>isFloorAnimating = False, floorRotationX = 0, endFloorRotationAngle = 0,
                   isRaining = False, rainSpeedTimer = 5\<rparr> 0 (\<lambda>_. new_Mesh))
        \<lparr>worldObjects := [(''a'', \<lparr>wo_id = ''a'', wo_geometry = ''sphere'', wo_mesh = 1\<rparr>),
                          (''b'', \<lparr>wo_id = ''b'', wo_geometry = ''sphere'', wo_mesh = 2\<rparr>)]\<rparr>))) 2
     = new_Mesh
       \<lparr>m_position := \<lparr>v_x = Num 9, v_y = Num 9, v_z = Num 0\<rparr>,
        m_quaternion := \<lparr>q_x = Undefined, q_y = Undefined, q_z = Undefined, q_w = Undefined\<rparr>\<rparr>"
proof -
  let ?p = "\<lparr>p_buffer = \<lparr>sab_id = 7, sab_floats = [1, 2, 3, 0, 0, 0, 1, 4, 5, 6, 0, 1, 0, 0, 9, 9]\<rparr>,
       p_ids = [''a'', ''zz'', ''b''], p_count = 3, p_newFloorRotationX = 0,
       p_translation = \<lparr>v_x = 0, v_y = 0, v_z = 0\<rparr>,
       p_rotation = \<lparr>q_x = 0, q_y = 0, q_z = 0, q_w = 1\<rparr>\<rparr>"
  let ?st = "(main_init \<lparr>isFloorAnimating = False, floorRotationX = 0, endFloorRotationAngle = 0,
                   isRaining = False, rainSpeedTimer = 5\<rparr> 0 (\<lambda>_. new_Mesh))
        \<lparr>worldObjects := [(''a'', \<lparr>wo_id = ''a'', wo_geometry = ''sphere'', wo_mesh = 1\<rparr>),
                          (''b'', \<lparr>wo_id = ''b'', wo_geometry = ''sphere'', wo_mesh = 2\<rparr>)]\<rparr>"
  let ?st' = "snd (udpateAndSyncMeshBodies ?p ?st)"
  have u: "[0..<3] = [0, 1, 2]" by (simp add: upt_rec)
  have h0: "syncHits (worldObjects ?st) (p_ids ?p) (p_count ?p) 0 = []"
    by (simp add: syncHits_def sync_hit_def u)
  have h1: "syncHits (worldObjects ?st) (p_ids ?p) (p_count ?p) 1 = [0]"
    by (simp add: syncHits_def sync_hit_def u)
  have h2: "syncHits (worldObjects ?st) (p_ids ?p) (p_count ?p) 2 = [2]"
    by (simp add: syncHits_def sync_hit_def u)
  note t = udpateAndSyncMeshBodies_copies [of ?p ?st]
  from t have e: "udpateAndSyncMeshBodies ?p ?st =
     (if p_count ?p \<le> real (length (p_ids ?p)) then None else Some TypeError,
      ?st\<lparr>sharedFloatArray := Some (sab_id (p_buffer ?p)),
         meshes := (\<lambda>r. fold (transformAt (sab_floats (p_buffer ?p)))
                            (syncHits (worldObjects ?st) (p_ids ?p) (p_count ?p) r)
                            (meshes ?st r))\<rparr>)"
    by (rule conjunct1)
  have n: "fst (udpateAndSyncMeshBodies ?p ?st) = None" by (subst e) simp
  have s: "sharedFloatArray ?st' = Some 7" by (subst e) simp
  have m: "meshes ?st' r = fold (transformAt (sab_floats (p_buffer ?p)))
                            (syncHits (worldObjects ?st) (p_ids ?p) (p_count ?p) r)
                            (meshes ?st r)" for r
    by (subst e) simp
  have m0: "meshes ?st' 0 = new_Mesh" by (simp only: m h0) (simp add: main_init_def)
  from t have "syncHits (worldObjects ?st) (p_ids ?p) (p_count ?p) 1 \<noteq> [] \<and>
        7 * last (syncHits (worldObjects ?st) (p_ids ?p) (p_count ?p) 1) + 6
          < length (sab_floats (p_buffer ?p)) \<longrightarrow>
        meshes ?st' 1 = floatsAt (sab_floats (p_buffer ?p))
            (last (syncHits (worldObjects ?st) (p_ids ?p) (p_count ?p) 1)) (meshes ?st 1)"
    by blast
  then have "meshes ?st' 1 = floatsAt (sab_floats (p_buffer ?p)) 0 (meshes ?st 1)"
    unfolding h1 by simp
  then have m1: "meshes ?st' 1 = new_Mesh
       \<lparr>m_position := \<lparr>v_x = Num 1, v_y = Num 2, v_z = Num 3\<rparr>,
        m_quaternion := \<lparr>q_x = Num 0, q_y = Num 0, q_z = Num 0, q_w = Num 1\<rparr>\<rparr>"
    by (simp add: main_init_def floatsAt_def)
  have m2: "meshes ?st' 2 = new_Mesh
       \<lparr>m_position := \<lparr>v_x = Num 9, v_y = Num 9, v_z = Num 0\<rparr>,
        m_quaternion := \<lparr>q_x = Undefined, q_y = Undefined, q_z = Undefined, q_w = Undefined\<rparr>\<rparr>"
    by (simp only: m h2)
       (simp add: main_init_def transformAt_def fa_get_def Vector3_set_def Quaternion_set_def
          new_Mesh_def)
  show ?thesis using n s m0 m1 m2 by blast
qed

section \<open>Properties of the removal of inactive bodies\<close>

lemma map_of_None_keys: "map_of xs k = None \<Longrightarrow> \<forall>(k', v) \<in> set xs. k' \<noteq> k"
  by (induction xs) (auto split: if_splits)

lemma filter_key_single:
  "distinct (map fst xs) \<Longrightarrow> map_of xs k = Some v \<Longrightarrow>
   filter (\<lambda>(k', v'). k' = k) xs = [(k, v)]"
proof (induction xs)
  case Nil
  then show ?case by simp
next
  case (Cons p xs)
  obtain a b where p: "p = (a, b)" by (cases p)
  show ?case
  proof (cases "a = k")
    case True
    then have v: "b = v" using Cons.prems(2) p by simp
    have "k \<notin> fst ` set xs" using Cons.prems(1) p True by simp
    then have "filter (\<lambda>(k', v'). k' = k) xs = []"
      by (force simp: filter_empty_conv)
    then show ?thesis using p True v by simp
  next
    case False
    then show ?thesis using Cons p by simp
  qed
qed

lemma mset_filter_split:
  "mset (filter (\<lambda>x. P x \<or> Q x) xs) =
   mset (filter P xs) + mset (filter (\<lambda>x. \<not> P x \<and> Q x) xs)"
  by (induction xs) auto

lemma removeInactive_forEach_effect:
  "distinct (map fst (worldObjects st)) \<Longrightarrow> distinct (scene st) \<Longrightarrow>
   \<exists>rem. removeInactive_forEach ids st =
           st\<lparr>worldObjects := filter (\<lambda>(k, wo). k \<notin> set ids) (worldObjects st),
              scene := filter (\<lambda>r. r \<notin> set rem) (scene st),
              disposed := disposed st @ rem\<rparr> \<and>
         mset rem = mset (map (\<lambda>(k, wo). wo_mesh wo)
                           (filter (\<lambda>(k, wo). k \<in> set ids) (worldObjects st)))"
proof (induction ids arbitrary: st)
  case Nil
  have "removeInactive_forEach [] st =
           st\<lparr>worldObjects := filter (\<lambda>(k, wo). k \<notin> set []) (worldObjects st),
              scene := filter (\<lambda>r. r \<notin> set []) (scene st),
              disposed := disposed st @ []\<rparr>"
    by simp
  then show ?case by (intro exI [of _ "[]"]) simp
next
  case (Cons oid ids)
  show ?case
  proof (cases "map_of (worldObjects st) oid")
    case None
    from Cons.IH [OF Cons.prems] obtain rem where
      r: "removeInactive_forEach ids st =
           st\<lparr>worldObjects := filter (\<lambda>(k, wo). k \<notin> set ids) (worldObjects st),
              scene := filter (\<lambda>r. r \<notin> set rem) (scene st),
              disposed := disposed st @ rem\<rparr>"
      and m: "mset rem = mset (map (\<lambda>(k, wo). wo_mesh wo)
                           (filter (\<lambda>(k, wo). k \<in> set ids) (worldObjects st)))"
      by blast
    have nk: "\<forall>(k', v) \<in> set (worldObjects st). k' \<noteq> oid"
      by (rule map_of_None_keys [OF None])
    have f1: "filter (\<lambda>(k, wo). k \<notin> set (oid # ids)) (worldObjects st) =
              filter (\<lambda>(k, wo). k \<notin> set ids) (worldObjects st)"
      using nk by (intro filter_cong) auto
    have f2: "filter (\<lambda>(k, wo). k \<in> set (oid # ids)) (worldObjects st) =
              filter (\<lambda>(k, wo). k \<in> set ids) (worldObjects st)"
      using nk by (intro filter_cong) auto
    have "removeInactive_forEach (oid # ids) st = removeInactive_forEach ids st"
      using None by simp
    then show ?thesis unfolding f1 f2 using r m by (intro exI [of _ rem]) simp
  next
    case (Some wo)
    let ?m = "wo_mesh wo"
    let ?st1 = "disposeMesh ?m
              (st\<lparr>worldObjects := AList.delete oid (worldObjects st),
                  scene := scene_remove ?m (scene st)\<rparr>)"
    have d1: "distinct (map fst (worldObjects ?st1))"
      using Cons.prems(1) by (simp add: disposeMesh_def distinct_delete)
    have d2: "distinct (scene ?st1)"
      using Cons.prems(2) by (simp add: disposeMesh_def scene_remove_def)
    from Cons.IH [OF d1 d2] obtain rem where
      r: "removeInactive_forEach ids ?st1 =
           ?st1\<lparr>worldObjects := filter (\<lambda>(k, wo). k \<notin> set ids) (worldObjects ?st1),
              scene := filter (\<lambda>r. r \<notin> set rem) (scene ?st1),
              disposed := disposed ?st1 @ rem\<rparr>"
      and m: "mset rem = mset (map (\<lambda>(k, wo). wo_mesh wo)
                           (filter (\<lambda>(k, wo). k \<in> set ids) (worldObjects ?st1)))"
      by blast
    have w1: "worldObjects ?st1 = filter (\<lambda>(k, wo). k \<noteq> oid) (worldObjects st)"
      by (simp add: disposeMesh_def AList.delete_eq case_prod_unfold eq_commute)
    have s1: "scene ?st1 = filter (\<lambda>r. r \<noteq> ?m) (scene st)"
      using Cons.prems(2)
      by (simp add: disposeMesh_def scene_remove_def distinct_remove1_removeAll
          removeAll_filter_not_eq) (metis)
    have fw: "filter (\<lambda>(k, wo). k \<notin> set ids) (worldObjects ?st1) =
              filter (\<lambda>(k, wo). k \<notin> set (oid # ids)) (worldObjects st)"
      unfolding w1 by (simp add: case_prod_unfold conj_commute)
    have fs: "filter (\<lambda>r. r \<notin> set rem) (scene ?st1) =
              filter (\<lambda>r. r \<notin> set (?m # rem)) (scene st)"
      unfolding s1 by (simp add: conj_commute)
    have single: "filter (\<lambda>(k', v'). k' = oid) (worldObjects st) = [(oid, wo)]"
      by (rule filter_key_single [OF Cons.prems(1) Some])
    have part: "mset (filter (\<lambda>(k, wo). k \<in> set (oid # ids)) (worldObjects st)) =
          mset (filter (\<lambda>(k', v'). k' = oid) (worldObjects st)) +
          mset (filter (\<lambda>(k, wo). k \<in> set ids) (worldObjects ?st1))"
      unfolding w1
      using mset_filter_split [of "\<lambda>x. fst x = oid" "\<lambda>x. fst x \<in> set ids" "worldObjects st"]
      by (simp add: case_prod_unfold)
    have "mset (map (\<lambda>(k, wo). wo_mesh wo)
             (filter (\<lambda>(k, wo). k \<in> set (oid # ids)) (worldObjects st))) =
          image_mset (\<lambda>(k, wo). wo_mesh wo)
            (mset (filter (\<lambda>(k, wo). k \<in> set (oid # ids)) (worldObjects st)))"
      by simp
    also have "\<dots> = {#?m#} + mset rem"
      unfolding part single m by simp
    finally have mm: "mset (?m # rem) = mset (map (\<lambda>(k, wo). wo_mesh wo)
             (filter (\<lambda>(k, wo). k \<in> set (oid # ids)) (worldObjects st)))"
      by simp
    have run: "removeInactive_forEach (oid # ids) st = removeInactive_forEach ids ?st1"
      using Some by simp
    have "removeInactive_forEach (oid # ids) st =
           st\<lparr>worldObjects := filter (\<lambda>(k, wo). k \<notin> set (oid # ids)) (worldObjects st),
              scene := filter (\<lambda>r. r \<notin> set (?m # rem)) (scene st),
              disposed := disposed st @ (?m # rem)\<rparr>"
      unfolding run r fw fs by (simp add: disposeMesh_def)
    then show ?thesis using mm by (intro exI [of _ "?m # rem"]) blast
  qed
qed


text \<open>
  C6. For a REMOVE_INACTIVES message, removeInactiveMeshBodies deletes from
  \<^verbatim>\<open>worldObjects\<close> exactly the entries whose key is in the id list of the message; the
  scene object of each deleted entry is disposed once and is taken out of the scene;
  the entries that are not listed, the other children of the scene and everything else
  in the state, the scene objects themselves included, are as before. When no listed id
  has an entry the state does not change at all.
\<close>

theorem removeInactiveMeshBodies_frame:
  assumes "distinct (map fst (worldObjects st))" and "distinct (scene st)"
  shows "\<exists>rem.
     removeInactiveMeshBodies payload st =
       st\<lparr>worldObjects := filter (\<lambda>(k, wo). k \<notin> set (p_ids payload)) (worldObjects st),
          scene := filter (\<lambda>r. r \<notin> set rem) (scene st),
          disposed := disposed st @ rem\<rparr> \<and>
     mset rem = mset (map (\<lambda>(k, wo). wo_mesh wo)
                  (filter (\<lambda>(k, wo). k \<in> set (p_ids payload)) (worldObjects st))) \<and>
     (set (p_ids payload) \<inter> fst ` set (worldObjects st) = {} \<longrightarrow>
        removeInactiveMeshBodies payload st = st)"
proof -
  from removeInactive_forEach_effect [OF assms, of "p_ids payload"] obtain rem where
    r: "removeInactive_forEach (p_ids payload) st =
           st\<lparr>worldObjects := filter (\<lambda>(k, wo). k \<notin> set (p_ids payload)) (worldObjects st),
              scene := filter (\<lambda>r. r \<notin> set rem) (scene st),
              disposed := disposed st @ rem\<rparr>"
    and m: "mset rem = mset (map (\<lambda>(k, wo). wo_mesh wo)
                  (filter (\<lambda>(k, wo). k \<in> set (p_ids payload)) (worldObjects st)))"
    by blast
  have "removeInactiveMeshBodies payload st = st"
    if d: "set (p_ids payload) \<inter> fst ` set (worldObjects st) = {}"
  proof -
    have a: "filter (\<lambda>(k, wo). k \<in> set (p_ids payload)) (worldObjects st) = []"
      using d by (force simp: filter_empty_conv)
    have b: "filter (\<lambda>(k, wo). k \<notin> set (p_ids payload)) (worldObjects st) = worldObjects st"
      using d by (force simp: filter_id_conv)
    have "rem = []" using m unfolding a by simp
    then show ?thesis unfolding removeInactiveMeshBodies_def r b by simp
  qed
  then show ?thesis using r m unfolding removeInactiveMeshBodies_def by blast
qed

theorem removeInactiveMeshBodies_frame_witness:
  "removeInactiveMeshBodies
      \<lparr>p_buffer = \<lparr>sab_id = 0, sab_floats = []\<rparr>,
       p_ids = [''b'', ''nope'', ''b''], p_count = 0, p_newFloorRotationX = 0,
       p_translation = \<lparr>v_x = 0, v_y = 0, v_z = 0\<rparr>,
       p_rotation = \<lparr>q_x = 0, q_y = 0, q_z = 0, q_w = 1\<rparr>\<rparr>
      ((main_init \<lparr>isFloorAnimating = False, floorRotationX = 0, endFloorRotationAngle = 0,
                   isRaining = False, rainSpeedTimer = 5\<rparr> 0 (\<lambda>_. new_Mesh))
        \<lparr>worldObjects := [(''a'', \<lparr>wo_id = ''a'', wo_geometry = ''sphere'', wo_mesh = 1\<rparr>),
                          (''b'', \<lparr>wo_id = ''b'', wo_geometry = ''sphere'', wo_mesh = 2\<rparr>)],
         scene := [0, 1, 2], allocated := 3\<rparr>)
   = (main_init \<lparr>isFloorAnimating = False, floorRotationX = 0, endFloorRotationAngle = 0,
                   isRaining = False, rainSpeedTimer = 5\<rparr> 0 (\<lambda>_. new_Mesh))
        \<lparr>worldObjects := [(''a'', \<lparr>wo_id = ''a'', wo_geometry = ''sphere'', wo_mesh = 1\<rparr>)],
         scene := [0, 1], allocated := 3, disposed := [2]\<rparr>"
proof -
  let ?p = "\<lparr>p_buffer = \<lparr>sab_id = 0, sab_floats = []\<rparr>,
       p_ids = [''b'', ''nope'', ''b''], p_count = 0, p_newFloorRotationX = 0,
       p_translation = \<lparr>v_x = 0, v_y = 0, v_z = 0\<rparr>,
       p_rotation = \<lparr>q_x = 0, q_y = 0, q_z = 0, q_w = 1\<rparr>\<rparr>"
  let ?st = "(main_init \<lparr>isFloorAnimating = False, floorRotationX = 0, endFloorRotationAngle = 0,
                   isRaining = False, rainSpeedTimer = 5\<rparr> 0 (\<lambda>_. new_Mesh))
        \<lparr>worldObjects := [(''a'', \<lparr>wo_id = ''a'', wo_geometry = ''sphere'', wo_mesh = 1\<rparr>),
                          (''b'', \<lparr>wo_id = ''b'', wo_geometry = ''sphere'', wo_mesh = 2\<rparr>)],
         scene := [0, 1, 2], allocated := 3\<rparr>"
  have d1: "distinct (map fst (worldObjects ?st))" by simp
  have d2: "distinct (scene ?st)" by simp
  from removeInactiveMeshBodies_frame [OF d1 d2, of ?p] obtain rem where
    r: "removeInactiveMeshBodies ?p ?st =
       ?st\<lparr>worldObjects := filter (\<lambda>(k, wo). k \<notin> set (p_ids ?p)) (worldObjects ?st),
          scene := filter (\<lambda>r. r \<notin> set rem) (scene ?st),
          disposed := disposed ?st @ rem\<rparr>"
    and m: "mset rem = mset (map (\<lambda>(k, wo). wo_mesh wo)
                  (filter (\<lambda>(k, wo). k \<in> set (p_ids ?p)) (worldObjects ?st)))"
    by blast
  from m have "mset rem = {#2#}" by simp
  then have "rem = [2]" by (metis mset_single_iff_right mset.simps(1) add_mset_eq_single mset_zero_iff)
  then show ?thesis unfolding r by (simp add: main_init_def)
qed

section \<open>Properties of the removal of fallen objects\<close>

lemma delete_middle:
  "distinct (map fst (pre @ (k, v) # es)) \<Longrightarrow> AList.delete k (pre @ (k, v) # es) = pre @ es"
proof -
  assume d: "distinct (map fst (pre @ (k, v) # es))"
  then have a: "k \<notin> fst ` set pre" and b: "k \<notin> fst ` set es" by auto
  have "AList.delete k pre = pre" using a by simp
  moreover have "AList.delete k es = es" using b by simp
  ultimately show ?thesis by (simp add: AList.delete_eq)
qed

lemma map_of_middle:
  "distinct (map fst (pre @ (k, v) # es)) \<Longrightarrow> map_of (pre @ (k, v) # es) k = Some v"
  by (induction pre) auto

lemma fallingCallback_below:
  "belowFloor st wo \<Longrightarrow>
   fallingCallback wo st =
     st\<lparr>worldObjects := AList.delete (wo_id wo) (worldObjects st),
        meshPool := meshPool st @ [poolEntry wo],
        meshes := (meshes st)(wo_mesh wo := (meshes st (wo_mesh wo))\<lparr>m_visible := False\<rparr>),
        posted := posted st @ [removeBodyMessage wo]\<rparr>"
  by (simp add: fallingCallback_def belowFloor_def poolEntry_def removeBodyMessage_def Let_def)

lemma fallingCallback_above: "\<not> belowFloor st wo \<Longrightarrow> fallingCallback wo st = st"
  by (simp add: fallingCallback_def belowFloor_def Let_def)

lemma falling_forEach_effect:
  "distinct (map fst (pre @ es)) \<Longrightarrow> worldObjects st = pre @ es \<Longrightarrow>
   \<forall>(k, wo) \<in> set es. wo_id wo = k \<Longrightarrow>
   falling_forEach es st =
     st\<lparr>worldObjects := pre @ filter (\<lambda>(k, wo). \<not> belowFloor st wo) es,
        meshPool := meshPool st @ map (\<lambda>(k, wo). poolEntry wo)
                      (filter (\<lambda>(k, wo). belowFloor st wo) es),
        meshes := (\<lambda>r. if r \<in> (\<lambda>(k, wo). wo_mesh wo) ` set (filter (\<lambda>(k, wo). belowFloor st wo) es)
                        then (meshes st r)\<lparr>m_visible := False\<rparr> else meshes st r),
        posted := posted st @ map (\<lambda>(k, wo). removeBodyMessage wo)
                    (filter (\<lambda>(k, wo). belowFloor st wo) es)\<rparr>"
proof (induction es arbitrary: st pre)
  case Nil
  then show ?case by simp
next
  case (Cons e es)
  obtain k wo where e: "e = (k, wo)" by (cases e)
  have d: "distinct (map fst (pre @ (k, wo) # es))" using Cons.prems(1) e by simp
  have idk: "wo_id wo = k" using Cons.prems(3) e by simp
  have ids: "\<forall>(k, wo) \<in> set es. wo_id wo = k" using Cons.prems(3) by simp
  have look: "map_of (worldObjects st) k = Some wo"
    unfolding Cons.prems(2) e by (rule map_of_middle [OF d])
  have step: "falling_forEach (e # es) st = falling_forEach es (fallingCallback wo st)"
    using look e by simp
  show ?case
  proof (cases "belowFloor st wo")
    case True
    let ?st1 = "st\<lparr>worldObjects := AList.delete (wo_id wo) (worldObjects st),
        meshPool := meshPool st @ [poolEntry wo],
        meshes := (meshes st)(wo_mesh wo := (meshes st (wo_mesh wo))\<lparr>m_visible := False\<rparr>),
        posted := posted st @ [removeBodyMessage wo]\<rparr>"
    have cb: "fallingCallback wo st = ?st1" by (rule fallingCallback_below [OF True])
    have w1: "worldObjects ?st1 = pre @ es"
      unfolding idk using delete_middle [OF d] Cons.prems(2) e by simp
    have d1: "distinct (map fst (pre @ es))" using d by simp
    have same: "belowFloor ?st1 wo' = belowFloor st wo'" for wo'
      by (simp add: belowFloor_def)
    note IH = Cons.IH [OF d1 w1 ids]
    have "falling_forEach (e # es) st = falling_forEach es ?st1"
      by (simp only: step cb)
    also note IH
    finally show ?thesis
      using True by (simp add: same e fun_eq_iff)
  next
    case False
    have cb: "fallingCallback wo st = st" by (rule fallingCallback_above [OF False])
    have d1: "distinct (map fst ((pre @ [(k, wo)]) @ es))" using d by simp
    have w1: "worldObjects st = (pre @ [(k, wo)]) @ es" using Cons.prems(2) e by simp
    note IH = Cons.IH [OF d1 w1 ids]
    have "falling_forEach (e # es) st = falling_forEach es st"
      by (simp only: step cb)
    also note IH
    finally show ?thesis
      using False by (simp add: e)
  qed
qed


text \<open>
  C3. When checkAndRemoveFallingObjects runs, every tracked object whose mesh y-position
  is at most -20 is deleted from \<^verbatim>\<open>worldObjects\<close>, its (id, geometry, mesh) entry is
  pushed onto the mesh pool, its mesh is made invisible and, for each such object,
  exactly one REMOVE_BODY message with its id and \<^verbatim>\<open>reusable: true\<close> is posted, in the
  order of the map. The scene and the record of disposed meshes do not change, so the
  mesh stays in the scene and is not disposed. The objects with a y-position above -20
  stay in \<^verbatim>\<open>worldObjects\<close> and their meshes are as before.
\<close>

theorem checkAndRemoveFallingObjects_pools:
  assumes "distinct (map fst (worldObjects st))"
    and "\<forall>(k, wo) \<in> set (worldObjects st). wo_id wo = k"
  shows "checkAndRemoveFallingObjects st =
     st\<lparr>worldObjects := filter (\<lambda>(k, wo). \<not> belowFloor st wo) (worldObjects st),
        meshPool := meshPool st @ map (\<lambda>(k, wo). poolEntry wo)
                      (filter (\<lambda>(k, wo). belowFloor st wo) (worldObjects st)),
        meshes := (\<lambda>r. if r \<in> (\<lambda>(k, wo). wo_mesh wo) `
                              set (filter (\<lambda>(k, wo). belowFloor st wo) (worldObjects st))
                        then (meshes st r)\<lparr>m_visible := False\<rparr> else meshes st r),
        posted := posted st @ map (\<lambda>(k, wo). removeBodyMessage wo)
                    (filter (\<lambda>(k, wo). belowFloor st wo) (worldObjects st))\<rparr> \<and>
     scene (checkAndRemoveFallingObjects st) = scene st \<and>
     disposed (checkAndRemoveFallingObjects st) = disposed st \<and>
     (\<forall>(k, wo) \<in> set (worldObjects st). \<not> belowFloor st wo \<longrightarrow>
        meshes (checkAndRemoveFallingObjects st) (wo_mesh wo) = meshes st (wo_mesh wo))"
proof -
  have d: "distinct (map fst ([] @ worldObjects st))" using assms(1) by simp
  have w: "worldObjects st = [] @ worldObjects st" by simp
  note eff = falling_forEach_effect [OF d w assms(2), folded checkAndRemoveFallingObjects_def]
  have keep: "meshes (checkAndRemoveFallingObjects st) (wo_mesh wo) = meshes st (wo_mesh wo)"
    if "\<not> belowFloor st wo" for wo
  proof -
    have "wo_mesh wo \<notin> (\<lambda>(k, wo). wo_mesh wo) `
            set (filter (\<lambda>(k, wo). belowFloor st wo) (worldObjects st))"
    proof
      assume "wo_mesh wo \<in> (\<lambda>(k, wo). wo_mesh wo) `
            set (filter (\<lambda>(k, wo). belowFloor st wo) (worldObjects st))"
      then obtain k' wo' where "wo_mesh wo' = wo_mesh wo" "belowFloor st wo'" by auto
      then have "belowFloor st wo" by (simp add: belowFloor_def)
      then show False using that by simp
    qed
    then show ?thesis by (subst eff) simp
  qed
  have sc: "scene (checkAndRemoveFallingObjects st) = scene st" by (subst eff) simp
  have di: "disposed (checkAndRemoveFallingObjects st) = disposed st" by (subst eff) simp
  show ?thesis using eff sc di keep by auto
qed

theorem checkAndRemoveFallingObjects_pools_witness:
  "worldObjects (checkAndRemoveFallingObjects
      ((main_init \<lparr>isFloorAnimating = False, floorRotationX = 0, endFloorRotationAngle = 0,
                   isRaining = False, rainSpeedTimer = 5\<rparr> 0 (\<lambda>_. new_Mesh))
        \<lparr>worldObjects := [(''a'', \<lparr>wo_id = ''a'', wo_geometry = ''sphere'', wo_mesh = 1\<rparr>),
                          (''b'', \<lparr>wo_id = ''b'', wo_geometry = ''sphere'', wo_mesh = 2\<rparr>),
                          (''c'', \<lparr>wo_id = ''c'', wo_geometry = ''box'', wo_mesh = 3\<rparr>)],
         meshes := (\<lambda>_. new_Mesh)
           (1 := new_Mesh\<lparr>m_position := \<lparr>v_x = Num 0, v_y = Num (- 25), v_z = Num 0\<rparr>\<rparr>,
            2 := new_Mesh\<lparr>m_position := \<lparr>v_x = Num 0, v_y = Num 3, v_z = Num 0\<rparr>\<rparr>,
            3 := new_Mesh\<lparr>m_position := \<lparr>v_x = Num 1, v_y = Num (- 20), v_z = Num 0\<rparr>\<rparr>),
         scene := [0, 1, 2, 3], allocated := 4\<rparr>))
   = [(''b'', \<lparr>wo_id = ''b'', wo_geometry = ''sphere'', wo_mesh = 2\<rparr>)] \<and>
   meshPool (checkAndRemoveFallingObjects
      ((main_init \<lparr>isFloorAnimating = False, floorRotationX = 0, endFloorRotationAngle = 0,
                   isRaining = False, rainSpeedTimer = 5\<rparr> 0 (\<lambda>_. new_Mesh))
        \<lparr>worldObjects := [(''a'', \<lparr>wo_id = ''a'', wo_geometry = ''sphere'', wo_mesh = 1\<rparr>),
                          (''b'', \<lparr>wo_id = ''b'', wo_geometry = ''sphere'', wo_mesh = 2\<rparr>),
                          (''c'', \<lparr>wo_id = ''c'', wo_geometry = ''box'', wo_mesh = 3\<rparr>)],
         meshes := (\<lambda>_. new_Mesh)
           (1 := new_Mesh\<lparr>m_position := \<lparr>v_x = Num 0, v_y = Num (- 25), v_z = Num 0\<rparr>\<rparr>,
            2 := new_Mesh\<lparr>m_position := \<lparr>v_x = Num 0, v_y = Num 3, v_z = Num 0\<rparr>\<rparr>,
            3 := new_Mesh\<lparr>m_position := \<lparr>v_x = Num 1, v_y = Num (- 20), v_z = Num 0\<rparr>\<rparr>),
         scene := [0, 1, 2, 3], allocated := 4\<rparr>))
   = [\<lparr>mp_id = ''a'', mp_geometry = ''sphere'', mp_mesh = 1\<rparr>,
      \<lparr>mp_id = ''c'', mp_geometry = ''box'', mp_mesh = 3\<rparr>] \<and>
   posted (checkAndRemoveFallingObjects
      ((main_init \<lparr>isFloorAnimating = False, floorRotationX = 0, endFloorRotationAngle = 0,
                   isRaining = False, rainSpeedTimer = 5\<rparr> 0 (\<lambda>_. new_Mesh))
        \<lparr>worldObjects := [(''a'', \<lparr>wo_id = ''a'', wo_geometry = ''sphere'', wo_mesh = 1\<rparr>),
                          (''b'', \<lparr>wo_id = ''b'', wo_geometry = ''sphere'', wo_mesh = 2\<rparr>),
                          (''c'', \<lparr>wo_id = ''c'', wo_geometry = ''box'', wo_mesh = 3\<rparr>)],
         meshes := (\<lambda>_. new_Mesh)
           (1 := new_Mesh\<lparr>m_position := \<lparr>v_x = Num 0, v_y = Num (- 25), v_z = Num 0\<rparr>\<rparr>,
            2 := new_Mesh\<lparr>m_position := \<lparr>v_x = Num 0, v_y = Num 3, v_z = Num 0\<rparr>\<rparr>,
            3 := new_Mesh\<lparr>m_position := \<lparr>v_x = Num 1, v_y = Num (- 20), v_z = Num 0\<rparr>\<rparr>),
         scene := [0, 1, 2, 3], allocated := 4\<rparr>))
   = [\<lparr>wm_type = REMOVE_BODY, wm_payload = RemoveBody ''a'' True\<rparr>,
      \<lparr>wm_type = REMOVE_BODY, wm_payload = RemoveBody ''c'' True\<rparr>] \<and>
   scene (checkAndRemoveFallingObjects
      ((main_init \<lparr>isFloorAnimating = False, floorRotationX = 0, endFloorRotationAngle = 0,
                   isRaining = False, rainSpeedTimer = 5\<rparr> 0 (\<lambda>_. new_Mesh))
        \<lparr>worldObjects := [(''a'', \<lparr>wo_id = ''a'', wo_geometry = ''sphere'', wo_mesh = 1\<rparr>),
                          (''b'', \<lparr>wo_id = ''b'', wo_geometry = ''sphere'', wo_mesh = 2\<rparr>),
                          (''c'', \<lparr>wo_id = ''c'', wo_geometry = ''box'', wo_mesh = 3\<rparr>)],
         meshes := (\<lambda>_. new_Mesh)
           (1 := new_Mesh\<lparr>m_position := \<lparr>v_x = Num 0, v_y = Num (- 25), v_z = Num 0\<rparr>\<rparr>,
            2 := new_Mesh\<lparr>m_position := \<lparr>v_x = Num 0, v_y = Num 3, v_z = Num 0\<rparr>\<rparr>,
            3 := new_Mesh\<lparr>m_position := \<lparr>v_x = Num 1, v_y = Num (- 20), v_z = Num 0\<rparr>\<rparr>),
         scene := [0, 1, 2, 3], allocated := 4\<rparr>))
   = [0, 1, 2, 3]"
proof -
  let ?st = "(main_init \<lparr>isFloorAnimating = False, floorRotationX = 0, endFloorRotationAngle = 0,
                   isRaining = False, rainSpeedTimer = 5\<rparr> 0 (\<lambda>_. new_Mesh))
        \<lparr>worldObjects := [(''a'', \<lparr>wo_id = ''a'', wo_geometry = ''sphere'', wo_mesh = 1\<rparr>),
                          (''b'', \<lparr>wo_id = ''b'', wo_geometry = ''sphere'', wo_mesh = 2\<rparr>),
                          (''c'', \<lparr>wo_id = ''c'', wo_geometry = ''box'', wo_mesh = 3\<rparr>)],
         meshes := (\<lambda>_. new_Mesh)
           (1 := new_Mesh\<lparr>m_position := \<lparr>v_x = Num 0, v_y = Num (- 25), v_z = Num 0\<rparr>\<rparr>,
            2 := new_Mesh\<lparr>m_position := \<lparr>v_x = Num 0, v_y = Num 3, v_z = Num 0\<rparr>\<rparr>,
            3 := new_Mesh\<lparr>m_position := \<lparr>v_x = Num 1, v_y = Num (- 20), v_z = Num 0\<rparr>\<rparr>),
         scene := [0, 1, 2, 3], allocated := 4\<rparr>"
  have d: "distinct (map fst (worldObjects ?st))" by simp
  have i: "\<forall>(k, wo) \<in> set (worldObjects ?st). wo_id wo = k" by simp
  note t = checkAndRemoveFallingObjects_pools [OF d i]
  from t have e: "checkAndRemoveFallingObjects ?st =
     ?st\<lparr>worldObjects := filter (\<lambda>(k, wo). \<not> belowFloor ?st wo) (worldObjects ?st),
        meshPool := meshPool ?st @ map (\<lambda>(k, wo). poolEntry wo)
                      (filter (\<lambda>(k, wo). belowFloor ?st wo) (worldObjects ?st)),
        meshes := (\<lambda>r. if r \<in> (\<lambda>(k, wo). wo_mesh wo) `
                              set (filter (\<lambda>(k, wo). belowFloor ?st wo) (worldObjects ?st))
                        then (meshes ?st r)\<lparr>m_visible := False\<rparr> else meshes ?st r),
        posted := posted ?st @ map (\<lambda>(k, wo). removeBodyMessage wo)
                    (filter (\<lambda>(k, wo). belowFloor ?st wo) (worldObjects ?st))\<rparr>"
    by (rule conjunct1)
  show ?thesis
    by (subst e, subst e, subst e, subst e)
       (simp add: belowFloor_def poolEntry_def removeBodyMessage_def main_init_def)
qed

section \<open>Properties of the render loop\<close>






section \<open>Properties of the starting objects\<close>

lemma syncLoop_frame:
  "\<exists>m. snd (syncLoop objIdx i objectCount ids arr st) = st\<lparr>meshes := m\<rparr>"
proof (induction "nat \<lceil>objectCount\<rceil> - objIdx" arbitrary: objIdx i st)
  case 0
  then have n: "\<not> objIdx < nat \<lceil>objectCount\<rceil>" by linarith
  then have nc: "\<not> real objIdx < objectCount" by (simp only: less_count_iff not_False_eq_True)
  have "snd (syncLoop objIdx i objectCount ids arr st) = st\<lparr>meshes := meshes st\<rparr>"
    by (subst syncLoop.simps) (simp only: nc if_False snd_conv, simp)
  then show ?case by blast
next
  case (Suc d)
  then have lt: "objIdx < nat \<lceil>objectCount\<rceil>" by linarith
  then have c: "real objIdx < objectCount" by (simp only: less_count_iff)
  have d: "d = nat \<lceil>objectCount\<rceil> - Suc objIdx" using Suc.hyps(2) by linarith
  show ?case
  proof (cases "objIdx < length ids")
    case False
    have "snd (syncLoop objIdx i objectCount ids arr st) = st\<lparr>meshes := meshes st\<rparr>"
      by (subst syncLoop.simps) (simp only: c False if_True if_False snd_conv, simp)
    then show ?thesis by blast
  next
    case True
    obtain st' where st': "st' = (case map_of (worldObjects st) (ids ! objIdx) of
                         None \<Rightarrow> st
                       | Some wo \<Rightarrow>
                           (let mesh = meshes st (wo_mesh wo)
                            in st\<lparr>meshes := (meshes st)(wo_mesh wo :=
                                 mesh\<lparr>m_position := Vector3_set (m_position mesh) (fa_get arr i)
                                          (fa_get arr (i + 1)) (fa_get arr (i + 2)),
                                      m_quaternion :=
                                        Quaternion_set (m_quaternion mesh) (fa_get arr (i + 3))
                                          (fa_get arr (i + 4)) (fa_get arr (i + 5))
                                          (fa_get arr (i + 6))\<rparr>)\<rparr>))"
      by blast
    have f: "\<exists>m. st' = st\<lparr>meshes := m\<rparr>"
    proof (cases "map_of (worldObjects st) (ids ! objIdx)")
      case None
      then have "st' = st\<lparr>meshes := meshes st\<rparr>" using st' by simp
      then show ?thesis by blast
    next
      case (Some wo)
      then show ?thesis using st' by (auto simp: Let_def)
    qed
    have step: "syncLoop objIdx i objectCount ids arr st =
                syncLoop (Suc objIdx) (i + 7) objectCount ids arr st'"
      by (subst syncLoop.simps) (simp only: c True if_True Let_def st')
    from Suc.hyps(1) [OF d, of "i + 7" st'] obtain m where
      "snd (syncLoop (Suc objIdx) (i + 7) objectCount ids arr st') = st'\<lparr>meshes := m\<rparr>"
      by blast
    moreover from f obtain m0 where "st' = st\<lparr>meshes := m0\<rparr>" by blast
    ultimately have "snd (syncLoop objIdx i objectCount ids arr st) = st\<lparr>meshes := m\<rparr>"
      using step by simp
    then show ?thesis by blast
  qed
qed

lemma udpateAndSyncMeshBodies_keeps:
  "noStartingObjects a sc st \<Longrightarrow>
   noStartingObjects a sc (snd (udpateAndSyncMeshBodies payload st))"
proof -
  assume n: "noStartingObjects a sc st"
  let ?st1 = "if sharedFloatArray st = None \<or> sharedFloatArray st \<noteq> Some (sab_id (p_buffer payload))
                 then st\<lparr>sharedFloatArray := Some (sab_id (p_buffer payload))\<rparr> else st"
  have n1: "noStartingObjects a sc ?st1" using n by (simp add: noStartingObjects_def)
  from syncLoop_frame [of 0 0 "p_count payload" "p_ids payload"
      "sab_floats (p_buffer payload)" ?st1]
  obtain m where "snd (udpateAndSyncMeshBodies payload st) = ?st1\<lparr>meshes := m\<rparr>"
    unfolding udpateAndSyncMeshBodies_def Let_def by blast
  then show ?thesis using n1 by (simp add: noStartingObjects_def)
qed

lemma removeInactive_forEach_empty:
  "worldObjects st = [] \<Longrightarrow> removeInactive_forEach ids st = st"
  by (induction ids) simp_all

lemma onmessage_keeps:
  assumes "ty \<noteq> Enum RAPIER_READY" and "noStartingObjects a sc st"
  shows "noStartingObjects a sc (snd (onmessage cm ty payload st))"
proof -
  obtain err st2 where r: "udpateAndSyncMeshBodies payload st = (err, st2)"
    by (cases "udpateAndSyncMeshBodies payload st")
  have n2: "noStartingObjects a sc st2"
    using udpateAndSyncMeshBodies_keeps [OF assms(2), of payload] r by simp
  have rot: "noStartingObjects a sc (updateAndRotateFloor payload st)"
    using assms(2) by (simp add: noStartingObjects_def updateAndRotateFloor_def Let_def)
  have rem: "removeInactiveMeshBodies payload st = st"
    using assms(2) by (simp add: removeInactiveMeshBodies_def removeInactive_forEach_empty
        noStartingObjects_def)
  show ?thesis
  proof (cases "ty = Enum UPDATE_MESHES")
    case True
    then show ?thesis using n2 r
      by (cases err) (simp_all add: onmessage_def Let_def)
  next
    case False
    then show ?thesis using assms rot rem
      by (simp add: onmessage_def Let_def)
  qed
qed

lemma tick_keeps:
  assumes "noStartingObjects a sc st"
  shows "noStartingObjects a sc (tick delta elapsed st)"
  using assms
  by (simp add: tick_def Let_def noStartingObjects_def worldStepTick_def
      checkAndRemoveFallingObjects_def)

lemma main_run_keeps:
  "\<forall>e \<in> set events. \<not> isReady e \<Longrightarrow> noStartingObjects a sc st \<Longrightarrow>
   noStartingObjects a sc (main_run cm events st)"
proof (induction events arbitrary: st)
  case Nil
  then show ?case by (simp add: main_run_def)
next
  case (Cons e events)
  have "noStartingObjects a sc (main_event cm e st)"
  proof (cases e)
    case (WorkerMessage ty payload)
    then have "ty \<noteq> Enum RAPIER_READY" using Cons.prems(1) by simp
    then show ?thesis using onmessage_keeps [OF _ Cons.prems(2)] WorkerMessage by simp
  next
    case (AnimationFrame delta elapsed)
    then show ?thesis using tick_keeps [OF Cons.prems(2)] by simp
  qed
  then have "noStartingObjects a sc (main_run cm events (main_event cm e st))"
    using Cons.IH Cons.prems(1) by simp
  then show ?case by (simp add: main_run_def)
qed


lemma update_fresh: "k \<notin> fst ` set al \<Longrightarrow> AList.update k v al = al @ [(k, v)]"
  by (induction al) auto

lemma addStartingObject_eq:
  "addStartingObject cm st =
     st\<lparr>worldObjects := AList.update (fst (startingEntry cm (allocated st)))
                           (snd (startingEntry cm (allocated st))) (worldObjects st),
        meshes := (meshes st)(allocated st := snd (snd (cm ''sphere'' (allocated st)))),
        allocated := Suc (allocated st),
        scene := scene_add (allocated st) (scene st)\<rparr>"
  by (simp add: addStartingObject_def createMesh_def startingEntry_def Let_def)

lemma fold_addStartingObject_count:
  "allocated (fold (\<lambda>_. addStartingObject cm) [0..<k] st) = allocated st + k \<and>
   posted (fold (\<lambda>_. addStartingObject cm) [0..<k] st) = posted st"
  by (induction k) (simp_all add: addStartingObject_eq)

lemma fold_addStartingObject_eq:
  assumes "distinct (map (\<lambda>r. fst (cm ''sphere'' r)) [allocated st..<allocated st + k])"
    and "\<forall>r \<in> set [allocated st..<allocated st + k].
           fst (cm ''sphere'' r) \<notin> fst ` set (worldObjects st)"
    and "\<forall>r \<in> set (scene st). r < allocated st"
  shows "fold (\<lambda>_. addStartingObject cm) [0..<k] st =
     st\<lparr>worldObjects := worldObjects st @
                           map (startingEntry cm) [allocated st..<allocated st + k],
        meshes := (\<lambda>r. if allocated st \<le> r \<and> r < allocated st + k
                        then snd (snd (cm ''sphere'' r)) else meshes st r),
        allocated := allocated st + k,
        scene := scene st @ [allocated st..<allocated st + k]\<rparr>"
  using assms
proof (induction k)
  case 0
  have "(\<lambda>r. if allocated st \<le> r \<and> r < allocated st + 0
             then snd (snd (cm ''sphere'' r)) else meshes st r) = meshes st"
    by (auto simp: fun_eq_iff)
  then show ?case by simp
next
  case (Suc k)
  let ?a = "allocated st"
  let ?S = "fold (\<lambda>_. addStartingObject cm) [0..<k] st"
  have u: "[?a..<?a + Suc k] = [?a..<?a + k] @ [?a + k]" by simp
  have d: "distinct (map (\<lambda>r. fst (cm ''sphere'' r)) [?a..<?a + k])"
    using Suc.prems(1) unfolding u by simp
  have f: "\<forall>r \<in> set [?a..<?a + k]. fst (cm ''sphere'' r) \<notin> fst ` set (worldObjects st)"
    using Suc.prems(2) by simp
  note S = Suc.IH [OF d f Suc.prems(3)]
  have aS: "allocated ?S = ?a + k" by (subst S) simp
  have wS: "worldObjects ?S = worldObjects st @ map (startingEntry cm) [?a..<?a + k]"
    by (subst S) simp
  have sS: "scene ?S = scene st @ [?a..<?a + k]" by (subst S) simp
  have key: "fst (startingEntry cm (?a + k)) = fst (cm ''sphere'' (?a + k))"
    by (simp add: startingEntry_def Let_def)
  have keys: "fst ` set (map (startingEntry cm) [?a..<?a + k]) =
              (\<lambda>r. fst (cm ''sphere'' r)) ` set [?a..<?a + k]"
    by (simp add: startingEntry_def Let_def image_image)
  have new1: "fst (cm ''sphere'' (?a + k)) \<notin> fst ` set (worldObjects st)"
    using Suc.prems(2) by simp
  have new2: "fst (cm ''sphere'' (?a + k)) \<notin> (\<lambda>r. fst (cm ''sphere'' r)) ` set [?a..<?a + k]"
    using Suc.prems(1) unfolding u by simp
  have fresh: "fst (startingEntry cm (?a + k)) \<notin> fst ` set (worldObjects ?S)"
    unfolding wS key using new1 new2 keys by (simp add: image_Un)
  have upd: "AList.update (fst (startingEntry cm (?a + k))) (snd (startingEntry cm (?a + k)))
               (worldObjects ?S) =
             worldObjects st @ map (startingEntry cm) [?a..<?a + Suc k]"
    using update_fresh [OF fresh] by (simp add: wS)
  have notin: "?a + k \<notin> set (scene ?S)"
    unfolding sS using Suc.prems(3) by auto
  have sc: "scene_add (?a + k) (scene ?S) = scene st @ [?a..<?a + Suc k]"
    using remove1_idem [OF notin] by (simp add: scene_add_def sS)
  have "fold (\<lambda>_. addStartingObject cm) [0..<Suc k] st = addStartingObject cm ?S"
    by simp
  also have "\<dots> = ?S\<lparr>worldObjects := worldObjects st @ map (startingEntry cm) [?a..<?a + Suc k],
        meshes := (meshes ?S)(?a + k := snd (snd (cm ''sphere'' (?a + k)))),
        allocated := Suc (?a + k),
        scene := scene st @ [?a..<?a + Suc k]\<rparr>"
    unfolding addStartingObject_eq aS upd sc by simp
  also have "\<dots> = st\<lparr>worldObjects := worldObjects st @ map (startingEntry cm) [?a..<?a + Suc k],
        meshes := (\<lambda>r. if ?a \<le> r \<and> r < ?a + Suc k
                        then snd (snd (cm ''sphere'' r)) else meshes st r),
        allocated := ?a + Suc k,
        scene := scene st @ [?a..<?a + Suc k]\<rparr>"
    by (simp only: S) (auto simp: fun_eq_iff)
  finally show ?case .
qed


lemma main_init_noStartingObjects:
  "noStartingObjects (Suc n) (scene (main_init gui n objs)) (main_init gui n objs)"
  by (simp add: noStartingObjects_def main_init_def)

lemma ready_runs_initStartingObjects:
  "main_event cm (WorkerMessage (Enum RAPIER_READY) payload) st = initStartingObjects cm st"
  by (simp add: onmessage_def Let_def)

lemma initStartingObjects_single_message:
  "allocated (initStartingObjects cm st) = allocated st + 20 \<and>
   (\<exists>data. posted (initStartingObjects cm st) =
      posted st @ [\<lparr>wm_type = ADD_OBJECTS, wm_payload = AddObjects data\<rparr>])"
  using fold_addStartingObject_count [of cm 20 st]
  by (simp add: initStartingObjects_def Let_def)

lemma initStartingObjects_fresh:
  assumes "worldObjects st = []"
    and "\<forall>r \<in> set (scene st). r < allocated st"
    and "distinct (map (\<lambda>r. fst (cm ''sphere'' r)) [allocated st..<allocated st + 20])"
  shows "initStartingObjects cm st =
     st\<lparr>worldObjects := map (startingEntry cm) [allocated st..<allocated st + 20],
        meshes := (\<lambda>r. if allocated st \<le> r \<and> r < allocated st + 20
                        then snd (snd (cm ''sphere'' r)) else meshes st r),
        allocated := allocated st + 20,
        scene := scene st @ [allocated st..<allocated st + 20],
        posted := posted st @
          [\<lparr>wm_type = ADD_OBJECTS,
            wm_payload = AddObjects (map (startingData cm)
                           [allocated st..<allocated st + 20])\<rparr>]\<rparr>"
proof -
  let ?a = "allocated st"
  let ?st1 = "fold (\<lambda>_. addStartingObject cm) [0..<20] st"
  have f: "\<forall>r \<in> set [?a..<?a + 20]. fst (cm ''sphere'' r) \<notin> fst ` set (worldObjects st)"
    using assms(1) by simp
  note S = fold_addStartingObject_eq [of cm st 20, OF assms(3) f assms(2)]
  have w: "worldObjects ?st1 = map (startingEntry cm) [?a..<?a + 20]"
    by (subst S) (simp add: assms(1))
  have m: "meshes ?st1 r = snd (snd (cm ''sphere'' r))" if "r \<in> set [?a..<?a + 20]" for r
    using that by (subst S) simp
  have p: "posted ?st1 = posted st" by (subst S) simp
  have "map (objectData ?st1) (map snd (worldObjects ?st1)) =
        map (\<lambda>r. objectData ?st1 (snd (startingEntry cm r))) [?a..<?a + 20]"
    unfolding w by (simp add: comp_def)
  also have "\<dots> = map (startingData cm) [?a..<?a + 20]"
  proof (rule map_cong [OF refl])
    fix r assume r: "r \<in> set [?a..<?a + 20]"
    show "objectData ?st1 (snd (startingEntry cm r)) = startingData cm r"
      by (simp add: objectData_def startingEntry_def startingData_def Let_def m [OF r])
  qed
  finally have d: "map (objectData ?st1) (map snd (worldObjects ?st1)) =
        map (startingData cm) [?a..<?a + 20]" .
  have "initStartingObjects cm st =
      ?st1\<lparr>posted := posted ?st1 @
        [\<lparr>wm_type = ADD_OBJECTS,
          wm_payload = AddObjects (map (objectData ?st1) (map snd (worldObjects ?st1)))\<rparr>]\<rparr>"
    by (simp add: initStartingObjects_def Let_def)
  also have "\<dots> = ?st1\<lparr>posted := posted st @
        [\<lparr>wm_type = ADD_OBJECTS,
          wm_payload = AddObjects (map (startingData cm) [?a..<?a + 20])\<rparr>]\<rparr>"
    by (simp only: d p)
  finally show ?thesis by (simp only: S) (simp add: assms(1))
qed

text \<open>
  C4. From the state the script leaves, as long as the worker has posted no RAPIER_READY
  message, whatever other messages arrive and however many frames are drawn, none of
  the starting objects exists: no object has been created, \<^verbatim>\<open>worldObjects\<close> is empty,
  the scene has the children the script gave it and no ADD_OBJECTS message has been
  posted. The handler of a RAPIER_READY message that arrives then is initStartingObjects:
  it creates exactly 20 objects and posts exactly one message, an ADD_OBJECTS message;
  when the 20 ids that createMesh gives are pairwise different, the 20 spheres are
  registered in \<^verbatim>\<open>worldObjects\<close> under their ids and appended to the scene, and the
  message carries, for each of them in turn, its id, geometry, position and scale.
\<close>

theorem starting_objects_only_after_ready:
  assumes "\<forall>e \<in> set events. \<not> isReady e"
  shows "let before = main_run cm events (main_init gui n objs);
             after = main_event cm (WorkerMessage (Enum RAPIER_READY) payload) before
         in noStartingObjects (Suc n) (scene (main_init gui n objs)) before \<and>
            after = initStartingObjects cm before \<and>
            allocated after = allocated before + 20 \<and>
            (\<exists>data. posted after =
               posted before @ [\<lparr>wm_type = ADD_OBJECTS, wm_payload = AddObjects data\<rparr>]) \<and>
            (distinct (map (\<lambda>r. fst (cm ''sphere'' r)) [Suc n..<Suc n + 20]) \<longrightarrow>
               after =
                 before\<lparr>worldObjects := map (startingEntry cm) [Suc n..<Suc n + 20],
                   meshes := (\<lambda>r. if Suc n \<le> r \<and> r < Suc n + 20
                                   then snd (snd (cm ''sphere'' r)) else meshes before r),
                   allocated := Suc n + 20,
                   scene := scene before @ [Suc n..<Suc n + 20],
                   posted := posted before @
                     [\<lparr>wm_type = ADD_OBJECTS,
                       wm_payload = AddObjects (map (startingData cm)
                                      [Suc n..<Suc n + 20])\<rparr>]\<rparr>)"
proof -
  let ?before = "main_run cm events (main_init gui n objs)"
  let ?after = "main_event cm (WorkerMessage (Enum RAPIER_READY) payload) ?before"
  have nb: "noStartingObjects (Suc n) (scene (main_init gui n objs)) ?before"
    by (rule main_run_keeps [OF assms main_init_noStartingObjects])
  then have w: "worldObjects ?before = []" and a: "allocated ?before = Suc n"
    and sc: "scene ?before = scene (main_init gui n objs)"
    by (simp_all add: noStartingObjects_def)
  have r: "?after = initStartingObjects cm ?before"
    by (rule ready_runs_initStartingObjects)
  have low: "\<forall>r \<in> set (scene ?before). r < allocated ?before"
    unfolding sc a by (auto simp: main_init_def scene_add_def)
  have full: "?after =
                 ?before\<lparr>worldObjects := map (startingEntry cm) [Suc n..<Suc n + 20],
                   meshes := (\<lambda>r. if Suc n \<le> r \<and> r < Suc n + 20
                                   then snd (snd (cm ''sphere'' r)) else meshes ?before r),
                   allocated := Suc n + 20,
                   scene := scene ?before @ [Suc n..<Suc n + 20],
                   posted := posted ?before @
                     [\<lparr>wm_type = ADD_OBJECTS,
                       wm_payload = AddObjects (map (startingData cm)
                                      [Suc n..<Suc n + 20])\<rparr>]\<rparr>"
    if d: "distinct (map (\<lambda>r. fst (cm ''sphere'' r)) [Suc n..<Suc n + 20])"
  proof -
    have d': "distinct (map (\<lambda>r. fst (cm ''sphere'' r))
                [allocated ?before..<allocated ?before + 20])"
      using d by (simp only: a)
    show ?thesis
      unfolding r using initStartingObjects_fresh [of ?before cm, OF w low d'] by (simp only: a)
  qed
  show ?thesis
    unfolding Let_def
    using nb r full initStartingObjects_single_message [of cm ?before]
    by (simp only: r) blast
qed


theorem starting_objects_only_after_ready_witness:
  "worldObjects (main_run (\<lambda>kind r. (replicate r CHR ''x'', kind, new_Mesh))
      [AnimationFrame (1/100) 1,
       WorkerMessage (Enum UPDATE_MESHES)
         \<lparr>p_buffer = \<lparr>sab_id = 0, sab_floats = [1, 2, 3, 4, 5, 6, 7]\<rparr>,
          p_ids = [''x''], p_count = 1, p_newFloorRotationX = 2,
          p_translation = \<lparr>v_x = 1, v_y = 1, v_z = 1\<rparr>,
          p_rotation = \<lparr>q_x = 0, q_y = 0, q_z = 0, q_w = 1\<rparr>\<rparr>,
       AnimationFrame (1/1000) 2]
      (main_init \<lparr>isFloorAnimating = False, floorRotationX = 0, endFloorRotationAngle = 0,
                   isRaining = False, rainSpeedTimer = 5\<rparr> 0 (\<lambda>_. new_Mesh))) = [] \<and>
   length (worldObjects (main_event (\<lambda>kind r. (replicate r CHR ''x'', kind, new_Mesh))
     (WorkerMessage (Enum RAPIER_READY)
         \<lparr>p_buffer = \<lparr>sab_id = 0, sab_floats = []\<rparr>,
          p_ids = [], p_count = 0, p_newFloorRotationX = 0,
          p_translation = \<lparr>v_x = 0, v_y = 0, v_z = 0\<rparr>,
          p_rotation = \<lparr>q_x = 0, q_y = 0, q_z = 0, q_w = 1\<rparr>\<rparr>)
     (main_run (\<lambda>kind r. (replicate r CHR ''x'', kind, new_Mesh))
      [AnimationFrame (1/100) 1,
       WorkerMessage (Enum UPDATE_MESHES)
         \<lparr>p_buffer = \<lparr>sab_id = 0, sab_floats = [1, 2, 3, 4, 5, 6, 7]\<rparr>,
          p_ids = [''x''], p_count = 1, p_newFloorRotationX = 2,
          p_translation = \<lparr>v_x = 1, v_y = 1, v_z = 1\<rparr>,
          p_rotation = \<lparr>q_x = 0, q_y = 0, q_z = 0, q_w = 1\<rparr>\<rparr>,
       AnimationFrame (1/1000) 2]
      (main_init \<lparr>isFloorAnimating = False, floorRotationX = 0, endFloorRotationAngle = 0,
                   isRaining = False, rainSpeedTimer = 5\<rparr> 0 (\<lambda>_. new_Mesh))))) = 20 \<and>
   allocated (main_event (\<lambda>kind r. (replicate r CHR ''x'', kind, new_Mesh))
     (WorkerMessage (Enum RAPIER_READY)
         \<lparr>p_buffer = \<lparr>sab_id = 0, sab_floats = []\<rparr>,
          p_ids = [], p_count = 0, p_newFloorRotationX = 0,
          p_translation = \<lparr>v_x = 0, v_y = 0, v_z = 0\<rparr>,
          p_rotation = \<lparr>q_x = 0, q_y = 0, q_z = 0, q_w = 1\<rparr>\<rparr>)
     (main_run (\<lambda>kind r. (replicate r CHR ''x'', kind, new_Mesh))
      [AnimationFrame (1/100) 1,
       WorkerMessage (Enum UPDATE_MESHES)
         \<lparr>p_buffer = \<lparr>sab_id = 0, sab_floats = [1, 2, 3, 4, 5, 6, 7]\<rparr>,
          p_ids = [''x''], p_count = 1, p_newFloorRotationX = 2,
          p_translation = \<lparr>v_x = 1, v_y = 1, v_z = 1\<rparr>,
          p_rotation = \<lparr>q_x = 0, q_y = 0, q_z = 0, q_w = 1\<rparr>\<rparr>,
       AnimationFrame (1/1000) 2]
      (main_init \<lparr>isFloorAnimating = False, floorRotationX = 0, endFloorRotationAngle = 0,
                   isRaining = False, rainSpeedTimer = 5\<rparr> 0 (\<lambda>_. new_Mesh)))) = 21"
proof -
  let ?cm = "\<lambda>kind r. (replicate r CHR ''x'', kind, new_Mesh)"
  let ?events = "[AnimationFrame (1/100) 1,
       WorkerMessage (Enum UPDATE_MESHES)
         \<lparr>p_buffer = \<lparr>sab_id = 0, sab_floats = [1, 2, 3, 4, 5, 6, 7]\<rparr>,
          p_ids = [''x''], p_count = 1, p_newFloorRotationX = 2,
          p_translation = \<lparr>v_x = 1, v_y = 1, v_z = 1\<rparr>,
          p_rotation = \<lparr>q_x = 0, q_y = 0, q_z = 0, q_w = 1\<rparr>\<rparr>,
       AnimationFrame (1/1000) 2]"
  let ?gui = "\<lparr>isFloorAnimating = False, floorRotationX = 0, endFloorRotationAngle = 0,
                   isRaining = False, rainSpeedTimer = 5\<rparr>"
  let ?p = "\<lparr>p_buffer = \<lparr>sab_id = 0, sab_floats = []\<rparr>,
          p_ids = [], p_count = 0, p_newFloorRotationX = 0,
          p_translation = \<lparr>v_x = 0, v_y = 0, v_z = 0\<rparr>,
          p_rotation = \<lparr>q_x = 0, q_y = 0, q_z = 0, q_w = 1\<rparr>\<rparr>"
  have e: "\<forall>e \<in> set ?events. \<not> isReady e" by simp
  have d: "distinct (map (\<lambda>r. fst (?cm ''sphere'' r)) [Suc 0..<Suc 0 + 20])"
    by (auto simp: distinct_map inj_on_def replicate_eq_replicate)
  note t = starting_objects_only_after_ready [OF e, of ?cm ?gui 0 "\<lambda>_. new_Mesh" ?p,
      unfolded Let_def]
  from t have b: "worldObjects (main_run ?cm ?events (main_init ?gui 0 (\<lambda>_. new_Mesh))) = []"
    by (simp add: noStartingObjects_def)
  from t d have a: "main_event ?cm (WorkerMessage (Enum RAPIER_READY) ?p)
        (main_run ?cm ?events (main_init ?gui 0 (\<lambda>_. new_Mesh))) =
      (main_run ?cm ?events (main_init ?gui 0 (\<lambda>_. new_Mesh)))
        \<lparr>worldObjects := map (startingEntry ?cm) [Suc 0..<Suc 0 + 20],
         meshes := (\<lambda>r. if Suc 0 \<le> r \<and> r < Suc 0 + 20
                         then snd (snd (?cm ''sphere'' r))
                         else meshes (main_run ?cm ?events (main_init ?gui 0 (\<lambda>_. new_Mesh))) r),
         allocated := Suc 0 + 20,
         scene := scene (main_run ?cm ?events (main_init ?gui 0 (\<lambda>_. new_Mesh))) @
                    [Suc 0..<Suc 0 + 20],
         posted := posted (main_run ?cm ?events (main_init ?gui 0 (\<lambda>_. new_Mesh))) @
           [\<lparr>wm_type = ADD_OBJECTS,
             wm_payload = AddObjects (map (startingData ?cm) [Suc 0..<Suc 0 + 20])\<rparr>]\<rparr>"
    by blast
  have l: "length (worldObjects (main_event ?cm (WorkerMessage (Enum RAPIER_READY) ?p)
        (main_run ?cm ?events (main_init ?gui 0 (\<lambda>_. new_Mesh))))) = 20"
    by (subst a) simp
  have c: "allocated (main_event ?cm (WorkerMessage (Enum RAPIER_READY) ?p)
        (main_run ?cm ?events (main_init ?gui 0 (\<lambda>_. new_Mesh)))) = 21"
    by (subst a) simp
  show ?thesis using b l c by blast
qed

section \<open>Properties of the message dispatch\<close>

lemma onmessage_cases:
  "onmessage cm ty payload st =
     (case ty of
        Enum RAPIER_READY \<Rightarrow> (None, initStartingObjects cm st)
      | Enum UPDATE_MESHES \<Rightarrow> udpateAndSyncMeshBodies payload st
      | Enum ROTATE_FLOOR \<Rightarrow> (None, updateAndRotateFloor payload st)
      | Enum REMOVE_INACTIVES \<Rightarrow> (None, removeInactiveMeshBodies payload st)
      | _ \<Rightarrow> (None, st))"
proof (cases ty)
  case (Enum e)
  show ?thesis
  proof (cases e)
    case UPDATE_MESHES
    obtain err st' where r: "udpateAndSyncMeshBodies payload st = (err, st')"
      by (cases "udpateAndSyncMeshBodies payload st")
    show ?thesis using Enum UPDATE_MESHES
      by (cases err) (simp_all add: onmessage_def Let_def r)
  qed (simp_all add: Enum onmessage_def Let_def)
next
  case (Other s)
  then show ?thesis by (simp add: onmessage_def Let_def)
qed

lemma updateAndRotateFloor_state:
  "updateAndRotateFloor payload st =
     st\<lparr>guiManager := (guiManager st)\<lparr>floorRotationX := p_newFloorRotationX payload\<rparr>,
        meshes := (meshes st)(floor_ref st :=
          (meshes st (floor_ref st))
            \<lparr>m_position := \<lparr>v_x = Num (v_x (p_translation payload)),
                             v_y = Num (v_y (p_translation payload)),
                             v_z = Num (v_z (p_translation payload))\<rparr>,
             m_quaternion := \<lparr>q_x = Num (q_x (p_rotation payload)),
                               q_y = Num (q_y (p_rotation payload)),
                               q_z = Num (q_z (p_rotation payload)),
                               q_w = Num (q_w (p_rotation payload))\<rparr>\<rparr>)\<rparr>"
  by (simp add: updateAndRotateFloor_def Let_def)

text \<open>
  C2. What the handler of a message from the worker does is fixed by the type field of
  the message, and for each type it is the effect the specification names.
  \<^item> RAPIER_READY creates the starting objects: 20 objects are created and one message,
    an ADD_OBJECTS message, is posted; in a state without registered objects, with the
    20 ids of createMesh pairwise different, the 20 spheres are registered under their
    ids and appended to the scene, and the message lists them.
  \<^item> UPDATE_MESHES copies the transforms of the shared buffer of the message: the view
    of the buffer is cached, and every registered scene object gets, for each index
    below count whose id is its own, in turn, the seven floats at offset 7 * index as
    position and quaternion; nothing else changes. (The handler raises a TypeError
    exactly when count is more than the number of ids.)
  \<^item> ROTATE_FLOOR updates the floor: the GUIManager takes the new rotation angle and the
    floor mesh takes the translation as its position and the rotation as its
    quaternion; nothing else changes.
  \<^item> REMOVE_INACTIVES removes meshes: the entries of \<^verbatim>\<open>worldObjects\<close> with a listed id
    are deleted and their meshes are taken out of the scene and disposed of; nothing
    else changes.
  \<^item> A message of any other type, whatever its payload, raises nothing and leaves the
    state of the main thread as it was.
  No handler of another type runs: each of these results is the whole state.
\<close>

theorem onmessage_dispatch:
  "onmessage cm ty payload st =
     (case ty of
        Enum RAPIER_READY \<Rightarrow> (None, initStartingObjects cm st)
      | Enum UPDATE_MESHES \<Rightarrow> udpateAndSyncMeshBodies payload st
      | Enum ROTATE_FLOOR \<Rightarrow> (None, updateAndRotateFloor payload st)
      | Enum REMOVE_INACTIVES \<Rightarrow> (None, removeInactiveMeshBodies payload st)
      | _ \<Rightarrow> (None, st)) \<and>
   (ty = Enum RAPIER_READY \<longrightarrow>
      fst (onmessage cm ty payload st) = None \<and>
      allocated (snd (onmessage cm ty payload st)) = allocated st + 20 \<and>
      (\<exists>data. posted (snd (onmessage cm ty payload st)) =
         posted st @ [\<lparr>wm_type = ADD_OBJECTS, wm_payload = AddObjects data\<rparr>]) \<and>
      (worldObjects st = [] \<and> (\<forall>r \<in> set (scene st). r < allocated st) \<and>
       distinct (map (\<lambda>r. fst (cm ''sphere'' r)) [allocated st..<allocated st + 20]) \<longrightarrow>
       snd (onmessage cm ty payload st) =
         st\<lparr>worldObjects := map (startingEntry cm) [allocated st..<allocated st + 20],
            meshes := (\<lambda>r. if allocated st \<le> r \<and> r < allocated st + 20
                            then snd (snd (cm ''sphere'' r)) else meshes st r),
            allocated := allocated st + 20,
            scene := scene st @ [allocated st..<allocated st + 20],
            posted := posted st @
              [\<lparr>wm_type = ADD_OBJECTS,
                wm_payload = AddObjects (map (startingData cm)
                               [allocated st..<allocated st + 20])\<rparr>]\<rparr>)) \<and>
   (ty = Enum UPDATE_MESHES \<longrightarrow>
      onmessage cm ty payload st =
        (if p_count payload \<le> real (length (p_ids payload)) then None else Some TypeError,
         st\<lparr>sharedFloatArray := Some (sab_id (p_buffer payload)),
            meshes := (\<lambda>r. fold (transformAt (sab_floats (p_buffer payload)))
                               (syncHits (worldObjects st) (p_ids payload) (p_count payload) r)
                               (meshes st r))\<rparr>)) \<and>
   (ty = Enum ROTATE_FLOOR \<longrightarrow>
      onmessage cm ty payload st =
        (None,
         st\<lparr>guiManager := (guiManager st)\<lparr>floorRotationX := p_newFloorRotationX payload\<rparr>,
            meshes := (meshes st)(floor_ref st :=
              (meshes st (floor_ref st))
                \<lparr>m_position := \<lparr>v_x = Num (v_x (p_translation payload)),
                                 v_y = Num (v_y (p_translation payload)),
                                 v_z = Num (v_z (p_translation payload))\<rparr>,
                 m_quaternion := \<lparr>q_x = Num (q_x (p_rotation payload)),
                                   q_y = Num (q_y (p_rotation payload)),
                                   q_z = Num (q_z (p_rotation payload)),
                                   q_w = Num (q_w (p_rotation payload))\<rparr>\<rparr>)\<rparr>)) \<and>
   (ty = Enum REMOVE_INACTIVES \<longrightarrow>
      fst (onmessage cm ty payload st) = None \<and>
      (distinct (map fst (worldObjects st)) \<and> distinct (scene st) \<longrightarrow>
       (\<exists>rem. snd (onmessage cm ty payload st) =
           st\<lparr>worldObjects := filter (\<lambda>(k, wo). k \<notin> set (p_ids payload)) (worldObjects st),
              scene := filter (\<lambda>r. r \<notin> set rem) (scene st),
              disposed := disposed st @ rem\<rparr> \<and>
         mset rem = mset (map (\<lambda>(k, wo). wo_mesh wo)
                      (filter (\<lambda>(k, wo). k \<in> set (p_ids payload)) (worldObjects st)))))) \<and>
   (ty \<noteq> Enum RAPIER_READY \<and> ty \<noteq> Enum UPDATE_MESHES \<and> ty \<noteq> Enum ROTATE_FLOOR \<and>
    ty \<noteq> Enum REMOVE_INACTIVES \<longrightarrow>
      onmessage cm ty payload st = (None, st))"
proof -
  note d = onmessage_cases [of cm ty payload st]
  have ready: "fst (onmessage cm ty payload st) = None \<and>
      allocated (snd (onmessage cm ty payload st)) = allocated st + 20 \<and>
      (\<exists>data. posted (snd (onmessage cm ty payload st)) =
         posted st @ [\<lparr>wm_type = ADD_OBJECTS, wm_payload = AddObjects data\<rparr>]) \<and>
      (worldObjects st = [] \<and> (\<forall>r \<in> set (scene st). r < allocated st) \<and>
       distinct (map (\<lambda>r. fst (cm ''sphere'' r)) [allocated st..<allocated st + 20]) \<longrightarrow>
       snd (onmessage cm ty payload st) =
         st\<lparr>worldObjects := map (startingEntry cm) [allocated st..<allocated st + 20],
            meshes := (\<lambda>r. if allocated st \<le> r \<and> r < allocated st + 20
                            then snd (snd (cm ''sphere'' r)) else meshes st r),
            allocated := allocated st + 20,
            scene := scene st @ [allocated st..<allocated st + 20],
            posted := posted st @
              [\<lparr>wm_type = ADD_OBJECTS,
                wm_payload = AddObjects (map (startingData cm)
                               [allocated st..<allocated st + 20])\<rparr>]\<rparr>)"
    if t: "ty = Enum RAPIER_READY"
  proof -
    have o: "onmessage cm ty payload st = (None, initStartingObjects cm st)"
      using d t by simp
    show ?thesis
      unfolding o fst_conv snd_conv
      using initStartingObjects_single_message [of cm st] initStartingObjects_fresh [of st cm]
      by blast
  qed
  have update: "onmessage cm ty payload st =
        (if p_count payload \<le> real (length (p_ids payload)) then None else Some TypeError,
         st\<lparr>sharedFloatArray := Some (sab_id (p_buffer payload)),
            meshes := (\<lambda>r. fold (transformAt (sab_floats (p_buffer payload)))
                               (syncHits (worldObjects st) (p_ids payload) (p_count payload) r)
                               (meshes st r))\<rparr>)"
    if t: "ty = Enum UPDATE_MESHES"
  proof -
    have "onmessage cm ty payload st = udpateAndSyncMeshBodies payload st"
      using d t by simp
    then show ?thesis by (simp only: udpateAndSyncMeshBodies_state)
  qed
  have rotate: "onmessage cm ty payload st =
        (None,
         st\<lparr>guiManager := (guiManager st)\<lparr>floorRotationX := p_newFloorRotationX payload\<rparr>,
            meshes := (meshes st)(floor_ref st :=
              (meshes st (floor_ref st))
                \<lparr>m_position := \<lparr>v_x = Num (v_x (p_translation payload)),
                                 v_y = Num (v_y (p_translation payload)),
                                 v_z = Num (v_z (p_translation payload))\<rparr>,
                 m_quaternion := \<lparr>q_x = Num (q_x (p_rotation payload)),
                                   q_y = Num (q_y (p_rotation payload)),
                                   q_z = Num (q_z (p_rotation payload)),
                                   q_w = Num (q_w (p_rotation payload))\<rparr>\<rparr>)\<rparr>)"
    if t: "ty = Enum ROTATE_FLOOR"
  proof -
    have "onmessage cm ty payload st = (None, updateAndRotateFloor payload st)"
      using d t by simp
    then show ?thesis by (simp only: updateAndRotateFloor_state)
  qed
  have remove: "fst (onmessage cm ty payload st) = None \<and>
      (distinct (map fst (worldObjects st)) \<and> distinct (scene st) \<longrightarrow>
       (\<exists>rem. snd (onmessage cm ty payload st) =
           st\<lparr>worldObjects := filter (\<lambda>(k, wo). k \<notin> set (p_ids payload)) (worldObjects st),
              scene := filter (\<lambda>r. r \<notin> set rem) (scene st),
              disposed := disposed st @ rem\<rparr> \<and>
         mset rem = mset (map (\<lambda>(k, wo). wo_mesh wo)
                      (filter (\<lambda>(k, wo). k \<in> set (p_ids payload)) (worldObjects st)))))"
    if t: "ty = Enum REMOVE_INACTIVES"
  proof -
    have o: "onmessage cm ty payload st =
        (None, removeInactive_forEach (p_ids payload) st)"
      using d t by (simp add: removeInactiveMeshBodies_def)
    show ?thesis
      unfolding o fst_conv snd_conv
      using removeInactive_forEach_effect [of st "p_ids payload"] by blast
  qed
  have other: "onmessage cm ty payload st = (None, st)"
    if t: "ty \<noteq> Enum RAPIER_READY \<and> ty \<noteq> Enum UPDATE_MESHES \<and> ty \<noteq> Enum ROTATE_FLOOR \<and>
           ty \<noteq> Enum REMOVE_INACTIVES"
    using t by (simp add: onmessage_def Let_def)
  show ?thesis using d ready update rotate remove other by blast
qed

theorem onmessage_dispatch_witness:
  "onmessage (\<lambda>kind n. (replicate n CHR ''i'', kind, new_Mesh)) (Other ''PING'')
      \<lparr>p_buffer = \<lparr>sab_id = 7, sab_floats = [1, 2, 3, 0, 0, 0, 1]\<rparr>,
       p_ids = [''a'', ''zz''], p_count = 1, p_newFloorRotationX = 2,
       p_translation = \<lparr>v_x = 1, v_y = 2, v_z = 3\<rparr>,
       p_rotation = \<lparr>q_x = 1, q_y = 0, q_z = 0, q_w = 0\<rparr>\<rparr>
      ((main_init \<lparr>isFloorAnimating = False, floorRotationX = 0, endFloorRotationAngle = 0,
                   isRaining = False, rainSpeedTimer = 5\<rparr> 0 (\<lambda>_. new_Mesh))
        \<lparr>worldObjects := [(''a'', \<lparr>wo_id = ''a'', wo_geometry = ''sphere'', wo_mesh = 1\<rparr>),
                          (''b'', \<lparr>wo_id = ''b'', wo_geometry = ''sphere'', wo_mesh = 2\<rparr>)],
         allocated := 3, scene := [0, 1, 2]\<rparr>)
   = (None,
      (main_init \<lparr>isFloorAnimating = False, floorRotationX = 0, endFloorRotationAngle = 0,
                   isRaining = False, rainSpeedTimer = 5\<rparr> 0 (\<lambda>_. new_Mesh))
        \<lparr>worldObjects := [(''a'', \<lparr>wo_id = ''a'', wo_geometry = ''sphere'', wo_mesh = 1\<rparr>),
                          (''b'', \<lparr>wo_id = ''b'', wo_geometry = ''sphere'', wo_mesh = 2\<rparr>)],
         allocated := 3, scene := [0, 1, 2]\<rparr>) \<and>
   onmessage (\<lambda>kind n. (replicate n CHR ''i'', kind, new_Mesh)) (Enum ROTATE_FLOOR)
      \<lparr>p_buffer = \<lparr>sab_id = 7, sab_floats = [1, 2, 3, 0, 0, 0, 1]\<rparr>,
       p_ids = [''a'', ''zz''], p_count = 1, p_newFloorRotationX = 2,
       p_translation = \<lparr>v_x = 1, v_y = 2, v_z = 3\<rparr>,
       p_rotation = \<lparr>q_x = 1, q_y = 0, q_z = 0, q_w = 0\<rparr>\<rparr>
      ((main_init \<lparr>isFloorAnimating = False, floorRotationX = 0, endFloorRotationAngle = 0,
                   isRaining = False, rainSpeedTimer = 5\<rparr> 0 (\<lambda>_. new_Mesh))
        \<lparr>worldObjects := [(''a'', \<lparr>wo_id = ''a'', wo_geometry = ''sphere'', wo_mesh = 1\<rparr>),
                          (''b'', \<lparr>wo_id = ''b'', wo_geometry = ''sphere'', wo_mesh = 2\<rparr>)],
         allocated := 3, scene := [0, 1, 2]\<rparr>)
   = (None,
      (main_init \<lparr>isFloorAnimating = False, floorRotationX = 0, endFloorRotationAngle = 0,
                   isRaining = False, rainSpeedTimer = 5\<rparr> 0 (\<lambda>_. new_Mesh))
        \<lparr>worldObjects := [(''a'', \<lparr>wo_id = ''a'', wo_geometry = ''sphere'', wo_mesh = 1\<rparr>),
                          (''b'', \<lparr>wo_id = ''b'', wo_geometry = ''sphere'', wo_mesh = 2\<rparr>)],
         guiManager := \<lparr>isFloorAnimating = False, floorRotationX = 2, endFloorRotationAngle = 0,
                   isRaining = False, rainSpeedTimer = 5\<rparr>,
         meshes := (\<lambda>_. new_Mesh)(0 := new_Mesh
           \<lparr>m_position := \<lparr>v_x = Num 1, v_y = Num 2, v_z = Num 3\<rparr>,
            m_quaternion := \<lparr>q_x = Num 1, q_y = Num 0, q_z = Num 0, q_w = Num 0\<rparr>\<rparr>),
         allocated := 3, scene := [0, 1, 2]\<rparr>) \<and>
   onmessage (\<lambda>kind n. (replicate n CHR ''i'', kind, new_Mesh)) (Enum REMOVE_INACTIVES)
      \<lparr>p_buffer = \<lparr>sab_id = 7, sab_floats = [1, 2, 3, 0, 0, 0, 1]\<rparr>,
       p_ids = [''a'', ''zz''], p_count = 1, p_newFloorRotationX = 2,
       p_translation = \<lparr>v_x = 1, v_y = 2, v_z = 3\<rparr>,
       p_rotation = \<lparr>q_x = 1, q_y = 0, q_z = 0, q_w = 0\<rparr>\<rparr>
      ((main_init \<lparr>isFloorAnimating = False, floorRotationX = 0, endFloorRotationAngle = 0,
                   isRaining = False, rainSpeedTimer = 5\<rparr> 0 (\<lambda>_. new_Mesh))
        \<lparr>worldObjects := [(''a'', \<lparr>wo_id = ''a'', wo_geometry = ''sphere'', wo_mesh = 1\<rparr>),
                          (''b'', \<lparr>wo_id = ''b'', wo_geometry = ''sphere'', wo_mesh = 2\<rparr>)],
         allocated := 3, scene := [0, 1, 2]\<rparr>)
   = (None,
      (main_init \<lparr>isFloorAnimating = False, floorRotationX = 0, endFloorRotationAngle = 0,
                   isRaining = False, rainSpeedTimer = 5\<rparr> 0 (\<lambda>_. new_Mesh))
        \<lparr>worldObjects := [(''b'', \<lparr>wo_id = ''b'', wo_geometry = ''sphere'', wo_mesh = 2\<rparr>)],
         allocated := 3, scene := [0, 2], disposed := [1]\<rparr>) \<and>
   onmessage (\<lambda>kind n. (replicate n CHR ''i'', kind, new_Mesh)) (Enum UPDATE_MESHES)
      \<lparr>p_buffer = \<lparr>sab_id = 7, sab_floats = [1, 2, 3, 0, 0, 0, 1]\<rparr>,
       p_ids = [''a'', ''zz''], p_count = 1, p_newFloorRotationX = 2,
       p_translation = \<lparr>v_x = 1, v_y = 2, v_z = 3\<rparr>,
       p_rotation = \<lparr>q_x = 1, q_y = 0, q_z = 0, q_w = 0\<rparr>\<rparr>
      ((main_init \<lparr>isFloorAnimating = False, floorRotationX = 0, endFloorRotationAngle = 0,
                   isRaining = False, rainSpeedTimer = 5\<rparr> 0 (\<lambda>_. new_Mesh))
        \<lparr>worldObjects := [(''a'', \<lparr>wo_id = ''a'', wo_geometry = ''sphere'', wo_mesh = 1\<rparr>),
                          (''b'', \<lparr>wo_id = ''b'', wo_geometry = ''sphere'', wo_mesh = 2\<rparr>)],
         allocated := 3, scene := [0, 1, 2]\<rparr>)
   = (None,
      (main_init \<lparr>isFloorAnimating = False, floorRotationX = 0, endFloorRotationAngle = 0,
                   isRaining = False, rainSpeedTimer = 5\<rparr> 0 (\<lambda>_. new_Mesh))
        \<lparr>worldObjects := [(''a'', \<lparr>wo_id = ''a'', wo_geometry = ''sphere'', wo_mesh = 1\<rparr>),
                          (''b'', \<lparr>wo_id = ''b'', wo_geometry = ''sphere'', wo_mesh = 2\<rparr>)],
         sharedFloatArray := Some 7,
         meshes := (\<lambda>_. new_Mesh)(1 := new_Mesh
           \<lparr>m_position := \<lparr>v_x = Num 1, v_y = Num 2, v_z = Num 3\<rparr>,
            m_quaternion := \<lparr>q_x = Num 0, q_y = Num 0, q_z = Num 0, q_w = Num 1\<rparr>\<rparr>),
         allocated := 3, scene := [0, 1, 2]\<rparr>) \<and>
   scene (snd (onmessage (\<lambda>kind n. (replicate n CHR ''i'', kind, new_Mesh)) (Enum RAPIER_READY)
      \<lparr>p_buffer = \<lparr>sab_id = 7, sab_floats = [1, 2, 3, 0, 0, 0, 1]\<rparr>,
       p_ids = [''a'', ''zz''], p_count = 1, p_newFloorRotationX = 2,
       p_translation = \<lparr>v_x = 1, v_y = 2, v_z = 3\<rparr>,
       p_rotation = \<lparr>q_x = 1, q_y = 0, q_z = 0, q_w = 0\<rparr>\<rparr>
      (main_init \<lparr>isFloorAnimating = False, floorRotationX = 0, endFloorRotationAngle = 0,
                   isRaining = False, rainSpeedTimer = 5\<rparr> 0 (\<lambda>_. new_Mesh))))
   = [0..<21]"
proof -
  let ?cm = "\<lambda>kind n. (replicate n CHR ''i'', kind, new_Mesh)"
  let ?p = "\<lparr>p_buffer = \<lparr>sab_id = 7, sab_floats = [1, 2, 3, 0, 0, 0, 1]\<rparr>,
       p_ids = [''a'', ''zz''], p_count = 1, p_newFloorRotationX = 2,
       p_translation = \<lparr>v_x = 1, v_y = 2, v_z = 3\<rparr>,
       p_rotation = \<lparr>q_x = 1, q_y = 0, q_z = 0, q_w = 0\<rparr>\<rparr>"
  let ?gui = "\<lparr>isFloorAnimating = False, floorRotationX = 0, endFloorRotationAngle = 0,
                   isRaining = False, rainSpeedTimer = 5\<rparr>"
  let ?init = "main_init ?gui 0 (\<lambda>_. new_Mesh)"
  let ?st = "?init
        \<lparr>worldObjects := [(''a'', \<lparr>wo_id = ''a'', wo_geometry = ''sphere'', wo_mesh = 1\<rparr>),
                          (''b'', \<lparr>wo_id = ''b'', wo_geometry = ''sphere'', wo_mesh = 2\<rparr>)],
         allocated := 3, scene := [0, 1, 2]\<rparr>"
  note t = onmessage_dispatch [THEN conjunct2]
  have other: "onmessage ?cm (Other ''PING'') ?p ?st = (None, ?st)"
    using t [of "Other ''PING''" ?cm ?p ?st, THEN conjunct2, THEN conjunct2, THEN conjunct2,
        THEN conjunct2]
    by simp
  have rotate: "onmessage ?cm (Enum ROTATE_FLOOR) ?p ?st = (None, ?st
        \<lparr>guiManager := \<lparr>isFloorAnimating = False, floorRotationX = 2, endFloorRotationAngle = 0,
                   isRaining = False, rainSpeedTimer = 5\<rparr>,
         meshes := (\<lambda>_. new_Mesh)(0 := new_Mesh
           \<lparr>m_position := \<lparr>v_x = Num 1, v_y = Num 2, v_z = Num 3\<rparr>,
            m_quaternion := \<lparr>q_x = Num 1, q_y = Num 0, q_z = Num 0, q_w = Num 0\<rparr>\<rparr>)\<rparr>)"
    using t [of "Enum ROTATE_FLOOR" ?cm ?p ?st, THEN conjunct2, THEN conjunct2, THEN conjunct1]
    by (simp add: main_init_def)
  have u: "[0..<1] = [0]" by simp
  have h: "syncHits (worldObjects ?st) (p_ids ?p) (p_count ?p) r = (if r = 1 then [0] else [])" for r
    by (simp add: syncHits_def sync_hit_def)
  have update: "onmessage ?cm (Enum UPDATE_MESHES) ?p ?st = (None, ?st
        \<lparr>sharedFloatArray := Some 7,
         meshes := (\<lambda>_. new_Mesh)(1 := new_Mesh
           \<lparr>m_position := \<lparr>v_x = Num 1, v_y = Num 2, v_z = Num 3\<rparr>,
            m_quaternion := \<lparr>q_x = Num 0, q_y = Num 0, q_z = Num 0, q_w = Num 1\<rparr>\<rparr>)\<rparr>)"
    using t [of "Enum UPDATE_MESHES" ?cm ?p ?st, THEN conjunct2, THEN conjunct1]
    apply (simp only: h)
    apply (simp add: main_init_def transformAt_def fa_get_def Vector3_set_def Quaternion_set_def
        new_Mesh_def fun_eq_iff)
    done
  have "\<exists>rem. snd (onmessage ?cm (Enum REMOVE_INACTIVES) ?p ?st) =
           ?st\<lparr>worldObjects := filter (\<lambda>(k, wo). k \<notin> set (p_ids ?p)) (worldObjects ?st),
              scene := filter (\<lambda>r. r \<notin> set rem) (scene ?st),
              disposed := disposed ?st @ rem\<rparr> \<and>
         mset rem = mset (map (\<lambda>(k, wo). wo_mesh wo)
                      (filter (\<lambda>(k, wo). k \<in> set (p_ids ?p)) (worldObjects ?st)))"
    using t [of "Enum REMOVE_INACTIVES" ?cm ?p ?st, THEN conjunct2, THEN conjunct2,
        THEN conjunct2, THEN conjunct1]
    by simp
  then obtain rem where
    r: "snd (onmessage ?cm (Enum REMOVE_INACTIVES) ?p ?st) =
           ?st\<lparr>worldObjects := filter (\<lambda>(k, wo). k \<notin> set (p_ids ?p)) (worldObjects ?st),
              scene := filter (\<lambda>r. r \<notin> set rem) (scene ?st),
              disposed := disposed ?st @ rem\<rparr>"
    and m: "mset rem = mset (map (\<lambda>(k, wo). wo_mesh wo)
                      (filter (\<lambda>(k, wo). k \<in> set (p_ids ?p)) (worldObjects ?st)))"
    by blast
  from m have "mset rem = {#1#}" by simp
  then have rem: "rem = [1]" by simp
  have rn: "fst (onmessage ?cm (Enum REMOVE_INACTIVES) ?p ?st) = None"
    using t [of "Enum REMOVE_INACTIVES" ?cm ?p ?st, THEN conjunct2, THEN conjunct2,
        THEN conjunct2, THEN conjunct1]
    by simp
  have "snd (onmessage ?cm (Enum REMOVE_INACTIVES) ?p ?st) = ?st
        \<lparr>worldObjects := [(''b'', \<lparr>wo_id = ''b'', wo_geometry = ''sphere'', wo_mesh = 2\<rparr>)],
         scene := [0, 2], disposed := [1]\<rparr>"
    unfolding r rem by (simp add: main_init_def)
  with rn have remove: "onmessage ?cm (Enum REMOVE_INACTIVES) ?p ?st = (None, ?st
        \<lparr>worldObjects := [(''b'', \<lparr>wo_id = ''b'', wo_geometry = ''sphere'', wo_mesh = 2\<rparr>)],
         scene := [0, 2], disposed := [1]\<rparr>)"
    by (simp add: prod_eq_iff)
  have d: "distinct (map (\<lambda>r. fst (?cm ''sphere'' r)) [allocated ?init..<allocated ?init + 20])"
    by (simp add: distinct_map inj_on_def main_init_def)
  have "snd (onmessage ?cm (Enum RAPIER_READY) ?p ?init) =
         ?init\<lparr>worldObjects := map (startingEntry ?cm) [allocated ?init..<allocated ?init + 20],
            meshes := (\<lambda>r. if allocated ?init \<le> r \<and> r < allocated ?init + 20
                            then snd (snd (?cm ''sphere'' r)) else meshes ?init r),
            allocated := allocated ?init + 20,
            scene := scene ?init @ [allocated ?init..<allocated ?init + 20],
            posted := posted ?init @
              [\<lparr>wm_type = ADD_OBJECTS,
                wm_payload = AddObjects (map (startingData ?cm)
                               [allocated ?init..<allocated ?init + 20])\<rparr>]\<rparr>"
    using t [of "Enum RAPIER_READY" ?cm ?p ?init, THEN conjunct1] d
    by (simp add: main_init_def scene_add_def)
  then have "scene (snd (onmessage ?cm (Enum RAPIER_READY) ?p ?init)) =
      scene ?init @ [allocated ?init..<allocated ?init + 20]"
    by simp
  then have ready: "scene (snd (onmessage ?cm (Enum RAPIER_READY) ?p ?init)) = [0..<21]"
    by (simp add: main_init_def scene_add_def upt_rec [of 0])
  show ?thesis
    using other rotate update remove ready by (simp add: main_init_def)
qed

section \<open>Properties of the order of setup and rendering\<close>















section \<open>The states the main thread reaches are well formed\<close>

lemma wellFormed_cong:
  "worldObjects a = worldObjects b \<Longrightarrow> scene a = scene b \<Longrightarrow> wellFormed a = wellFormed b"
  by (simp add: wellFormed_def)

lemma update_entries:
  "\<forall>(k', w) \<in> set al. wo_id w = k' \<Longrightarrow> wo_id v = k \<Longrightarrow>
   \<forall>(k', w) \<in> set (AList.update k v al). wo_id w = k'"
  by (induction al) auto

lemma delete_entries:
  "\<forall>(k', w) \<in> set al. wo_id w = k' \<Longrightarrow>
   \<forall>(k', w) \<in> set (AList.delete k al). wo_id w = k'"
  by (induction al) auto

lemma wellFormed_delete:
  assumes "wellFormed st"
  shows "wellFormed (st\<lparr>worldObjects := AList.delete k (worldObjects st)\<rparr>)"
proof -
  from assms have d: "distinct (map fst (worldObjects st))"
    and i: "\<forall>(k', w) \<in> set (worldObjects st). wo_id w = k'"
    and s: "distinct (scene st)"
    by (simp_all add: wellFormed_def)
  show ?thesis
    unfolding wellFormed_def
    using distinct_delete [OF d, of k] delete_entries [OF i, of k] s by simp
qed

lemma wellFormed_scene_remove:
  assumes "wellFormed st"
  shows "wellFormed (st\<lparr>scene := scene_remove r (scene st)\<rparr>)"
  using assms by (simp add: wellFormed_def scene_remove_def)

lemma addStartingObject_wellFormed:
  assumes "wellFormed st"
  shows "wellFormed (addStartingObject cm st)"
proof -
  from assms have d: "distinct (map fst (worldObjects st))"
    and i: "\<forall>(k', w) \<in> set (worldObjects st). wo_id w = k'"
    and s: "distinct (scene st)"
    by (simp_all add: wellFormed_def)
  let ?k = "fst (startingEntry cm (allocated st))"
  let ?v = "snd (startingEntry cm (allocated st))"
  have kv: "wo_id ?v = ?k" by (simp add: startingEntry_def Let_def)
  have w: "worldObjects (addStartingObject cm st) = AList.update ?k ?v (worldObjects st)"
    by (subst addStartingObject_eq) simp
  have c: "scene (addStartingObject cm st) = scene_add (allocated st) (scene st)"
    by (subst addStartingObject_eq) simp
  have "distinct (scene_add (allocated st) (scene st))"
    using s by (simp add: scene_add_def)
  then show ?thesis
    unfolding wellFormed_def w c
    using distinct_update [OF d, of ?k ?v] update_entries [OF i kv] by simp
qed

lemma initStartingObjects_wellFormed:
  assumes "wellFormed st"
  shows "wellFormed (initStartingObjects cm st)"
proof -
  have f: "wellFormed (fold (\<lambda>_. addStartingObject cm) xs st)" for xs :: "nat list"
    using assms by (induction xs arbitrary: st) (simp_all add: addStartingObject_wellFormed)
  have "wellFormed (initStartingObjects cm st) =
        wellFormed (fold (\<lambda>_. addStartingObject cm) [0..<20] st)"
    by (rule wellFormed_cong) (simp_all add: initStartingObjects_def Let_def)
  then show ?thesis using f by simp
qed

lemma udpateAndSyncMeshBodies_wellFormed:
  assumes "wellFormed st"
  shows "wellFormed (snd (udpateAndSyncMeshBodies payload st))"
proof -
  let ?st1 = "if sharedFloatArray st = None \<or> sharedFloatArray st \<noteq> Some (sab_id (p_buffer payload))
                 then st\<lparr>sharedFloatArray := Some (sab_id (p_buffer payload))\<rparr> else st"
  from syncLoop_frame [of 0 0 "p_count payload" "p_ids payload"
      "sab_floats (p_buffer payload)" ?st1]
  obtain m where e: "snd (udpateAndSyncMeshBodies payload st) = ?st1\<lparr>meshes := m\<rparr>"
    unfolding udpateAndSyncMeshBodies_def Let_def by blast
  have "wellFormed (?st1\<lparr>meshes := m\<rparr>) = wellFormed st"
    by (rule wellFormed_cong) simp_all
  then show ?thesis using assms by (simp only: e)
qed

lemma updateAndRotateFloor_wellFormed:
  assumes "wellFormed st"
  shows "wellFormed (updateAndRotateFloor payload st)"
proof -
  have "wellFormed (updateAndRotateFloor payload st) = wellFormed st"
    by (rule wellFormed_cong) (simp_all add: updateAndRotateFloor_def Let_def)
  then show ?thesis using assms by simp
qed

lemma removeInactive_forEach_wellFormed:
  "wellFormed st \<Longrightarrow> wellFormed (removeInactive_forEach ids st)"
proof (induction ids arbitrary: st)
  case Nil
  then show ?case by simp
next
  case (Cons oid ids)
  show ?case
  proof (cases "map_of (worldObjects st) oid")
    case None
    then show ?thesis using Cons by simp
  next
    case (Some meshObject)
    let ?st1 = "st\<lparr>worldObjects := AList.delete oid (worldObjects st)\<rparr>"
    let ?st2 = "?st1\<lparr>scene := scene_remove (wo_mesh meshObject) (scene ?st1)\<rparr>"
    have w2: "wellFormed ?st2"
      by (rule wellFormed_scene_remove [OF wellFormed_delete [OF Cons.prems]])
    have "wellFormed (disposeMesh (wo_mesh meshObject)
              (st\<lparr>worldObjects := AList.delete oid (worldObjects st),
                  scene := scene_remove (wo_mesh meshObject) (scene st)\<rparr>)) = wellFormed ?st2"
      by (rule wellFormed_cong) (simp_all add: disposeMesh_def)
    then have "wellFormed (disposeMesh (wo_mesh meshObject)
              (st\<lparr>worldObjects := AList.delete oid (worldObjects st),
                  scene := scene_remove (wo_mesh meshObject) (scene st)\<rparr>))"
      using w2 by simp
    then have "wellFormed (removeInactive_forEach ids (disposeMesh (wo_mesh meshObject)
              (st\<lparr>worldObjects := AList.delete oid (worldObjects st),
                  scene := scene_remove (wo_mesh meshObject) (scene st)\<rparr>)))"
      by (rule Cons.IH)
    then show ?thesis using Some by simp
  qed
qed

lemma fallingCallback_wellFormed:
  assumes "wellFormed st"
  shows "wellFormed (fallingCallback wo st)"
proof (cases "jsnum_le (v_y (m_position (meshes st (wo_mesh wo)))) (- 20)")
  case True
  have "wellFormed (fallingCallback wo st) =
        wellFormed (st\<lparr>worldObjects := AList.delete (wo_id wo) (worldObjects st)\<rparr>)"
    by (rule wellFormed_cong) (simp_all add: fallingCallback_def Let_def True)
  then show ?thesis using wellFormed_delete [OF assms, of "wo_id wo"] by simp
next
  case False
  then show ?thesis using assms by (simp add: fallingCallback_def Let_def)
qed

lemma falling_forEach_wellFormed:
  "wellFormed st \<Longrightarrow> wellFormed (falling_forEach es st)"
proof (induction es arbitrary: st)
  case Nil
  then show ?case by simp
next
  case (Cons e es)
  obtain k v where e: "e = (k, v)" by (cases e)
  have "wellFormed (case map_of (worldObjects st) k of
          None \<Rightarrow> st | Some wo \<Rightarrow> fallingCallback wo st)"
    using Cons.prems
    by (cases "map_of (worldObjects st) k") (simp_all add: fallingCallback_wellFormed)
  then have "wellFormed (falling_forEach es (case map_of (worldObjects st) k of
          None \<Rightarrow> st | Some wo \<Rightarrow> fallingCallback wo st))"
    by (rule Cons.IH)
  then show ?case by (simp add: e)
qed

lemma tick_wellFormed:
  assumes "wellFormed st"
  shows "wellFormed (tick delta elapsed st)"
proof (cases "fpsDelta st + delta < fpsInterval")
  case True
  have "wellFormed (tick delta elapsed st) = wellFormed st"
    by (rule wellFormed_cong) (simp_all add: tick_def Let_def True)
  then show ?thesis using assms by simp
next
  case False
  let ?st7 = "worldStepTick (elapsed - deltaTime st)
      (st\<lparr>deltaTime := elapsed,
         fpsDelta := js_rem (fpsDelta st + delta) fpsInterval,
         effects := effects st @ [RequestAnimationFrame, StatsBegin, ControlsUpdate]\<rparr>)"
  have "wellFormed ?st7 = wellFormed st"
    by (rule wellFormed_cong) (simp_all add: worldStepTick_def)
  then have w7: "wellFormed ?st7" using assms by simp
  have w8: "wellFormed (checkAndRemoveFallingObjects ?st7)"
    unfolding checkAndRemoveFallingObjects_def by (rule falling_forEach_wellFormed [OF w7])
  have "wellFormed (tick delta elapsed st) = wellFormed (checkAndRemoveFallingObjects ?st7)"
    by (rule wellFormed_cong) (simp_all add: tick_def Let_def False)
  then show ?thesis using w8 by simp
qed

lemma onmessage_wellFormed:
  assumes "wellFormed st"
  shows "wellFormed (snd (onmessage cm ty payload st))"
proof -
  let ?st1 = "if ty = Enum RAPIER_READY then initStartingObjects cm st else st"
  let ?r2 = "if ty = Enum UPDATE_MESHES then udpateAndSyncMeshBodies payload ?st1
             else (None, ?st1)"
  have w1: "wellFormed ?st1" using assms by (simp add: initStartingObjects_wellFormed)
  obtain err st2 where r: "?r2 = (err, st2)" by (cases ?r2)
  have w2: "wellFormed st2"
  proof (cases "ty = Enum UPDATE_MESHES")
    case True
    then have "st2 = snd (udpateAndSyncMeshBodies payload ?st1)" using r by simp
    then show ?thesis using udpateAndSyncMeshBodies_wellFormed [OF w1, of payload] by simp
  next
    case False
    then have "st2 = ?st1" using r by simp
    then show ?thesis using w1 by simp
  qed
  let ?st3 = "if ty = Enum ROTATE_FLOOR then updateAndRotateFloor payload st2 else st2"
  have w3: "wellFormed ?st3"
    using w2 updateAndRotateFloor_wellFormed [OF w2, of payload] by simp
  let ?st4 = "if ty = Enum REMOVE_INACTIVES then removeInactiveMeshBodies payload ?st3 else ?st3"
  have w4: "wellFormed ?st4"
  proof (cases "ty = Enum REMOVE_INACTIVES")
    case True
    have "wellFormed (removeInactive_forEach (p_ids payload) ?st3)"
      by (rule removeInactive_forEach_wellFormed [OF w3])
    then show ?thesis by (simp add: True removeInactiveMeshBodies_def)
  next
    case False
    show ?thesis using w3 False by simp
  qed
  have "snd (onmessage cm ty payload st) = (case err of Some e \<Rightarrow> st2 | None \<Rightarrow> ?st4)"
    unfolding onmessage_def Let_def r by (cases err) simp_all
  then show ?thesis using w2 w4 by (cases err) simp_all
qed

text \<open>
  Every state that the script, the messages of the worker and the frames lead to is
  well formed: the properties above that ask for a map with pairwise different keys, for
  entries stored under their own id or for a scene without repeated children hold of
  all of them.
\<close>

lemma main_run_wellFormed:
  "wellFormed (main_run cm events (main_init gui n objs))"
proof -
  have i: "wellFormed (main_init gui n objs)"
    by (simp add: wellFormed_def main_init_def scene_add_def)
  have "wellFormed st \<Longrightarrow> wellFormed (main_run cm events st)" for st
  proof (induction events arbitrary: st)
    case Nil
    then show ?case by (simp add: main_run_def)
  next
    case (Cons e events)
    have "wellFormed (main_event cm e st)"
      using Cons.prems by (cases e) (simp_all add: onmessage_wellFormed tick_wellFormed)
    then have "wellFormed (main_run cm events (main_event cm e st))" by (rule Cons.IH)
    then show ?case by (simp add: main_run_def)
  qed
  then show ?thesis using i by blast
qed

end
